theory Spec2Isabelle
  imports Complex_Main "HOL-Library.Signed_Division"
begin

section \<open>Compile-time rationals\<close>

text \<open>
  A scale is a \<^verbatim>\<open>std::ratio<N, D>\<close>. The template arguments are kept as written;
  the static members \<^verbatim>\<open>num\<close> and \<^verbatim>\<open>den\<close> are the arguments in lowest terms with
  the sign in the numerator, as the C++ standard defines them.

  \<^verbatim>\<open>ratio_multiply\<close> and \<^verbatim>\<open>ratio_divide\<close> belong to the host library. The standard makes
  a program ill-formed when the numerator or the denominator of the result in lowest
  terms cannot be represented by \<^verbatim>\<open>intmax_t\<close> (the common implementations reduce before
  they multiply and reject exactly these), and when it divides by a zero ratio. An
  ill-formed instantiation is \<open>None\<close>.
\<close>

datatype ratio = Ratio int int

fun num :: "ratio \<Rightarrow> int" where
  "num (Ratio N D) = sgn N * sgn D * (\<bar>N\<bar> div gcd N D)"

fun den :: "ratio \<Rightarrow> int" where
  "den (Ratio N D) = \<bar>D\<bar> div gcd N D"

definition intmax_max :: int where
  "intmax_max = 2 ^ 63 - 1"

definition representable :: "int \<Rightarrow> bool" where
  "representable x = (\<bar>x\<bar> \<le> intmax_max)"

definition ratio_type :: "ratio \<Rightarrow> ratio option" where
  "ratio_type X =
     (if den X \<noteq> 0 \<and> representable (num X) \<and> representable (den X)
      then Some (Ratio (num X) (den X)) else None)"

definition ratio_multiply :: "ratio \<Rightarrow> ratio \<Rightarrow> ratio option" where
  "ratio_multiply R1 R2 = ratio_type (Ratio (num R1 * num R2) (den R1 * den R2))"

definition ratio_divide :: "ratio \<Rightarrow> ratio \<Rightarrow> ratio option" where
  "ratio_divide R1 R2 = ratio_type (Ratio (num R1 * den R2) (den R1 * num R2))"

definition positive_scale :: "ratio \<Rightarrow> bool" where
  "positive_scale R = (case R of Ratio N D \<Rightarrow> 0 < N \<and> 0 < D)"

definition scale_value :: "ratio \<Rightarrow> rat" where
  "scale_value R = (case R of Ratio N D \<Rightarrow> of_int N / of_int D)"

definition atto :: ratio where "atto = Ratio 1 1000000000000000000"
definition nano :: ratio where "nano = Ratio 1 1000000000"
definition milli :: ratio where "milli = Ratio 1 1000"
definition one :: ratio where "one = Ratio 1 1"
definition kilo :: ratio where "kilo = Ratio 1000 1"
definition mega :: ratio where "mega = Ratio 1000000 1"
definition exa :: ratio where "exa = Ratio 1000000000000000000 1"

section \<open>Representations\<close>

text \<open>
  The integral representations are the fixed-width types \<^verbatim>\<open>int8_t\<close> to \<^verbatim>\<open>int64_t\<close> and
  \<^verbatim>\<open>uint8_t\<close> to \<^verbatim>\<open>uint64_t\<close>, on a platform where \<^verbatim>\<open>int\<close> has 32 bits and \<^verbatim>\<open>long\<close>,
  which is \<^verbatim>\<open>int64_t\<close> and \<^verbatim>\<open>intmax_t\<close>, has 64. The floating representations are
  \<^verbatim>\<open>float\<close>, \<^verbatim>\<open>double\<close> and \<^verbatim>\<open>long double\<close>.
\<close>

datatype int_rep = Int8 | Int16 | Int32 | Int64 | UInt8 | UInt16 | UInt32 | UInt64

datatype fp_rep = Float | Double | Long_double

datatype rep = Integral int_rep | Floating fp_rep

fun bits :: "int_rep \<Rightarrow> nat" where
  "bits Int8 = 8"
| "bits Int16 = 16"
| "bits Int32 = 32"
| "bits Int64 = 64"
| "bits UInt8 = 8"
| "bits UInt16 = 16"
| "bits UInt32 = 32"
| "bits UInt64 = 64"

fun is_signed :: "int_rep \<Rightarrow> bool" where
  "is_signed Int8 = True"
| "is_signed Int16 = True"
| "is_signed Int32 = True"
| "is_signed Int64 = True"
| "is_signed _ = False"

definition lowest :: "int_rep \<Rightarrow> int" where
  "lowest r = (if is_signed r then - (2 ^ (bits r - 1)) else 0)"

definition in_range :: "int_rep \<Rightarrow> int \<Rightarrow> bool" where
  "in_range r x = (lowest r \<le> x \<and> x < lowest r + 2 ^ bits r)"

text \<open>Conversion to an integer type: the value of that type congruent modulo \<open>2 ^ bits\<close>.\<close>

definition convert :: "int_rep \<Rightarrow> int \<Rightarrow> int" where
  "convert r x = (x - lowest r) mod 2 ^ bits r + lowest r"

text \<open>
  Integral promotion (every type narrower than \<^verbatim>\<open>int\<close> becomes \<^verbatim>\<open>int\<close>) and the usual
  arithmetic conversions: of two promoted types of the same signedness the wider; of a
  signed and an unsigned one the unsigned if it is at least as wide, else the signed,
  which then holds every value of the unsigned; of two floating types the one of greater
  rank; of a floating type and an integer the floating type.
\<close>

definition promote :: "int_rep \<Rightarrow> int_rep" where
  "promote r = (if bits r < 32 then Int32 else r)"

definition arith_type :: "int_rep \<Rightarrow> int_rep \<Rightarrow> int_rep" where
  "arith_type r1 r2 =
     (let a = promote r1; b = promote r2 in
      if is_signed a = is_signed b then (if bits b \<le> bits a then a else b)
      else if is_signed a then (if bits a \<le> bits b then b else a)
      else (if bits b \<le> bits a then a else b))"

fun fp_rank :: "fp_rep \<Rightarrow> nat" where
  "fp_rank Float = 0"
| "fp_rank Double = 1"
| "fp_rank Long_double = 2"

definition fp_wider :: "fp_rep \<Rightarrow> fp_rep \<Rightarrow> fp_rep" where
  "fp_wider k1 k2 = (if fp_rank k2 \<le> fp_rank k1 then k1 else k2)"

fun arith_rep :: "rep \<Rightarrow> rep \<Rightarrow> rep" where
  "arith_rep (Integral r1) (Integral r2) = Integral (arith_type r1 r2)"
| "arith_rep (Integral r1) (Floating k2) = Floating k2"
| "arith_rep (Floating k1) (Integral r2) = Floating k1"
| "arith_rep (Floating k1) (Floating k2) = Floating (fp_wider k1 k2)"

text \<open>
  \<^verbatim>\<open>std::common_type_t\<close> of two arithmetic types: the type of the conditional operator,
  which is the type itself for equal types and the usual arithmetic conversions' type
  otherwise.
\<close>

definition common_type_t :: "rep \<Rightarrow> rep \<Rightarrow> rep" where
  "common_type_t r1 r2 = (if r1 = r2 then r1 else arith_rep r1 r2)"

fun treat_as_floating_point :: "rep \<Rightarrow> bool" where
  "treat_as_floating_point (Integral _) = False"
| "treat_as_floating_point (Floating _) = True"

section \<open>Outcomes\<close>

text \<open>
  An operation either yields a value or ends in one of these: a use that the compiler
  rejects (no operator or constructor accepts the arguments, or an instantiation it needs
  is ill-formed), and the undefined behaviours of signed overflow, division by zero,
  converting a floating value that the integer type cannot hold, and leaving a
  value-returning function without a return statement.
\<close>

datatype error =
  Ill_formed | Signed_overflow | Division_by_zero | Float_conversion | Flows_off_end

definition bind_res :: "error + 'a \<Rightarrow> ('a \<Rightarrow> error + 'b) \<Rightarrow> error + 'b" where
  "bind_res m f = (case m of Inl e \<Rightarrow> Inl e | Inr x \<Rightarrow> f x)"

section \<open>Numbers and their arithmetic\<close>

text \<open>
  A number is an integer of one of the integer types or a floating value of one of the
  floating types. The floating operations are parameters, each for a given floating
  type: conversion of an integer and of a floating value of another type to it, the four
  operations in it; and conversion to an integer (by truncation, undefined for values
  without an integer part), equality, order, and the rational number a finite value
  denotes.
\<close>

datatype 'f number = Int_val int_rep int | Fp_val fp_rep 'f

record 'f fp_ops =
  fp_of_int :: "fp_rep \<Rightarrow> int \<Rightarrow> 'f"
  fp_cast :: "fp_rep \<Rightarrow> 'f \<Rightarrow> 'f"
  fp_to_int :: "'f \<Rightarrow> int option"
  fp_add :: "fp_rep \<Rightarrow> 'f \<Rightarrow> 'f \<Rightarrow> 'f"
  fp_sub :: "fp_rep \<Rightarrow> 'f \<Rightarrow> 'f \<Rightarrow> 'f"
  fp_mul :: "fp_rep \<Rightarrow> 'f \<Rightarrow> 'f \<Rightarrow> 'f"
  fp_div :: "fp_rep \<Rightarrow> 'f \<Rightarrow> 'f \<Rightarrow> 'f"
  fp_eq :: "'f \<Rightarrow> 'f \<Rightarrow> bool"
  fp_less :: "'f \<Rightarrow> 'f \<Rightarrow> bool"
  fp_value :: "'f \<Rightarrow> rat"

fun type_of :: "'f number \<Rightarrow> rep" where
  "type_of (Int_val r _) = Integral r"
| "type_of (Fp_val k _) = Floating k"

fun value_of :: "'f fp_ops \<Rightarrow> 'f number \<Rightarrow> rat" where
  "value_of fp (Int_val r n) = of_int n"
| "value_of fp (Fp_val k x) = fp_value fp x"

text \<open>Conversion of a number to the floating type \<open>K\<close>.\<close>

fun as_fp :: "'f fp_ops \<Rightarrow> fp_rep \<Rightarrow> 'f number \<Rightarrow> 'f" where
  "as_fp fp K (Int_val r n) = fp_of_int fp K n"
| "as_fp fp K (Fp_val k x) = (if k = K then x else fp_cast fp K x)"

text \<open>Conversion of a number to a type, as an initialisation or a cast does it.\<close>

fun convert_to :: "'f fp_ops \<Rightarrow> rep \<Rightarrow> 'f number \<Rightarrow> error + 'f number" where
  "convert_to fp (Integral r) (Int_val r' n) = Inr (Int_val r (convert r n))"
| "convert_to fp (Integral r) (Fp_val k x) =
     (case fp_to_int fp x of
        None \<Rightarrow> Inl Float_conversion
      | Some n \<Rightarrow> if in_range r n then Inr (Int_val r n) else Inl Float_conversion)"
| "convert_to fp (Floating K) v = Inr (Fp_val K (as_fp fp K v))"

datatype binop = Add | Sub | Mul | Div | Rem

fun int_op :: "binop \<Rightarrow> int \<Rightarrow> int \<Rightarrow> int" where
  "int_op Add a b = a + b"
| "int_op Sub a b = a - b"
| "int_op Mul a b = a * b"
| "int_op Div a b = a sdiv b"
| "int_op Rem a b = a smod b"

text \<open>
  An operation in the integer type \<open>E\<close>: both operands are converted to \<open>E\<close>; a zero
  divisor is undefined; in a signed type a result that \<open>E\<close> cannot hold is undefined
  (for the remainder, when the quotient cannot be held); in an unsigned type the result
  is reduced modulo \<open>2 ^ bits\<close>. Division truncates.
\<close>

definition int_arith :: "int_rep \<Rightarrow> binop \<Rightarrow> int \<Rightarrow> int \<Rightarrow> error + int" where
  "int_arith E op a b =
     (let x = convert E a; y = convert E b in
      if (op = Div \<or> op = Rem) \<and> y = 0 then Inl Division_by_zero
      else if is_signed E then
        (if in_range E (int_op (if op = Rem then Div else op) x y)
         then Inr (int_op op x y) else Inl Signed_overflow)
      else Inr (convert E (int_op op x y)))"

text \<open>
  A binary operation on two numbers, in the type of the usual arithmetic conversions;
  \<^verbatim>\<open>%\<close> with a floating operand does not compile.
\<close>

fun arith :: "'f fp_ops \<Rightarrow> binop \<Rightarrow> 'f number \<Rightarrow> 'f number \<Rightarrow> error + 'f number" where
  "arith fp op (Int_val r1 a) (Int_val r2 b) =
     bind_res (int_arith (arith_type r1 r2) op a b) (\<lambda>c. Inr (Int_val (arith_type r1 r2) c))"
| "arith fp op x y =
     (case arith_rep (type_of x) (type_of y) of
        Integral E \<Rightarrow> Inl Ill_formed
      | Floating K \<Rightarrow>
         (case op of
            Add \<Rightarrow> Inr (Fp_val K (fp_add fp K (as_fp fp K x) (as_fp fp K y)))
          | Sub \<Rightarrow> Inr (Fp_val K (fp_sub fp K (as_fp fp K x) (as_fp fp K y)))
          | Mul \<Rightarrow> Inr (Fp_val K (fp_mul fp K (as_fp fp K x) (as_fp fp K y)))
          | Div \<Rightarrow> Inr (Fp_val K (fp_div fp K (as_fp fp K x) (as_fp fp K y)))
          | Rem \<Rightarrow> Inl Ill_formed))"

datatype ordering = Less | Equal | Greater | Unordered

definition three_way :: "'a::linorder \<Rightarrow> 'a \<Rightarrow> ordering" where
  "three_way x y = (if x < y then Less else if x = y then Equal else Greater)"

fun num_eq :: "'f fp_ops \<Rightarrow> 'f number \<Rightarrow> 'f number \<Rightarrow> bool" where
  "num_eq fp (Int_val r1 a) (Int_val r2 b) =
     (convert (arith_type r1 r2) a = convert (arith_type r1 r2) b)"
| "num_eq fp x y =
     (case arith_rep (type_of x) (type_of y) of
        Integral E \<Rightarrow> False
      | Floating K \<Rightarrow> fp_eq fp (as_fp fp K x) (as_fp fp K y))"

fun num_cmp :: "'f fp_ops \<Rightarrow> 'f number \<Rightarrow> 'f number \<Rightarrow> ordering" where
  "num_cmp fp (Int_val r1 a) (Int_val r2 b) =
     three_way (convert (arith_type r1 r2) a) (convert (arith_type r1 r2) b)"
| "num_cmp fp x y =
     (case arith_rep (type_of x) (type_of y) of
        Integral E \<Rightarrow> Unordered
      | Floating K \<Rightarrow>
          if fp_less fp (as_fp fp K x) (as_fp fp K y) then Less
          else if fp_less fp (as_fp fp K y) (as_fp fp K x) then Greater
          else if fp_eq fp (as_fp fp K x) (as_fp fp K y) then Equal
          else Unordered)"

text \<open>
  Exact rational arithmetic as floating operations, for examples whose floating values
  and results the floating types hold exactly.
\<close>

definition exact_fp :: "rat fp_ops" where
  "exact_fp =
     \<lparr>fp_of_int = (\<lambda>K. of_int), fp_cast = (\<lambda>K x. x),
      fp_to_int = (\<lambda>x. Some (if x < 0 then - \<lfloor>- x\<rfloor> else \<lfloor>x\<rfloor>)),
      fp_add = (\<lambda>K. (+)), fp_sub = (\<lambda>K. (-)), fp_mul = (\<lambda>K. (*)), fp_div = (\<lambda>K. (/)),
      fp_eq = (=), fp_less = (<), fp_value = (\<lambda>x. x)\<rparr>"

section \<open>Dimension tags and quantities\<close>

text \<open>
  A tag is \<^verbatim>\<open>void\<close> or a struct declared by \<^verbatim>\<open>SU_UNIT(name, symbol)\<close> or
  \<^verbatim>\<open>SU_DURATION_UNIT(name, symbol)\<close>; the latter also specialises
  \<^verbatim>\<open>is_duration_type\<close> to true.
\<close>

datatype tag = Void | SU_UNIT string string | SU_DURATION_UNIT string string

fun is_duration_type :: "tag \<Rightarrow> bool" where
  "is_duration_type (SU_DURATION_UNIT _ _) = True"
| "is_duration_type _ = False"

text \<open>
  \<^verbatim>\<open>unit<Tag, Rep, Scale>\<close>: the type is the three template arguments, a value is its
  type and the stored \<^verbatim>\<open>m_val\<close>, a number of type \<^verbatim>\<open>Rep\<close>.
\<close>

record unit_type =
  tag :: tag
  rep :: rep
  scale :: ratio

record 'f su_unit =
  ty :: unit_type
  m_val :: "'f number"

definition count :: "'f su_unit \<Rightarrow> 'f number" where
  "count u = m_val u"

definition well_typed :: "'f su_unit \<Rightarrow> bool" where
  "well_typed u =
     (case m_val u of
        Int_val r n \<Rightarrow> rep (ty u) = Integral r \<and> in_range r n
      | Fp_val k x \<Rightarrow> rep (ty u) = Floating k)"

text \<open>The physical value of a quantity: count times scale, as a rational.\<close>

definition physical :: "'f fp_ops \<Rightarrow> 'f su_unit \<Rightarrow> rat" where
  "physical fp u = value_of fp (m_val u) * scale_value (scale (ty u))"

text \<open>
  \<^verbatim>\<open>
  template <typename Rep2>
  requires treat_as_floating_point<Rep>::value || (!treat_as_floating_point<Rep2>::value)
  constexpr explicit unit(const Rep2& v) : m_val(v) {}
  \<close>
  The member initialiser converts \<^verbatim>\<open>v\<close> to \<^verbatim>\<open>Rep\<close>.
\<close>

definition raw_ctor_available :: "rep \<Rightarrow> rep \<Rightarrow> bool" where
  "raw_ctor_available Rep Rep2 = (treat_as_floating_point Rep \<or> \<not> treat_as_floating_point Rep2)"

definition raw_ctor :: "'f fp_ops \<Rightarrow> unit_type \<Rightarrow> 'f number \<Rightarrow> error + 'f su_unit" where
  "raw_ctor fp T v =
     (if raw_ctor_available (rep T) (type_of v)
      then bind_res (convert_to fp (rep T) v) (\<lambda>x. Inr \<lparr>ty = T, m_val = x\<rparr>)
      else Inl Ill_formed)"

section \<open>The conversion engine\<close>

text \<open>
  \<^verbatim>\<open>
  template <typename To, typename Tag, typename Rep, typename Scale>
  requires std::same_as<typename To::tag, Tag>
  constexpr To unit_cast(const unit<Tag, Rep, Scale>& u) {
      using R = std::ratio_divide<typename To::scale, Scale>;
      std::common_type_t<typename To::rep, Rep> v = u.count();
      return To((v * R::den) / R::num);
  }
  \<close>
  \<^verbatim>\<open>R::den\<close> and \<^verbatim>\<open>R::num\<close> are \<^verbatim>\<open>intmax_t\<close>.

  Whether \<^verbatim>\<open>unit_cast<To>(u)\<close> compiles is decided from the two types: the
  requires-clause compares the tags, \<^verbatim>\<open>R\<close> must be well-formed, and the body passes the
  quotient, whose type comes from \<^verbatim>\<open>v\<close> and \<^verbatim>\<open>intmax_t\<close>, to the constructor from a raw
  number.
\<close>

definition unit_cast_constraint :: "unit_type \<Rightarrow> unit_type \<Rightarrow> bool" where
  "unit_cast_constraint To From = (tag To = tag From)"

definition unit_cast_well_formed :: "unit_type \<Rightarrow> unit_type \<Rightarrow> bool" where
  "unit_cast_well_formed To From =
     (unit_cast_constraint To From \<and>
      ratio_divide (scale To) (scale From) \<noteq> None \<and>
      raw_ctor_available (rep To)
        (arith_rep (common_type_t (rep To) (rep From)) (Integral Int64)))"

definition unit_cast :: "'f fp_ops \<Rightarrow> unit_type \<Rightarrow> 'f su_unit \<Rightarrow> error + 'f su_unit" where
  "unit_cast fp To u =
     (if \<not> unit_cast_well_formed To (ty u) then Inl Ill_formed
      else case ratio_divide (scale To) (scale (ty u)) of
        None \<Rightarrow> Inl Ill_formed
      | Some R \<Rightarrow>
          bind_res (convert_to fp (common_type_t (rep To) (rep (ty u))) (count u)) (\<lambda>v.
          bind_res (arith fp Mul v (Int_val Int64 (den R))) (\<lambda>p.
          bind_res (arith fp Div p (Int_val Int64 (num R))) (\<lambda>q.
          raw_ctor fp To q))))"

section \<open>The common-type resolver\<close>

text \<open>
  \<^verbatim>\<open>su::detail::abs\<close> and \<^verbatim>\<open>su::detail::gcd\<close>, evaluated by the compiler in
  \<^verbatim>\<open>intmax_t\<close>: an operation whose result \<^verbatim>\<open>intmax_t\<close> cannot hold is not a constant
  expression, and the program is rejected (\<open>None\<close>). \<^verbatim>\<open>%\<close> is the truncating
  remainder, defined when the quotient is.
  \<^verbatim>\<open>
  constexpr intmax_t abs(intmax_t a) { return a < 0 ? -a : a; }
  constexpr intmax_t gcd(intmax_t a, intmax_t b) {
      if (b == 0) { return abs(a); }
      else if (a == 0) { return abs(b); }
      else { return gcd(b, a % b); }
  }
  \<close>
\<close>

definition intmax :: "int \<Rightarrow> int option" where
  "intmax x = (if in_range Int64 x then Some x else None)"

definition detail_abs :: "int \<Rightarrow> int option" where
  "detail_abs a = (if a < 0 then intmax (- a) else Some a)"

function detail_gcd :: "int \<Rightarrow> int \<Rightarrow> int option" where
  "detail_gcd a b =
     (if b = 0 then detail_abs a
      else if a = 0 then detail_abs b
      else if in_range Int64 (a sdiv b) then detail_gcd b (a smod b)
      else None)"
  by pat_completeness auto
termination
proof (relation "measure (\<lambda>(a, b). nat \<bar>b\<bar>)")
  show "wf (measure (\<lambda>(a, b). nat \<bar>b\<bar>))" by simp
next
  fix a b :: int
  assume "b \<noteq> 0"
  then have "\<bar>a smod b\<bar> < \<bar>b\<bar>"
    using smod_int_range [of b a] by auto
  then show "((b, a smod b), (a, b)) \<in> measure (\<lambda>(a, b). nat \<bar>b\<bar>)"
    by simp
qed

declare detail_gcd.simps [simp del]

text \<open>
  The two specialisations of \<^verbatim>\<open>std::common_type\<close> for quantities of one tag: identical
  types give that type; otherwise
  \<^verbatim>\<open>
  using Scale = ratio<su::detail::gcd(Scale1::num, Scale2::num),
                      (Scale1::den / su::detail::gcd(Scale1::den, Scale2::den)) * Scale2::den>;
  using Rep = common_type_t<Rep1, Rep2>;
  \<close>
  where the template arguments are \<^verbatim>\<open>intmax_t\<close> constant expressions. Quantities of
  different tags have no common type.
\<close>

definition common_scale :: "ratio \<Rightarrow> ratio \<Rightarrow> ratio option" where
  "common_scale Scale1 Scale2 =
     Option.bind (detail_gcd (num Scale1) (num Scale2)) (\<lambda>n.
     Option.bind (detail_gcd (den Scale1) (den Scale2)) (\<lambda>g.
     if g = 0 then None
     else Option.bind (intmax (den Scale1 sdiv g)) (\<lambda>q.
          Option.bind (intmax (q * den Scale2)) (\<lambda>d.
          Some (Ratio n d)))))"

definition common_type :: "unit_type \<Rightarrow> unit_type \<Rightarrow> unit_type option" where
  "common_type T1 T2 =
     (if T1 = T2 then Some T1
      else if tag T1 = tag T2 then
        Option.bind (common_scale (scale T1) (scale T2)) (\<lambda>S.
        Some \<lparr>tag = tag T1, rep = common_type_t (rep T1) (rep T2), scale = S\<rparr>)
      else None)"

section \<open>Same-dimension operators\<close>

text \<open>
  \<^verbatim>\<open>
  using T = std::common_type_t<unit<Tag, Rep1, Scale1>, unit<Tag, Rep2, Scale2>>;
  return T(unit_cast<T>(a).count() + unit_cast<T>(b).count());
  \<close>
  and likewise \<^verbatim>\<open>-\<close> and \<^verbatim>\<open>%\<close>. The two counts have type \<^verbatim>\<open>T::rep\<close>; integers are
  promoted before the operation and the constructor converts the result back.
\<close>

definition operator_plus :: "'f fp_ops \<Rightarrow> 'f su_unit \<Rightarrow> 'f su_unit \<Rightarrow> error + 'f su_unit" where
  "operator_plus fp a b =
     (case common_type (ty a) (ty b) of
        None \<Rightarrow> Inl Ill_formed
      | Some T \<Rightarrow>
          bind_res (unit_cast fp T a) (\<lambda>a'.
          bind_res (unit_cast fp T b) (\<lambda>b'.
          bind_res (arith fp Add (count a') (count b')) (\<lambda>s.
          raw_ctor fp T s))))"

definition operator_minus :: "'f fp_ops \<Rightarrow> 'f su_unit \<Rightarrow> 'f su_unit \<Rightarrow> error + 'f su_unit" where
  "operator_minus fp a b =
     (case common_type (ty a) (ty b) of
        None \<Rightarrow> Inl Ill_formed
      | Some T \<Rightarrow>
          bind_res (unit_cast fp T a) (\<lambda>a'.
          bind_res (unit_cast fp T b) (\<lambda>b'.
          bind_res (arith fp Sub (count a') (count b')) (\<lambda>s.
          raw_ctor fp T s))))"

definition operator_mod :: "'f fp_ops \<Rightarrow> 'f su_unit \<Rightarrow> 'f su_unit \<Rightarrow> error + 'f su_unit" where
  "operator_mod fp a b =
     (case common_type (ty a) (ty b) of
        None \<Rightarrow> Inl Ill_formed
      | Some T \<Rightarrow>
          bind_res (unit_cast fp T a) (\<lambda>a'.
          bind_res (unit_cast fp T b) (\<lambda>b'.
          bind_res (arith fp Rem (count a') (count b')) (\<lambda>s.
          raw_ctor fp T s))))"

text \<open>
  \<^verbatim>\<open>
  using T = std::common_type_t<unit<Tag, Rep1, Scale1>, unit<Tag, Rep2, Scale2>>;
  return unit_cast<T>(a).count() == unit_cast<T>(b).count();
  \<close>
  and the same with \<^verbatim>\<open><=>\<close>.
\<close>

definition operator_eq :: "'f fp_ops \<Rightarrow> 'f su_unit \<Rightarrow> 'f su_unit \<Rightarrow> error + bool" where
  "operator_eq fp a b =
     (case common_type (ty a) (ty b) of
        None \<Rightarrow> Inl Ill_formed
      | Some T \<Rightarrow>
          bind_res (unit_cast fp T a) (\<lambda>a'.
          bind_res (unit_cast fp T b) (\<lambda>b'.
          Inr (num_eq fp (count a') (count b')))))"

definition operator_spaceship ::
    "'f fp_ops \<Rightarrow> 'f su_unit \<Rightarrow> 'f su_unit \<Rightarrow> error + ordering" where
  "operator_spaceship fp a b =
     (case common_type (ty a) (ty b) of
        None \<Rightarrow> Inl Ill_formed
      | Some T \<Rightarrow>
          bind_res (unit_cast fp T a) (\<lambda>a'.
          bind_res (unit_cast fp T b) (\<lambda>b'.
          Inr (num_cmp fp (count a') (count b')))))"

section \<open>The converting constructor\<close>

text \<open>
  \<^verbatim>\<open>
  template <typename Rep2, typename Scale2>
  requires treat_as_floating_point<Rep>::value ||
      (std::ratio_divide<Scale2, Scale>::den == 1 && !treat_as_floating_point<Rep2>::value)
  constexpr unit(const unit<Tag, Rep2, Scale2>& u) : m_val(unit_cast<unit>(u).count()) {}
  \<close>
  The second operand of \<^verbatim>\<open>||\<close> is looked at only if the first is false; an ill-formed
  \<^verbatim>\<open>ratio_divide\<close> there leaves no usable constructor. The same guard stands on the
  constructor from a duration.
\<close>

definition narrowing_guard :: "rep \<Rightarrow> ratio \<Rightarrow> rep \<Rightarrow> ratio \<Rightarrow> bool" where
  "narrowing_guard Rep Scale Rep2 Scale2 =
     (treat_as_floating_point Rep \<or>
      (case ratio_divide Scale2 Scale of
         None \<Rightarrow> False
       | Some Q \<Rightarrow> den Q = 1 \<and> \<not> treat_as_floating_point Rep2))"

definition converting_ctor_available :: "unit_type \<Rightarrow> unit_type \<Rightarrow> bool" where
  "converting_ctor_available T From =
     (tag T = tag From \<and> narrowing_guard (rep T) (scale T) (rep From) (scale From))"

definition converting_ctor :: "'f fp_ops \<Rightarrow> unit_type \<Rightarrow> 'f su_unit \<Rightarrow> error + 'f su_unit" where
  "converting_ctor fp T u =
     (if converting_ctor_available T (ty u)
      then bind_res (unit_cast fp T u) (\<lambda>c.
           bind_res (convert_to fp (rep T) (count c)) (\<lambda>x. Inr \<lparr>ty = T, m_val = x\<rparr>))
      else Inl Ill_formed)"

section \<open>The units of the test and example programs\<close>

text \<open>
  \<^verbatim>\<open>
  SU_DURATION_UNIT(second_t, "s")  SU_UNIT(hz_t, "Hz")
  SU_UNIT(joule_t, "J")            SU_UNIT(watt_t, "W")
  template <typename Rep, typename Scale = std::ratio<1>>
  using second = su::unit<second_t, Rep, Scale>;
  \<close>
  and likewise \<^verbatim>\<open>hz\<close>, \<^verbatim>\<open>watt\<close> and \<^verbatim>\<open>joule\<close>; \<^verbatim>\<open>quantity<Rep, Scale>\<close> is
  \<^verbatim>\<open>unit<void, Rep, Scale>\<close>.
\<close>

definition second_t :: tag where "second_t = SU_DURATION_UNIT ''second_t'' ''s''"
definition hz_t :: tag where "hz_t = SU_UNIT ''hz_t'' ''Hz''"
definition joule_t :: tag where "joule_t = SU_UNIT ''joule_t'' ''J''"
definition watt_t :: tag where "watt_t = SU_UNIT ''watt_t'' ''W''"

definition second :: "rep \<Rightarrow> ratio \<Rightarrow> unit_type" where
  "second Rep Scale = \<lparr>tag = second_t, rep = Rep, scale = Scale\<rparr>"

definition hz :: "rep \<Rightarrow> ratio \<Rightarrow> unit_type" where
  "hz Rep Scale = \<lparr>tag = hz_t, rep = Rep, scale = Scale\<rparr>"

definition watt :: "rep \<Rightarrow> ratio \<Rightarrow> unit_type" where
  "watt Rep Scale = \<lparr>tag = watt_t, rep = Rep, scale = Scale\<rparr>"

definition joule :: "rep \<Rightarrow> ratio \<Rightarrow> unit_type" where
  "joule Rep Scale = \<lparr>tag = joule_t, rep = Rep, scale = Scale\<rparr>"

definition quantity :: "rep \<Rightarrow> ratio \<Rightarrow> unit_type" where
  "quantity Rep Scale = \<lparr>tag = Void, rep = Rep, scale = Scale\<rparr>"

section \<open>Relation tables\<close>

text \<open>
  \<^verbatim>\<open>su::ops::mul\<close> and \<^verbatim>\<open>su::ops::div\<close> are class templates with a member \<^verbatim>\<open>type\<close>
  in some specialisations. The explicit specialisations are a table; the header itself
  declares \<^verbatim>\<open>mul<void, void>\<close>, every other entry comes from \<^verbatim>\<open>SU_MUL\<close>. Specialising
  the same arguments twice is an error.
\<close>

record ops =
  mul_spec :: "tag \<times> tag \<Rightarrow> tag option"
  div_spec :: "tag \<times> tag \<Rightarrow> tag option"

definition header_ops :: ops where
  "header_ops = \<lparr>mul_spec = [(Void, Void) \<mapsto> Void], div_spec = Map.empty\<rparr>"

text \<open>
  \<^verbatim>\<open>
  #define SU_MUL(lhs_1, lhs_2, rhs)
      template <> struct div<rhs, lhs_1> { using type = lhs_2; };
      template <> struct div<rhs, lhs_2> { using type = lhs_1; };
      template <> struct mul<lhs_1, lhs_2> { using type = rhs; };
      template <> struct mul<lhs_2, lhs_1> { using type = rhs; };
  #define SU_DIV(lhs_1, lhs_2, rhs) SU_MUL(rhs, lhs_2, lhs_1)
  #define SU_INV(lhs, rhs) SU_MUL(lhs, rhs, void)
  \<close>
\<close>

definition SU_MUL :: "tag \<Rightarrow> tag \<Rightarrow> tag \<Rightarrow> ops \<Rightarrow> ops option" where
  "SU_MUL lhs_1 lhs_2 rhs t =
     (if lhs_1 = lhs_2
         \<or> div_spec t (rhs, lhs_1) \<noteq> None \<or> div_spec t (rhs, lhs_2) \<noteq> None
         \<or> mul_spec t (lhs_1, lhs_2) \<noteq> None \<or> mul_spec t (lhs_2, lhs_1) \<noteq> None
      then None
      else Some \<lparr>mul_spec = (mul_spec t)((lhs_1, lhs_2) \<mapsto> rhs, (lhs_2, lhs_1) \<mapsto> rhs),
                 div_spec = (div_spec t)((rhs, lhs_1) \<mapsto> lhs_2, (rhs, lhs_2) \<mapsto> lhs_1)\<rparr>)"

definition SU_DIV :: "tag \<Rightarrow> tag \<Rightarrow> tag \<Rightarrow> ops \<Rightarrow> ops option" where
  "SU_DIV lhs_1 lhs_2 rhs t = SU_MUL rhs lhs_2 lhs_1 t"

definition SU_INV :: "tag \<Rightarrow> tag \<Rightarrow> ops \<Rightarrow> ops option" where
  "SU_INV lhs rhs t = SU_MUL lhs rhs Void t"

text \<open>
  \<^verbatim>\<open>typename ops::mul<T, U>::type\<close>: an explicit specialisation wins; otherwise the partial
  specialisations \<^verbatim>\<open>mul<T, void>\<close> and \<^verbatim>\<open>mul<void, T>\<close> give \<^verbatim>\<open>T\<close> (both match
  \<^verbatim>\<open>mul<void, void>\<close>, which is ambiguous without the explicit one); the primary
  template has no member.
\<close>

definition mul_type :: "ops \<Rightarrow> tag \<Rightarrow> tag \<Rightarrow> tag option" where
  "mul_type t T U =
     (case mul_spec t (T, U) of
        Some r \<Rightarrow> Some r
      | None \<Rightarrow>
          if T = Void \<and> U = Void then None
          else if U = Void then Some T
          else if T = Void then Some U
          else None)"

text \<open>
  \<^verbatim>\<open>typename ops::div<T, U>::type\<close>: the partial specialisations are \<^verbatim>\<open>div<T, T>\<close>, giving
  \<^verbatim>\<open>void\<close>, and \<^verbatim>\<open>div<T, void>\<close>, giving \<^verbatim>\<open>T\<close>; both match \<^verbatim>\<open>div<void, void>\<close>.
\<close>

definition div_type :: "ops \<Rightarrow> tag \<Rightarrow> tag \<Rightarrow> tag option" where
  "div_type t T U =
     (case div_spec t (T, U) of
        Some r \<Rightarrow> Some r
      | None \<Rightarrow>
          if T = Void \<and> U = Void then None
          else if T = U then Some Void
          else if U = Void then Some T
          else None)"

text \<open>
  The relations of the example program, \<^verbatim>\<open>SU_MUL(second_t, watt_t, joule_t)\<close>, and of
  the test program, which declares \<^verbatim>\<open>SU_INV(second_t, hz_t)\<close> first.
\<close>

definition example_ops :: ops where
  "example_ops = the (SU_MUL second_t watt_t joule_t header_ops)"

definition test_ops :: ops where
  "test_ops = the (Option.bind (SU_INV second_t hz_t header_ops) (SU_MUL second_t watt_t joule_t))"

section \<open>Dimension-changing operators\<close>

text \<open>The result is a plain number or a quantity.\<close>

datatype 'f result = Plain "'f number" | Quantity "'f su_unit"

text \<open>
  \<^verbatim>\<open>
  template <...> requires requires { typename ops::mul<Tag1, Tag2>::type; }
  constexpr auto operator*(const unit<Tag1, Rep1, Scale1>& a, const unit<Tag2, Rep2, Scale2>& b) {
      std::common_type_t<Rep1, Rep2> v = a.count() * b.count();
      if constexpr (std::is_void_v<typename ops::mul<Tag1, Tag2>::type>) {
          using S = std::ratio_multiply<Scale1, Scale2>;
          return std::common_type_t<Rep1, Rep2>((v * S::num) / S::den);
      } else {
          return unit<typename ops::mul<Tag1, Tag2>::type, std::common_type_t<Rep1, Rep2>,
                      typename std::ratio_multiply<Scale1, Scale2>::type>(v);
      }
  }
  \<close>
  Both branches instantiate \<^verbatim>\<open>ratio_multiply\<close>.
\<close>

definition operator_mul ::
    "'f fp_ops \<Rightarrow> ops \<Rightarrow> 'f su_unit \<Rightarrow> 'f su_unit \<Rightarrow> error + 'f result" where
  "operator_mul fp t a b =
     (case mul_type t (tag (ty a)) (tag (ty b)) of
        None \<Rightarrow> Inl Ill_formed
      | Some C \<Rightarrow>
         (case ratio_multiply (scale (ty a)) (scale (ty b)) of
            None \<Rightarrow> Inl Ill_formed
          | Some S \<Rightarrow>
              let CT = common_type_t (rep (ty a)) (rep (ty b)) in
              bind_res (arith fp Mul (count a) (count b)) (\<lambda>p.
              bind_res (convert_to fp CT p) (\<lambda>v.
              if C = Void then
                bind_res (arith fp Mul v (Int_val Int64 (num S))) (\<lambda>x.
                bind_res (arith fp Div x (Int_val Int64 (den S))) (\<lambda>q.
                bind_res (convert_to fp CT q) (\<lambda>r.
                Inr (Plain r))))
              else
                bind_res (raw_ctor fp \<lparr>tag = C, rep = CT, scale = S\<rparr> v) (\<lambda>u.
                Inr (Quantity u))))))"

text \<open>
  \<^verbatim>\<open>
  template <...> requires requires { typename ops::div<Tag1, Tag2>::type; }
  constexpr auto operator/(const unit<Tag1, Rep1, Scale1>& a, const unit<Tag2, Rep2, Scale2>& b) {
      if constexpr (std::is_void_v<typename ops::div<Tag1, Tag2>::type>) {
          using S = std::ratio_divide<Scale1, Scale2>;
          return std::common_type_t<Rep1, Rep2>(S::num * a.count()) / (S::den * b.count());
      } else {
          std::common_type_t<Rep1, Rep2> v = a.count() / b.count();
          return unit<typename ops::div<Tag1, Tag2>::type, std::common_type_t<Rep1, Rep2>,
                      typename std::ratio_divide<Scale1, Scale2>::type>(v);
      }
  }
  \<close>
  In the first branch the cast to the common type applies to the numerator only; the
  result has the type of the division of that cast by the denominator.
\<close>

definition operator_div ::
    "'f fp_ops \<Rightarrow> ops \<Rightarrow> 'f su_unit \<Rightarrow> 'f su_unit \<Rightarrow> error + 'f result" where
  "operator_div fp t a b =
     (case div_type t (tag (ty a)) (tag (ty b)) of
        None \<Rightarrow> Inl Ill_formed
      | Some C \<Rightarrow>
         (case ratio_divide (scale (ty a)) (scale (ty b)) of
            None \<Rightarrow> Inl Ill_formed
          | Some S \<Rightarrow>
              let CT = common_type_t (rep (ty a)) (rep (ty b)) in
              if C = Void then
                bind_res (arith fp Mul (Int_val Int64 (num S)) (count a)) (\<lambda>n.
                bind_res (convert_to fp CT n) (\<lambda>n'.
                bind_res (arith fp Mul (Int_val Int64 (den S)) (count b)) (\<lambda>d.
                bind_res (arith fp Div n' d) (\<lambda>q.
                Inr (Plain q)))))
              else
                bind_res (arith fp Div (count a) (count b)) (\<lambda>q.
                bind_res (convert_to fp CT q) (\<lambda>v.
                bind_res (raw_ctor fp \<lparr>tag = C, rep = CT, scale = S\<rparr> v) (\<lambda>u.
                Inr (Quantity u))))))"

section \<open>Compound assignment\<close>

text \<open>
  \<^verbatim>\<open>
  constexpr unit& operator+=(const unit& u) { m_val += u.m_val; }
  constexpr unit& operator-=(const unit& u) { m_val -= u.m_val; }
  constexpr unit& operator*=(const Rep& v) { m_val *= v; }
  constexpr unit& operator/=(const Rep& v) { m_val /= v; }
  constexpr unit& operator%=(const unit& u) { m_val %= u.m_val; }
  constexpr unit& operator%=(const Rep& v) { m_val %= v; }
  \<close>
  Each body is one assignment to \<^verbatim>\<open>m_val\<close>, computed by the binary operation and
  converted back, and has no return statement: control reaches the end of a function that
  returns \<^verbatim>\<open>unit&\<close>. The model takes the object and the operand and gives the outcome of
  the call; the state the body has reached is the argument of \<open>end_of_body\<close>. A
  quantity operand of another type is first converted by the converting constructor, a
  scalar operand is converted to \<^verbatim>\<open>Rep\<close>.
\<close>

definition end_of_body :: "'f su_unit \<Rightarrow> error + 'f su_unit" where
  "end_of_body this = Inl Flows_off_end"

definition as_operand :: "'f fp_ops \<Rightarrow> 'f su_unit \<Rightarrow> 'f su_unit \<Rightarrow> error + 'f su_unit" where
  "as_operand fp this u = (if ty u = ty this then Inr u else converting_ctor fp (ty this) u)"

definition assign_op ::
    "'f fp_ops \<Rightarrow> binop \<Rightarrow> 'f su_unit \<Rightarrow> 'f number \<Rightarrow> error + 'f su_unit" where
  "assign_op fp op this v =
     bind_res (arith fp op (m_val this) v) (\<lambda>x.
     bind_res (convert_to fp (rep (ty this)) x) (\<lambda>y.
     end_of_body (this\<lparr>m_val := y\<rparr>)))"

definition operator_plus_assign ::
    "'f fp_ops \<Rightarrow> 'f su_unit \<Rightarrow> 'f su_unit \<Rightarrow> error + 'f su_unit" where
  "operator_plus_assign fp this u =
     bind_res (as_operand fp this u) (\<lambda>u'. assign_op fp Add this (m_val u'))"

definition operator_minus_assign ::
    "'f fp_ops \<Rightarrow> 'f su_unit \<Rightarrow> 'f su_unit \<Rightarrow> error + 'f su_unit" where
  "operator_minus_assign fp this u =
     bind_res (as_operand fp this u) (\<lambda>u'. assign_op fp Sub this (m_val u'))"

definition operator_times_assign ::
    "'f fp_ops \<Rightarrow> 'f su_unit \<Rightarrow> 'f number \<Rightarrow> error + 'f su_unit" where
  "operator_times_assign fp this v =
     bind_res (convert_to fp (rep (ty this)) v) (\<lambda>v'. assign_op fp Mul this v')"

definition operator_divide_assign ::
    "'f fp_ops \<Rightarrow> 'f su_unit \<Rightarrow> 'f number \<Rightarrow> error + 'f su_unit" where
  "operator_divide_assign fp this v =
     bind_res (convert_to fp (rep (ty this)) v) (\<lambda>v'. assign_op fp Div this v')"

definition operator_mod_assign ::
    "'f fp_ops \<Rightarrow> 'f su_unit \<Rightarrow> 'f su_unit \<Rightarrow> error + 'f su_unit" where
  "operator_mod_assign fp this u =
     bind_res (as_operand fp this u) (\<lambda>u'. assign_op fp Rem this (m_val u'))"

definition operator_mod_assign_scalar ::
    "'f fp_ops \<Rightarrow> 'f su_unit \<Rightarrow> 'f number \<Rightarrow> error + 'f su_unit" where
  "operator_mod_assign_scalar fp this v =
     bind_res (convert_to fp (rep (ty this)) v) (\<lambda>v'. assign_op fp Rem this v')"

section \<open>The duration bridge\<close>

text \<open>
  \<^verbatim>\<open>std::chrono::duration<Rep, Period>\<close> and \<^verbatim>\<open>std::chrono::duration_cast\<close> belong to the
  host library; they are written here as the C++ standard specifies them: with \<open>CF\<close>
  the source period over the target period and \<open>CR\<close> the common type of both
  representations and \<^verbatim>\<open>intmax_t\<close>, the count is converted to \<open>CR\<close>, multiplied by
  \<open>CF::num\<close> and divided by \<open>CF::den\<close> where these are not 1, all in \<open>CR\<close>, and
  converted to the target representation.
\<close>

record duration_type =
  d_rep :: rep
  period :: ratio

record 'f duration =
  d_ty :: duration_type
  d_count :: "'f number"

definition duration_cast ::
    "'f fp_ops \<Rightarrow> duration_type \<Rightarrow> 'f duration \<Rightarrow> error + 'f duration" where
  "duration_cast fp ToDuration d =
     (case ratio_divide (period (d_ty d)) (period ToDuration) of
        None \<Rightarrow> Inl Ill_formed
      | Some CF \<Rightarrow>
          let CR = common_type_t (common_type_t (d_rep ToDuration) (d_rep (d_ty d)))
                     (Integral Int64);
              to = (\<lambda>x. bind_res (convert_to fp (d_rep ToDuration) x) (\<lambda>y.
                         Inr \<lparr>d_ty = ToDuration, d_count = y\<rparr>));
              in_CR = (\<lambda>n. convert_to fp CR (Int_val Int64 n))
          in if num CF = 1 \<and> den CF = 1 then to (d_count d)
             else bind_res (convert_to fp CR (d_count d)) (\<lambda>c.
               if den CF = 1 then
                 bind_res (in_CR (num CF)) (\<lambda>n. bind_res (arith fp Mul c n) to)
               else if num CF = 1 then
                 bind_res (in_CR (den CF)) (\<lambda>m. bind_res (arith fp Div c m) to)
               else
                 bind_res (in_CR (num CF)) (\<lambda>n.
                 bind_res (in_CR (den CF)) (\<lambda>m.
                 bind_res (arith fp Mul c n) (\<lambda>x.
                 bind_res (arith fp Div x m) to)))))"

text \<open>
  \<^verbatim>\<open>
  template <typename Rep2, typename Scale2>
  requires is_duration_type<Tag>::value
  constexpr operator std::chrono::duration<Rep2, Scale2>() const {
      return std::chrono::duration<Rep2, Scale2>(
          unit_cast<unit<Tag, Rep2, Scale2>>(*this).count());
  }
  \<close>
\<close>

definition to_duration :: "'f fp_ops \<Rightarrow> duration_type \<Rightarrow> 'f su_unit \<Rightarrow> error + 'f duration" where
  "to_duration fp D u =
     (if is_duration_type (tag (ty u))
      then bind_res (unit_cast fp \<lparr>tag = tag (ty u), rep = d_rep D, scale = period D\<rparr> u) (\<lambda>c.
           bind_res (convert_to fp (d_rep D) (count c)) (\<lambda>x.
           Inr \<lparr>d_ty = D, d_count = x\<rparr>))
      else Inl Ill_formed)"

text \<open>
  \<^verbatim>\<open>
  template <typename Rep2, typename Scale2>
  requires is_duration_type<Tag>::value &&
      (treat_as_floating_point<Rep>::value ||
       (std::ratio_divide<Scale2, Scale>::den == 1 && !treat_as_floating_point<Rep2>::value))
  constexpr unit(const std::chrono::duration<Rep2, Scale2>& d) :
      m_val(std::chrono::duration_cast<std::chrono::duration<Rep, Scale>>(d).count()) {}
  \<close>
\<close>

definition from_duration_available :: "unit_type \<Rightarrow> duration_type \<Rightarrow> bool" where
  "from_duration_available T D =
     (is_duration_type (tag T) \<and> narrowing_guard (rep T) (scale T) (d_rep D) (period D))"

definition from_duration :: "'f fp_ops \<Rightarrow> unit_type \<Rightarrow> 'f duration \<Rightarrow> error + 'f su_unit" where
  "from_duration fp T d =
     (if from_duration_available T (d_ty d)
      then bind_res (duration_cast fp \<lparr>d_rep = rep T, period = scale T\<rparr> d) (\<lambda>c.
           bind_res (convert_to fp (rep T) (d_count c)) (\<lambda>x.
           Inr \<lparr>ty = T, m_val = x\<rparr>))
      else Inl Ill_formed)"

section \<open>Facts about the representations\<close>

lemma bind_res_Inr [simp]: "bind_res (Inr x) f = f x"
  by (simp add: bind_res_def)

lemma bind_res_Inl [simp]: "bind_res (Inl e) f = Inl e"
  by (simp add: bind_res_def)

lemma lowest_bounds: "lowest r \<le> 0" "0 < lowest r + 2 ^ bits r"
  by (cases r; simp add: lowest_def)+

lemma in_range_convert_id: "in_range r x \<Longrightarrow> convert r x = x"
  by (simp add: in_range_def convert_def)

lemma convert_in_range: "in_range r (convert r x)"
  by (simp add: in_range_def convert_def)

lemma convert_mod: "convert r x mod 2 ^ bits r = x mod 2 ^ bits r"
proof -
  have "((x - lowest r) mod 2 ^ bits r + lowest r) mod 2 ^ bits r
          = ((x - lowest r) + lowest r) mod 2 ^ bits r"
    by (rule mod_add_left_eq)
  then show ?thesis by (simp add: convert_def)
qed

lemma convert_cong: "x mod 2 ^ bits r = y mod 2 ^ bits r \<Longrightarrow> convert r x = convert r y"
proof -
  assume "x mod 2 ^ bits r = y mod 2 ^ bits r"
  then have "(x - lowest r) mod 2 ^ bits r = (y - lowest r) mod 2 ^ bits r"
    by (rule mod_diff_cong) simp
  then show ?thesis by (simp add: convert_def)
qed

lemma convert_convert [simp]: "convert r (convert r x) = convert r x"
  by (simp add: in_range_convert_id convert_in_range)

lemma in_range_zero [simp]: "in_range r 0"
  using lowest_bounds [of r] by (simp add: in_range_def)

lemma convert_zero [simp]: "convert r 0 = 0"
  by (simp add: in_range_convert_id)

lemma convert_op:
  "convert r (convert r a + convert r b) = convert r (a + b)"
  "convert r (convert r a - convert r b) = convert r (a - b)"
  "convert r (convert r a * convert r b) = convert r (a * b)"
proof -
  show "convert r (convert r a + convert r b) = convert r (a + b)"
    by (rule convert_cong, rule mod_add_cong) (rule convert_mod)+
  show "convert r (convert r a - convert r b) = convert r (a - b)"
    by (rule convert_cong, rule mod_diff_cong) (rule convert_mod)+
  show "convert r (convert r a * convert r b) = convert r (a * b)"
    by (rule convert_cong, rule mod_mult_cong) (rule convert_mod)+
qed

text \<open>range inclusions\<close>

lemma in_range_promote: "in_range r x \<Longrightarrow> in_range (arith_type r r) x"
  by (cases r) (simp_all add: in_range_def lowest_def arith_type_def promote_def)

lemma in_range_intmax: "in_range r x \<Longrightarrow> in_range (arith_type r Int64) x"
  by (cases r) (simp_all add: in_range_def lowest_def arith_type_def promote_def)

lemma arith_type_commute: "arith_type r1 r2 = arith_type r2 r1"
  by (cases r1; cases r2) (simp_all add: arith_type_def promote_def)

lemma in_range_signed_arith:
  "is_signed (arith_type r1 r2) \<Longrightarrow> in_range r1 x \<Longrightarrow> in_range (arith_type r1 r2) x"
  by (cases r1; cases r2) (simp_all add: in_range_def lowest_def arith_type_def promote_def)

lemma in_range_factor:
  assumes "in_range r (c * k)" "0 < k"
  shows "in_range r c"
proof (cases "0 \<le> c")
  case True
  have "c * 1 \<le> c * k" using assms(2) True by (intro mult_left_mono) simp_all
  then have "c \<le> c * k" by simp
  then show ?thesis using assms(1) True lowest_bounds(1) [of r] unfolding in_range_def by linarith
next
  case False
  have "c * k \<le> c * 1" using assms(2) False by (intro mult_left_mono_neg) simp_all
  then have "c * k \<le> c" by simp
  then show ?thesis using assms(1) False lowest_bounds(2) [of r] unfolding in_range_def by linarith
qed

lemma int_arith_exact:
  assumes "op = Add \<or> op = Sub \<or> op = Mul"
    and "in_range E (int_op op a b)"
    and "is_signed E \<Longrightarrow> in_range E a \<and> in_range E b"
  shows "int_arith E op a b = Inr (int_op op a b)"
proof (cases "is_signed E")
  case True
  then show ?thesis using assms by (auto simp: int_arith_def in_range_convert_id)
next
  case False
  have "convert E (int_op op (convert E a) (convert E b)) = convert E (int_op op a b)"
    using assms(1) by (auto simp: convert_op)
  then show ?thesis using False assms(1,2) by (auto simp: int_arith_def in_range_convert_id)
qed

lemma int_arith_div:
  assumes "in_range E a" "in_range E b" "b \<noteq> 0" "in_range E (a sdiv b)"
  shows "int_arith E Div a b = Inr (a sdiv b)"
  using assms by (simp add: int_arith_def in_range_convert_id)

section \<open>Facts about scales\<close>

lemma positive_num_den: "positive_scale R \<Longrightarrow> 0 < num R \<and> 0 < den R"
  by (cases R) (simp add: positive_scale_def pos_imp_zdiv_pos_iff zdvd_imp_le)

lemma positive_coprime: "positive_scale R \<Longrightarrow> coprime (num R) (den R)"
  by (cases R) (simp add: positive_scale_def div_gcd_coprime)

lemma scale_value_positive: "positive_scale R \<Longrightarrow> 0 < scale_value R"
  by (cases R) (simp add: positive_scale_def scale_value_def)

lemma scale_value_num_den:
  "positive_scale R \<Longrightarrow> scale_value R = of_int (num R) / of_int (den R)"
proof (cases R)
  case (Ratio N D)
  assume "positive_scale R"
  with Ratio have pos: "0 < N" "0 < D" by (simp_all add: positive_scale_def)
  define g where "g = gcd N D"
  define n where "n = N div g"
  define d where "d = D div g"
  have g: "g \<noteq> 0" using pos by (auto simp: g_def)
  have nd: "N = n * g" "D = d * g" by (simp_all add: n_def d_def g_def)
  have "num R = n" "den R = d" using Ratio pos by (simp_all add: n_def d_def g_def)
  moreover have "scale_value R = of_int n / of_int d"
    using Ratio g by (simp add: scale_value_def nd)
  ultimately show ?thesis by simp
qed

lemma num_den_reduced:
  "0 < n \<Longrightarrow> 0 < d \<Longrightarrow> coprime n d \<Longrightarrow> num (Ratio n d) = n \<and> den (Ratio n d) = d"
  by simp

text \<open>A well-formed ratio type of a positive ratio is that ratio in lowest terms.\<close>

lemma ratio_type_Some:
  assumes "positive_scale X" "ratio_type X = Some R"
  shows "num R = num X" and "den R = den X" and "positive_scale R"
    and "representable (num R)" and "representable (den R)"
proof -
  have R: "R = Ratio (num X) (den X)" and rp: "representable (num X)" "representable (den X)"
    using assms(2) by (simp_all add: ratio_type_def split: if_splits)
  have "num (Ratio (num X) (den X)) = num X \<and> den (Ratio (num X) (den X)) = den X"
    using positive_num_den [OF assms(1)] positive_coprime [OF assms(1)]
    by (intro num_den_reduced) simp_all
  then show "num R = num X" "den R = den X" using R by blast+
  then show "representable (num R)" "representable (den R)" using rp by simp_all
  show "positive_scale R"
    using R positive_num_den [OF assms(1)] by (simp add: positive_scale_def)
qed

lemma ratio_divide_Some:
  assumes "positive_scale A" "positive_scale B" "ratio_divide A B = Some R"
  shows "num R = (num A * den B) div gcd (num A * den B) (den A * num B)"
    and "den R = (den A * num B) div gcd (num A * den B) (den A * num B)"
    and "0 < num R" and "0 < den R" and "coprime (num R) (den R)"
    and "(of_int (num R) :: rat) / of_int (den R) = scale_value A / scale_value B"
    and "positive_scale R" and "representable (num R)" and "representable (den R)"
proof -
  let ?X = "Ratio (num A * den B) (den A * num B)"
  have pos: "0 < num A" "0 < den A" "0 < num B" "0 < den B"
    using positive_num_den [OF assms(1)] positive_num_den [OF assms(2)] by simp_all
  then have p: "positive_scale ?X" by (simp add: positive_scale_def)
  have t: "ratio_type ?X = Some R" using assms(3) by (simp add: ratio_divide_def)
  note f = ratio_type_Some [OF p t]
  show "num R = (num A * den B) div gcd (num A * den B) (den A * num B)"
    using f(1) pos by simp
  show "den R = (den A * num B) div gcd (num A * den B) (den A * num B)"
    using f(2) pos by simp
  show "0 < num R" "0 < den R" using positive_num_den [OF f(3)] by simp_all
  show "coprime (num R) (den R)" by (rule positive_coprime [OF f(3)])
  show "positive_scale R" by (rule f(3))
  show "representable (num R)" "representable (den R)" by (rule f(4), rule f(5))
  have "(of_int (num R) :: rat) / of_int (den R) = of_int (num ?X) / of_int (den ?X)"
    using f(1,2) by simp
  also have "\<dots> = scale_value ?X" by (rule scale_value_num_den [OF p, symmetric])
  also have "\<dots> = (of_int (num A) / of_int (den A)) / (of_int (num B) / of_int (den B))"
    by (simp add: scale_value_def)
  finally show "(of_int (num R) :: rat) / of_int (den R) = scale_value A / scale_value B"
    by (simp add: scale_value_num_den assms)
qed

lemma ratio_multiply_Some:
  assumes "positive_scale A" "positive_scale B" "ratio_multiply A B = Some R"
  shows "0 < num R" and "0 < den R" and "coprime (num R) (den R)"
    and "(of_int (num R) :: rat) / of_int (den R) = scale_value A * scale_value B"
    and "positive_scale R" and "representable (num R)" and "representable (den R)"
proof -
  let ?X = "Ratio (num A * num B) (den A * den B)"
  have pos: "0 < num A" "0 < den A" "0 < num B" "0 < den B"
    using positive_num_den [OF assms(1)] positive_num_den [OF assms(2)] by simp_all
  then have p: "positive_scale ?X" by (simp add: positive_scale_def)
  have t: "ratio_type ?X = Some R" using assms(3) by (simp add: ratio_multiply_def)
  note f = ratio_type_Some [OF p t]
  show "0 < num R" "0 < den R" using positive_num_den [OF f(3)] by simp_all
  show "coprime (num R) (den R)" by (rule positive_coprime [OF f(3)])
  show "positive_scale R" by (rule f(3))
  show "representable (num R)" "representable (den R)" by (rule f(4), rule f(5))
  have "(of_int (num R) :: rat) / of_int (den R) = of_int (num ?X) / of_int (den ?X)"
    using f(1,2) by simp
  also have "\<dots> = scale_value ?X" by (rule scale_value_num_den [OF p, symmetric])
  also have "\<dots> = (of_int (num A) / of_int (den A)) * (of_int (num B) / of_int (den B))"
    by (simp add: scale_value_def)
  finally show "(of_int (num R) :: rat) / of_int (den R) = scale_value A * scale_value B"
    by (simp add: scale_value_num_den assms)
qed

lemma scale_value_ratio:
  "positive_scale R \<Longrightarrow> scale_value (Ratio (num R) (den R)) = scale_value R"
  by (simp add: scale_value_num_den) (simp add: scale_value_def)

lemma ratio_multiply_commute: "ratio_multiply A B = ratio_multiply B A"
  by (simp add: ratio_multiply_def mult.commute)

text \<open>Dividing the other way round swaps numerator and denominator.\<close>

lemma ratio_divide_flip:
  assumes "positive_scale A" "positive_scale B" "ratio_divide A B = Some R"
  shows "\<exists>R'. ratio_divide B A = Some R' \<and> num R' = den R \<and> den R' = num R"
proof -
  let ?X = "Ratio (num A * den B) (den A * num B)"
  let ?Y = "Ratio (num B * den A) (den B * num A)"
  have pos: "0 < num A" "0 < den A" "0 < num B" "0 < den B"
    using positive_num_den [OF assms(1)] positive_num_den [OF assms(2)] by simp_all
  have p: "positive_scale ?Y" and q: "positive_scale ?X"
    using pos by (simp_all add: positive_scale_def)
  have sw: "num ?Y = den ?X" "den ?Y = num ?X"
    using pos by (simp_all add: gcd.commute mult.commute)
  have "representable (num ?X)" "representable (den ?X)"
    using assms(3) by (simp_all add: ratio_divide_def ratio_type_def split: if_splits)
  moreover have "0 < num ?X" using positive_num_den [OF q] by blast
  ultimately have t: "ratio_type ?Y = Some (Ratio (num ?Y) (den ?Y))"
    unfolding ratio_type_def sw by (simp del: num.simps den.simps)
  then have s: "ratio_divide B A = Some (Ratio (num ?Y) (den ?Y))"
    by (simp add: ratio_divide_def)
  have "num (Ratio (num ?Y) (den ?Y)) = num ?Y" "den (Ratio (num ?Y) (den ?Y)) = den ?Y"
    using ratio_type_Some(1,2) [OF p t] by blast+
  moreover have "num R = num ?X" "den R = den ?X"
    using ratio_divide_Some(1,2) [OF assms] pos by simp_all
  ultimately have "num (Ratio (num ?Y) (den ?Y)) = den R \<and> den (Ratio (num ?Y) (den ?Y)) = num R"
    using sw by (simp only:)
  then show ?thesis using s by blast
qed

lemma ratio_same: "0 < k \<Longrightarrow> num (Ratio k k) = 1 \<and> den (Ratio k k) = 1"
  by simp

lemma ratio_divide_self:
  assumes "positive_scale S"
  shows "ratio_divide S S = Some (Ratio 1 1)"
proof -
  have "0 < num S * den S" using positive_num_den [OF assms] by simp
  then have "num (Ratio (num S * den S) (num S * den S)) = 1
           \<and> den (Ratio (num S * den S) (num S * den S)) = 1"
    by (rule ratio_same)
  then show ?thesis
    unfolding ratio_divide_def ratio_type_def
    by (simp add: mult.commute representable_def intmax_max_def del: num.simps den.simps)
qed

lemma sdiv_nonneg:
  fixes p d :: int
  shows "0 < d \<Longrightarrow> 0 \<le> p \<Longrightarrow> p sdiv d = p div d"
  by (simp add: signed_divide_int_def sgn_if)

lemma sdiv_neg:
  fixes p d :: int
  shows "0 < d \<Longrightarrow> p \<le> 0 \<Longrightarrow> p sdiv d = - ((- p) div d)"
  by (simp add: signed_divide_int_def sgn_if)

lemma div_le_self_nonneg:
  fixes x k :: int
  shows "0 \<le> x \<Longrightarrow> x div k \<le> x"
  using int_div_le_self [of x k] by (cases "x = 0") simp_all

text \<open>Truncating division by a positive number stays in the range of its dividend.\<close>

lemma in_range_sdiv:
  assumes "in_range r p" "0 < d"
  shows "in_range r (p sdiv d)"
proof (cases "0 \<le> p")
  case True
  have "0 \<le> p div d" "p div d \<le> p"
    using True assms(2) by (simp_all add: pos_imp_zdiv_nonneg_iff div_le_self_nonneg)
  then show ?thesis
    using assms True lowest_bounds(1) [of r] by (simp add: sdiv_nonneg in_range_def)
next
  case False
  then have n: "0 \<le> - p" by simp
  have "0 \<le> (- p) div d" "(- p) div d \<le> - p"
    using n assms(2) div_le_self_nonneg [OF n, of d]
    by (simp_all add: pos_imp_zdiv_nonneg_iff del: div_minus_right)
  then show ?thesis
    using assms False lowest_bounds(2) [of r] by (simp add: sdiv_neg in_range_def)
qed

section \<open>Facts about the conversion engine\<close>

lemma arith_fp:
  assumes "arith_rep (type_of x) (type_of y) = Floating K"
  shows "arith fp Add x y = Inr (Fp_val K (fp_add fp K (as_fp fp K x) (as_fp fp K y)))"
    and "arith fp Sub x y = Inr (Fp_val K (fp_sub fp K (as_fp fp K x) (as_fp fp K y)))"
    and "arith fp Mul x y = Inr (Fp_val K (fp_mul fp K (as_fp fp K x) (as_fp fp K y)))"
    and "arith fp Div x y = Inr (Fp_val K (fp_div fp K (as_fp fp K x) (as_fp fp K y)))"
  using assms by (cases x; cases y; simp)+

lemma arith_type_intmax_idem [simp]:
  "arith_type (arith_type r Int64) Int64 = arith_type r Int64"
  by (cases r) (simp_all add: arith_type_def promote_def)

lemma in_range_intmax_pos:
  "0 < n \<Longrightarrow> representable n \<Longrightarrow> in_range (arith_type r Int64) n"
  by (cases r)
    (simp_all add: in_range_def lowest_def arith_type_def promote_def representable_def
      intmax_max_def)

text \<open>The arithmetic of the cast on integers: multiply, then divide, in one type.\<close>

lemma scale_integer:
  assumes "0 < n" "representable n" "0 < d" "representable d"
    and "in_range (arith_type CT Int64) (c * n)"
  shows "bind_res (arith fp Mul (Int_val CT c) (Int_val Int64 n))
           (\<lambda>p. arith fp Div p (Int_val Int64 d))
         = Inr (Int_val (arith_type CT Int64) ((c * n) sdiv d))"
proof -
  let ?E = "arith_type CT Int64"
  have c: "in_range ?E c" using assms(5,1) by (rule in_range_factor)
  have n: "in_range ?E n" and d: "in_range ?E d"
    using assms(1-4) by (simp_all add: in_range_intmax_pos)
  have "int_arith ?E Mul c n = Inr (c * n)"
    using int_arith_exact [of Mul ?E c n] assms(5) c n by simp
  moreover have "int_arith ?E Div (c * n) d = Inr ((c * n) sdiv d)"
    using assms(5) d assms(3) by (intro int_arith_div in_range_sdiv) simp_all
  ultimately show ?thesis by simp
qed

lemma unit_cast_integral:
  assumes "tag To = tag (ty u)"
    and "positive_scale (scale To)" "positive_scale (scale (ty u))"
    and "ratio_divide (scale To) (scale (ty u)) = Some R"
    and "rep To = Integral r2" "rep (ty u) = Integral r1" "count u = Int_val r1 c"
    and "common_type_t (rep To) (rep (ty u)) = Integral CT"
    and "in_range CT c" "in_range (arith_type CT Int64) (c * den R)"
  shows "unit_cast fp To u =
           Inr \<lparr>ty = To, m_val = Int_val r2 (convert r2 ((c * den R) sdiv num R))\<rparr>"
proof -
  note f = ratio_divide_Some [OF assms(2-4)]
  have wf: "unit_cast_well_formed To (ty u)"
    using assms(1,4,5,8)
    by (simp add: unit_cast_well_formed_def unit_cast_constraint_def raw_ctor_available_def)
  have v: "convert_to fp (Integral CT) (count u) = Inr (Int_val CT c)"
    using assms(7,9) by (simp add: in_range_convert_id)
  note sc = scale_integer [OF f(4) f(9) f(3) f(8) assms(10), of fp]
  have "unit_cast fp To u =
      bind_res (bind_res (arith fp Mul (Int_val CT c) (Int_val Int64 (den R)))
           (\<lambda>p. arith fp Div p (Int_val Int64 (num R)))) (raw_ctor fp To)"
    using wf assms(4,8) v by (simp add: unit_cast_def bind_res_def split: sum.splits)
  then have "unit_cast fp To u =
      bind_res (Inr (Int_val (arith_type CT Int64) ((c * den R) sdiv num R))) (raw_ctor fp To)"
    by (simp only: sc)
  then show ?thesis
    using assms(5) by (simp add: raw_ctor_def raw_ctor_available_def)
qed

lemma unit_cast_floating:
  assumes "tag To = tag (ty u)"
    and "ratio_divide (scale To) (scale (ty u)) = Some R"
    and "rep To = Floating K"
    and "common_type_t (rep To) (rep (ty u)) = Floating K'"
  shows "unit_cast fp To u =
           Inr \<lparr>ty = To,
                m_val = Fp_val K (as_fp fp K (Fp_val K'
                  (fp_div fp K'
                    (fp_mul fp K' (as_fp fp K' (count u)) (fp_of_int fp K' (den R)))
                    (fp_of_int fp K' (num R)))))\<rparr>"
proof -
  have wf: "unit_cast_well_formed To (ty u)"
    using assms
    by (simp add: unit_cast_well_formed_def unit_cast_constraint_def raw_ctor_available_def)
  show ?thesis
    using wf assms(2-4)
    by (simp add: unit_cast_def arith_fp raw_ctor_def raw_ctor_available_def)
qed

lemma unit_cast_floating_source:
  assumes "treat_as_floating_point (rep (ty u))" "\<not> treat_as_floating_point (rep To)"
  shows "unit_cast fp To u = Inl Ill_formed"
proof -
  obtain K r where "rep (ty u) = Floating K" "rep To = Integral r"
    using assms by (cases "rep (ty u)"; cases "rep To") simp_all
  then have "\<not> unit_cast_well_formed To (ty u)"
    by (simp add: unit_cast_well_formed_def raw_ctor_available_def common_type_t_def)
  then show ?thesis by (simp add: unit_cast_def)
qed

section \<open>The count computed by the conversion engine\<close>

lemmas unit_defs = second_def hz_def watt_def joule_def quantity_def second_t_def hz_t_def
  joule_t_def watt_t_def atto_def nano_def kilo_def mega_def milli_def one_def exa_def

lemmas rep_defs = in_range_def lowest_def convert_def arith_type_def promote_def
  common_type_t_def fp_wider_def

lemmas ratio_defs = ratio_divide_def ratio_multiply_def ratio_type_def representable_def
  intmax_max_def positive_scale_def

lemmas cast_defs = unit_cast_def unit_cast_well_formed_def unit_cast_constraint_def
  raw_ctor_def raw_ctor_available_def count_def int_arith_def exact_fp_def

text \<open>
  C1 (amended). Let \<open>u\<close> be a quantity and \<open>To\<close> a target type of the same tag, both
  scales positive, such that target scale over source scale is a well-formed
  \<^verbatim>\<open>std::ratio\<close> \<open>R\<close>. Then \<open>den R / num R\<close> is source scale over target scale in
  lowest terms. If the source representation is floating and the target representation
  integral, \<open>unit_cast\<close> does not compile. If the target representation is floating,
  the cast returns the quantity whose count is the source count converted to the common
  type of the two representations, multiplied by \<open>den R\<close> and divided by \<open>num R\<close> in
  the arithmetic of that floating type, and converted to the target representation. If
  both representations are integral, the count is representable in their common type and
  the count times \<open>den R\<close> is representable in the common type of that type and
  \<^verbatim>\<open>intmax_t\<close>, the cast returns the quantity whose count is that product divided by
  \<open>num R\<close> with truncation, converted to the target representation (modulo
  \<open>2 ^ bits\<close>).
\<close>

theorem unit_cast_scales_count:
  assumes "tag To = tag (ty u)" and "positive_scale (scale To)"
    and "positive_scale (scale (ty u))"
    and "ratio_divide (scale To) (scale (ty u)) = Some R"
  shows "0 < den R \<and> 0 < num R \<and> coprime (den R) (num R) \<and>
         (of_int (den R) :: rat) / of_int (num R)
           = scale_value (scale (ty u)) / scale_value (scale To) \<and>
         (treat_as_floating_point (rep (ty u)) \<and> \<not> treat_as_floating_point (rep To) \<longrightarrow>
            unit_cast fp To u = Inl Ill_formed) \<and>
         (\<forall>K K'. rep To = Floating K \<and> common_type_t (rep To) (rep (ty u)) = Floating K' \<longrightarrow>
            unit_cast fp To u =
              Inr \<lparr>ty = To,
                   m_val = Fp_val K (as_fp fp K (Fp_val K'
                     (fp_div fp K'
                       (fp_mul fp K' (as_fp fp K' (count u)) (fp_of_int fp K' (den R)))
                       (fp_of_int fp K' (num R)))))\<rparr>) \<and>
         (\<forall>r1 r2 CT c.
            rep (ty u) = Integral r1 \<and> rep To = Integral r2 \<and> count u = Int_val r1 c \<and>
            common_type_t (rep To) (rep (ty u)) = Integral CT \<and>
            in_range CT c \<and> in_range (arith_type CT Int64) (c * den R) \<longrightarrow>
            unit_cast fp To u =
              Inr \<lparr>ty = To, m_val = Int_val r2 (convert r2 ((c * den R) sdiv num R))\<rparr>)"
proof -
  note f = ratio_divide_Some [OF assms(2-4)]
  have "coprime (den R) (num R)" using f(5) by (simp add: coprime_commute)
  moreover have "(of_int (den R) :: rat) / of_int (num R)
      = scale_value (scale (ty u)) / scale_value (scale To)"
    using f(6) by (metis inverse_divide)
  ultimately show ?thesis
    using f(3,4) unit_cast_floating_source [of u To fp]
      unit_cast_floating [OF assms(1,4), of _ _ fp]
      unit_cast_integral [OF assms, of _ _ _ _ fp]
    by blast
qed

text \<open>
  Five kiloseconds cast to seconds are 5000 seconds; 2500 W cast to kilowatts with a
  \<^verbatim>\<open>double\<close> count are 2.5 kW, as in the example program; five seconds with a
  \<^verbatim>\<open>double\<close> count cannot be cast to an integral count.
\<close>

theorem unit_cast_scales_count_witness:
  "unit_cast exact_fp (second (Integral Int64) one)
     \<lparr>ty = second (Integral Int64) kilo, m_val = Int_val Int64 5\<rparr>
     = Inr \<lparr>ty = second (Integral Int64) one, m_val = Int_val Int64 5000\<rparr> \<and>
   unit_cast exact_fp (watt (Floating Double) kilo)
     \<lparr>ty = watt (Integral Int64) one, m_val = Int_val Int64 2500\<rparr>
     = Inr \<lparr>ty = watt (Floating Double) kilo, m_val = Fp_val Double (5 / 2)\<rparr> \<and>
   unit_cast exact_fp (second (Integral Int64) one)
     \<lparr>ty = second (Floating Double) one, m_val = Fp_val Double 5\<rparr>
     = Inl Ill_formed"
proof -
  have r1: "ratio_divide (scale (second (Integral Int64) one))
      (scale (ty \<lparr>ty = second (Integral Int64) kilo, m_val = Int_val Int64 5 :: rat number\<rparr>))
      = Some (Ratio 1 1000)"
    by (simp add: unit_defs ratio_defs)
  have r2: "ratio_divide (scale (watt (Floating Double) kilo))
      (scale (ty \<lparr>ty = watt (Integral Int64) one, m_val = Int_val Int64 2500 :: rat number\<rparr>))
      = Some (Ratio 1000 1)"
    by (simp add: unit_defs ratio_defs)
  have r3: "ratio_divide (scale (second (Integral Int64) one))
      (scale (ty \<lparr>ty = second (Floating Double) one, m_val = Fp_val Double (5 :: rat)\<rparr>))
      = Some (Ratio 1 1)"
    by (simp add: unit_defs ratio_defs)
  show ?thesis
    using unit_cast_scales_count [OF _ _ _ r1, of exact_fp]
      unit_cast_scales_count [OF _ _ _ r2, of exact_fp]
      unit_cast_scales_count [OF _ _ _ r3, of exact_fp]
    by (simp add: unit_defs rep_defs count_def exact_fp_def positive_scale_def)
qed

text \<open>
  The claim as stated fails in five ways. The quotient is converted to the target
  representation: 100 kiloseconds in \<^verbatim>\<open>int16_t\<close> cast to seconds in \<^verbatim>\<open>int16_t\<close> are
  not \<open>100 * 1000 / 1\<close> but \<open>-31072\<close>. A floating source is rejected for an integral
  target. A scale ratio that \<^verbatim>\<open>intmax_t\<close> cannot hold is rejected: attoseconds to
  exaseconds. The product is computed in \<^verbatim>\<open>intmax_t\<close>: \<open>10 ^ 16\<close> kiloseconds cast
  to seconds overflow. Conversion to an unsigned common type changes a negative count:
  \<open>-1\<close> in \<^verbatim>\<open>int32_t\<close> cast to units of two in \<^verbatim>\<open>uint32_t\<close> is not \<open>-1 / 2 = 0\<close>.
\<close>

theorem unit_cast_narrows_counterexample:
  "unit_cast exact_fp (second (Integral Int16) one)
     \<lparr>ty = second (Integral Int16) kilo, m_val = Int_val Int16 100\<rparr>
     = Inr \<lparr>ty = second (Integral Int16) one, m_val = Int_val Int16 (- 31072)\<rparr> \<and>
   (100 * 1000) sdiv 1 \<noteq> (- 31072 :: int) \<and>
   unit_cast exact_fp (second (Integral Int64) one)
     \<lparr>ty = second (Floating Double) one, m_val = Fp_val Double 5\<rparr>
     = Inl Ill_formed \<and>
   unit_cast exact_fp (second (Integral Int64) exa)
     \<lparr>ty = second (Integral Int64) atto, m_val = Int_val Int64 5\<rparr>
     = Inl Ill_formed \<and>
   unit_cast exact_fp (second (Integral Int64) one)
     \<lparr>ty = second (Integral Int64) kilo, m_val = Int_val Int64 10000000000000000\<rparr>
     = Inl Signed_overflow \<and>
   unit_cast exact_fp (second (Integral UInt32) (Ratio 2 1))
     \<lparr>ty = second (Integral Int32) one, m_val = Int_val Int32 (- 1)\<rparr>
     = Inr \<lparr>ty = second (Integral UInt32) (Ratio 2 1), m_val = Int_val UInt32 2147483647\<rparr> \<and>
   (- 1 * 1) sdiv 2 = (0 :: int)"
  by (simp add: unit_defs rep_defs ratio_defs cast_defs signed_divide_int_def)

section \<open>Facts about the common-type resolver\<close>

lemma gcd_smod: "gcd b (a smod b) = gcd a (b::int)"
proof -
  have "a smod b = (- (a sdiv b)) * b + a"
    using minus_sdiv_mult_eq_smod [of a b] by simp
  then have "gcd b (a smod b) = gcd b ((- (a sdiv b)) * b + a)" by simp
  also have "\<dots> = gcd b a" by (rule gcd_add_mult)
  finally show ?thesis by (simp add: gcd.commute)
qed

text \<open>Where the library's own gcd is a constant expression, it is the greatest common divisor.\<close>

lemma detail_gcd_Some: "detail_gcd a b = Some g \<Longrightarrow> g = gcd a b"
proof (induction a b rule: detail_gcd.induct)
  case (1 a b)
  show ?case
  proof (cases "b = 0 \<or> a = 0")
    case True
    then show ?thesis
      using "1.prems"
      by (auto simp: detail_gcd.simps [of a b] detail_abs_def intmax_def split: if_splits)
  next
    case False
    then have r: "in_range Int64 (a sdiv b)" and "detail_gcd b (a smod b) = Some g"
      using "1.prems" by (simp_all add: detail_gcd.simps [of a b] split: if_splits)
    then have "g = gcd b (a smod b)" using False "1.IH" by simp
    then show ?thesis by (simp only: gcd_smod)
  qed
qed

text \<open>It is one for non-negative arguments.\<close>

lemma detail_gcd_nonneg:
  "0 \<le> a \<Longrightarrow> 0 \<le> b \<Longrightarrow> in_range Int64 a \<Longrightarrow> in_range Int64 b
     \<Longrightarrow> detail_gcd a b = Some (gcd a b)"
proof (induction a b rule: detail_gcd.induct)
  case (1 a b)
  show ?case
  proof (cases "b = 0 \<or> a = 0")
    case True
    then show ?thesis
      using "1.prems" by (auto simp: detail_gcd.simps [of a b] detail_abs_def)
  next
    case False
    then have b: "0 < b" using "1.prems" by simp
    have q: "in_range Int64 (a sdiv b)" using "1.prems"(3) b by (rule in_range_sdiv)
    have m: "0 \<le> a smod b" "a smod b < b"
      using smod_int_range [of b a] b "1.prems"(1)
      by (simp_all add: signed_modulo_int_def sgn_if)
    then have "in_range Int64 (a smod b)"
      using "1.prems"(4) by (simp add: in_range_def lowest_def)
    then have "detail_gcd b (a smod b) = Some (gcd b (a smod b))"
      using False q "1.prems" m(1) by (intro "1.IH") simp_all
    then show ?thesis using False q by (simp add: detail_gcd.simps [of a b] gcd_smod)
  qed
qed

lemma lcm_formula:
  fixes d1 d2 :: int
  assumes "0 < d1" "0 < d2"
  shows "(d1 sdiv gcd d1 d2) * d2 = lcm d1 d2"
proof -
  have g: "0 < gcd d1 d2" using assms by simp
  have "d1 sdiv gcd d1 d2 = d1 div gcd d1 d2"
    using g assms by (simp add: sdiv_nonneg)
  moreover have "(d1 div gcd d1 d2) * d2 = d1 * d2 div gcd d1 d2"
    by (simp add: div_mult_swap mult.commute)
  moreover have "0 \<le> d1 * d2 div gcd d1 d2"
    using assms g by (simp add: pos_imp_zdiv_nonneg_iff)
  then have "lcm d1 d2 = d1 * d2 div gcd d1 d2"
    by (simp add: lcm_gcd)
  ultimately show ?thesis by simp
qed

lemma coprime_gcd_lcm:
  fixes n1 n2 d1 d2 :: int
  assumes "coprime n1 d1" "coprime n2 d2"
  shows "coprime (gcd n1 n2) (lcm d1 d2)"
proof -
  have "coprime (gcd n1 n2) d1"
    using assms(1) by (rule coprime_divisors [rotated 2]) simp_all
  moreover have "coprime (gcd n1 n2) d2"
    using assms(2) by (rule coprime_divisors [rotated 2]) simp_all
  ultimately have "coprime (gcd n1 n2) (d1 * d2)" by simp
  then show ?thesis
    by (rule coprime_divisors [rotated 2]) simp_all
qed

lemma common_scale_Some:
  assumes "positive_scale S1" "positive_scale S2" "common_scale S1 S2 = Some S"
  shows "S = Ratio (gcd (num S1) (num S2)) (lcm (den S1) (den S2))"
proof -
  have pos: "0 < num S1" "0 < den S1" "0 < num S2" "0 < den S2"
    using positive_num_den [OF assms(1)] positive_num_den [OF assms(2)] by simp_all
  obtain n g q d where n: "detail_gcd (num S1) (num S2) = Some n"
    and g: "detail_gcd (den S1) (den S2) = Some g"
    and q: "intmax (den S1 sdiv g) = Some q" and d: "intmax (q * den S2) = Some d"
    and S: "S = Ratio n d"
    using assms(3) by (auto simp: common_scale_def Option.bind_eq_Some_conv split: if_splits)
  have "n = gcd (num S1) (num S2)" "g = gcd (den S1) (den S2)"
    using n g by (simp_all add: detail_gcd_Some)
  moreover have "q = den S1 sdiv g" "d = q * den S2"
    using q d by (simp_all add: intmax_def split: if_splits)
  ultimately show ?thesis using S pos by (simp add: lcm_formula)
qed

lemma common_type_t_idem [simp]: "common_type_t r r = r"
  by (simp add: common_type_t_def)

lemma common_type_facts:
  assumes "positive_scale (scale T1)" "positive_scale (scale T2)"
    and "common_type T1 T2 = Some T"
  shows "tag T = tag T1" and "tag T = tag T2"
    and "rep T = common_type_t (rep T1) (rep T2)"
    and "num (scale T) = gcd (num (scale T1)) (num (scale T2))"
    and "den (scale T) = lcm (den (scale T1)) (den (scale T2))"
    and "positive_scale (scale T)"
proof -
  let ?n1 = "num (scale T1)" and ?n2 = "num (scale T2)"
  let ?d1 = "den (scale T1)" and ?d2 = "den (scale T2)"
  have pos: "0 < ?n1" "0 < ?d1" "0 < ?n2" "0 < ?d2"
    using positive_num_den [OF assms(1)] positive_num_den [OF assms(2)] by simp_all
  have cop: "coprime ?n1 ?d1" "coprime ?n2 ?d2"
    using positive_coprime [OF assms(1)] positive_coprime [OF assms(2)] by simp_all
  have tags: "tag T = tag T1 \<and> tag T = tag T2 \<and> rep T = common_type_t (rep T1) (rep T2)"
    using assms(3)
    by (auto simp: common_type_def Option.bind_eq_Some_conv split: if_splits)
  have sc: "num (scale T) = gcd ?n1 ?n2 \<and> den (scale T) = lcm ?d1 ?d2 \<and> positive_scale (scale T)"
  proof (cases "T1 = T2")
    case True
    then have "T = T1" using assms(3) by (simp add: common_type_def)
    then show ?thesis using True pos assms(1) by simp
  next
    case False
    then obtain S where "common_scale (scale T1) (scale T2) = Some S" "scale T = S"
      using assms(3)
      by (auto simp: common_type_def Option.bind_eq_Some_conv split: if_splits)
    then have s: "scale T = Ratio (gcd ?n1 ?n2) (lcm ?d1 ?d2)"
      using common_scale_Some [OF assms(1,2)] by simp
    have l: "0 < lcm ?d1 ?d2" using pos by (simp add: lcm_pos_int)
    have g: "0 < gcd ?n1 ?n2" using pos by simp
    have "coprime (gcd ?n1 ?n2) (lcm ?d1 ?d2)" using cop by (rule coprime_gcd_lcm)
    then have "num (Ratio (gcd ?n1 ?n2) (lcm ?d1 ?d2)) = gcd ?n1 ?n2
        \<and> den (Ratio (gcd ?n1 ?n2) (lcm ?d1 ?d2)) = lcm ?d1 ?d2"
      using g l by (intro num_den_reduced)
    then show ?thesis using s l g by (simp add: positive_scale_def del: num.simps den.simps)
  qed
  show "tag T = tag T1" "tag T = tag T2" "rep T = common_type_t (rep T1) (rep T2)"
    using tags by blast+
  show "num (scale T) = gcd ?n1 ?n2" "den (scale T) = lcm ?d1 ?d2" "positive_scale (scale T)"
    using sc by blast+
qed

text \<open>The common scale over a scale it divides has numerator 1.\<close>

lemma ratio_divide_multiple:
  assumes "positive_scale A" "positive_scale C"
    and "num C dvd num A" "den A dvd den C"
    and "ratio_divide C A = Some R"
  shows "num R = 1" and "0 < den R"
    and "(of_int (den R) :: rat) = scale_value A / scale_value C"
    and "of_int (den R) * scale_value C = scale_value A"
proof -
  have pos: "0 < num A" "0 < den A" "0 < num C" "0 < den C"
    using positive_num_den [OF assms(1)] positive_num_den [OF assms(2)] by simp_all
  note f = ratio_divide_Some [OF assms(2,1,5)]
  have "num C * den A dvd den C * num A"
    using assms(3,4) by (simp add: mult_dvd_mono mult.commute)
  then have "gcd (num C * den A) (den C * num A) = num C * den A"
    using pos by (simp add: gcd_proj1_if_dvd)
  then show n: "num R = 1" using pos f(1) by simp
  show "0 < den R" by (rule f(4))
  have "(1 :: rat) / of_int (den R) = scale_value C / scale_value A" using f(6) n by simp
  then show v: "(of_int (den R) :: rat) = scale_value A / scale_value C"
    by (metis inverse_divide inverse_eq_divide inverse_inverse_eq)
  have "scale_value C \<noteq> 0" using scale_value_positive [OF assms(2)] by simp
  then show "of_int (den R) * scale_value C = scale_value A" using v by simp
qed

lemma common_type_t_absorb:
  "common_type_t (common_type_t r1 r2) r1 = common_type_t r1 r2"
  "common_type_t (common_type_t r1 r2) r2 = common_type_t r1 r2"
proof -
  have i: "\<And>a b. arith_type (arith_type a b) a = arith_type a b"
      "\<And>a b. arith_type (arith_type a b) b = arith_type a b"
    subgoal for a b by (cases a; cases b) (simp_all add: arith_type_def promote_def)
    subgoal for a b by (cases a; cases b) (simp_all add: arith_type_def promote_def)
    done
  have k: "\<And>a b. fp_wider (fp_wider a b) a = fp_wider a b"
      "\<And>a b. fp_wider (fp_wider a b) b = fp_wider a b"
    by (simp_all add: fp_wider_def)
  show "common_type_t (common_type_t r1 r2) r1 = common_type_t r1 r2"
    by (cases r1; cases r2) (auto simp: common_type_t_def i k)
  show "common_type_t (common_type_t r1 r2) r2 = common_type_t r1 r2"
    by (cases r1; cases r2) (auto simp: common_type_t_def i k)
qed

lemma sdiv_one [simp]: "(x :: int) sdiv 1 = x"
  by (simp add: signed_divide_int_def sgn_if)

text \<open>Casting an operand to the common type.\<close>

lemma cast_to_common:
  assumes "positive_scale (scale T1)" "positive_scale (scale T2)"
    and "common_type T1 T2 = Some T"
    and "ty u = T1 \<or> ty u = T2"
    and "ratio_divide (scale T) (scale (ty u)) = Some R"
  shows "num R = 1" and "0 < den R"
    and "(of_int (den R) :: rat) = scale_value (scale (ty u)) / scale_value (scale T)"
    and "rep T = Floating K \<Longrightarrow>
           unit_cast fp T u =
             Inr \<lparr>ty = T, m_val = Fp_val K (fp_div fp K
                    (fp_mul fp K (as_fp fp K (count u)) (fp_of_int fp K (den R)))
                    (fp_of_int fp K 1))\<rparr>"
    and "rep T = Integral r \<Longrightarrow> rep (ty u) = Integral r' \<Longrightarrow> count u = Int_val r' c
           \<Longrightarrow> in_range r (c * den R)
           \<Longrightarrow> unit_cast fp T u = Inr \<lparr>ty = T, m_val = Int_val r (c * den R)\<rparr>"
    and "rep T = Integral r \<Longrightarrow> count u = Int_val r' c
           \<Longrightarrow> physical fp \<lparr>ty = T, m_val = Int_val r (c * den R)\<rparr> = physical fp u"
proof -
  note f = common_type_facts [OF assms(1-3)]
  have pu: "positive_scale (scale (ty u))" using assms(1,2,4) by auto
  have tg: "tag T = tag (ty u)" using f(1,2) assms(4) by auto
  have dv: "num (scale T) dvd num (scale (ty u))" "den (scale (ty u)) dvd den (scale T)"
    using f(4,5) assms(4) by auto
  note m = ratio_divide_multiple [OF pu f(6) dv assms(5)]
  show "num R = 1" "0 < den R"
    "(of_int (den R) :: rat) = scale_value (scale (ty u)) / scale_value (scale T)"
    by (rule m(1), rule m(2), rule m(3))
  have ct: "common_type_t (rep T) (rep (ty u)) = rep T"
    using f(3) assms(4) common_type_t_absorb [of "rep T1" "rep T2"] by auto
  show "unit_cast fp T u =
      Inr \<lparr>ty = T, m_val = Fp_val K (fp_div fp K
             (fp_mul fp K (as_fp fp K (count u)) (fp_of_int fp K (den R)))
             (fp_of_int fp K 1))\<rparr>" if "rep T = Floating K"
    using unit_cast_floating [OF tg assms(5) that, of K fp] ct that m(1) by simp
  show "unit_cast fp T u = Inr \<lparr>ty = T, m_val = Int_val r (c * den R)\<rparr>"
    if "rep T = Integral r" "rep (ty u) = Integral r'" "count u = Int_val r' c"
      "in_range r (c * den R)"
  proof -
    have "in_range r c" using that(4) m(2) by (rule in_range_factor)
    moreover have "in_range (arith_type r Int64) (c * den R)"
      using that(4) by (rule in_range_intmax)
    ultimately show ?thesis
      using unit_cast_integral [OF tg f(6) pu assms(5) that(1,2,3), of r fp] ct that(1,4) m(1)
      by (simp add: in_range_convert_id)
  qed
  show "physical fp \<lparr>ty = T, m_val = Int_val r (c * den R)\<rparr> = physical fp u"
    if "rep T = Integral r" "count u = Int_val r' c"
    using m(4) that(2) by (simp add: physical_def count_def mult.assoc)
qed

lemma scale_multiple:
  assumes "positive_scale A" "positive_scale C"
    and "num C dvd num A" "den A dvd den C"
  shows "scale_value A / scale_value C = of_int ((num A div num C) * (den C div den A))"
    and "0 < (num A div num C) * (den C div den A)"
proof -
  have pos: "0 < num A" "0 < den A" "0 < num C" "0 < den C"
    using positive_num_den [OF assms(1)] positive_num_den [OF assms(2)] by simp_all
  have "(of_int ((num A div num C) * (den C div den A)) :: rat)
      = (of_int (num A) / of_int (num C)) * (of_int (den C) / of_int (den A))"
    using assms(3,4) by (simp add: of_int_div)
  also have "\<dots> = (of_int (num A) / of_int (den A)) / (of_int (num C) / of_int (den C))"
    by simp
  finally show "scale_value A / scale_value C = of_int ((num A div num C) * (den C div den A))"
    by (simp add: scale_value_num_den assms(1,2))
  have "0 < num A div num C" "0 < den C div den A"
    using pos assms(3,4) by (simp_all add: pos_imp_zdiv_pos_iff zdvd_imp_le)
  then show "0 < (num A div num C) * (den C div den A)" by simp
qed

section \<open>Casting to the common type\<close>

text \<open>
  C2 (amended). Let two quantity types of one tag with positive scales \<open>N1/D1\<close> and
  \<open>N2/D2\<close> in lowest terms have a well-formed common type. It has the common type of
  the two representations and the scale \<open>gcd N1 N2 / lcm D1 D2\<close>, and each operand
  scale over the common scale is a positive integer. Where the common scale over an
  operand's scale is a well-formed \<^verbatim>\<open>std::ratio\<close> \<open>R\<close>, its numerator is 1, its
  denominator \<open>k\<close> is that integer, and \<open>unit_cast\<close> of an operand to the common
  type returns: for a floating common representation, the count converted to it,
  multiplied by \<open>k\<close> and divided by 1 in its arithmetic; for integral representations,
  provided the count times \<open>k\<close> is representable in the common representation,
  exactly that product, which keeps the physical value.
\<close>

theorem common_type_lossless_when_representable:
  assumes "tag T1 = tag T2" and "positive_scale (scale T1)" and "positive_scale (scale T2)"
    and "common_type T1 T2 = Some T"
  shows "tag T = tag T1 \<and> rep T = common_type_t (rep T1) (rep T2) \<and>
         num (scale T) = gcd (num (scale T1)) (num (scale T2)) \<and>
         den (scale T) = lcm (den (scale T1)) (den (scale T2)) \<and>
         scale_value (scale T1) / scale_value (scale T) \<in> \<int> \<and>
         0 < scale_value (scale T1) / scale_value (scale T) \<and>
         scale_value (scale T2) / scale_value (scale T) \<in> \<int> \<and>
         0 < scale_value (scale T2) / scale_value (scale T) \<and>
         ((ty u = T1 \<or> ty u = T2) \<and> ratio_divide (scale T) (scale (ty u)) = Some R \<longrightarrow>
            num R = 1 \<and> 0 < den R \<and>
            (of_int (den R) :: rat) = scale_value (scale (ty u)) / scale_value (scale T) \<and>
            (\<forall>K. rep T = Floating K \<longrightarrow>
               unit_cast fp T u =
                 Inr \<lparr>ty = T, m_val = Fp_val K (fp_div fp K
                        (fp_mul fp K (as_fp fp K (count u)) (fp_of_int fp K (den R)))
                        (fp_of_int fp K 1))\<rparr>) \<and>
            (\<forall>r r' c. rep T = Integral r \<and> rep (ty u) = Integral r' \<and> count u = Int_val r' c \<and>
               in_range r (c * den R) \<longrightarrow>
               unit_cast fp T u = Inr \<lparr>ty = T, m_val = Int_val r (c * den R)\<rparr> \<and>
               physical fp \<lparr>ty = T, m_val = Int_val r (c * den R)\<rparr> = physical fp u))"
proof -
  note f = common_type_facts [OF assms(2-4)]
  have d1: "num (scale T) dvd num (scale T1)" "den (scale T1) dvd den (scale T)"
    and d2: "num (scale T) dvd num (scale T2)" "den (scale T2) dvd den (scale T)"
    using f(4,5) by simp_all
  note m1 = scale_multiple [OF assms(2) f(6) d1]
  note m2 = scale_multiple [OF assms(3) f(6) d2]
  have i: "scale_value (scale T1) / scale_value (scale T) \<in> \<int>"
      "0 < scale_value (scale T1) / scale_value (scale T)"
      "scale_value (scale T2) / scale_value (scale T) \<in> \<int>"
      "0 < scale_value (scale T2) / scale_value (scale T)"
    using m1 m2 scale_value_positive [OF assms(2)] scale_value_positive [OF assms(3)]
      scale_value_positive [OF f(6)]
    by (simp_all del: of_int_mult)
  have c: "num R = 1 \<and> 0 < den R \<and>
      (of_int (den R) :: rat) = scale_value (scale (ty u)) / scale_value (scale T) \<and>
      (\<forall>K. rep T = Floating K \<longrightarrow>
         unit_cast fp T u =
           Inr \<lparr>ty = T, m_val = Fp_val K (fp_div fp K
                  (fp_mul fp K (as_fp fp K (count u)) (fp_of_int fp K (den R)))
                  (fp_of_int fp K 1))\<rparr>) \<and>
      (\<forall>r r' c. rep T = Integral r \<and> rep (ty u) = Integral r' \<and> count u = Int_val r' c \<and>
         in_range r (c * den R) \<longrightarrow>
         unit_cast fp T u = Inr \<lparr>ty = T, m_val = Int_val r (c * den R)\<rparr> \<and>
         physical fp \<lparr>ty = T, m_val = Int_val r (c * den R)\<rparr> = physical fp u)"
    if "ty u = T1 \<or> ty u = T2" "ratio_divide (scale T) (scale (ty u)) = Some R"
    using cast_to_common [OF assms(2-4) that] by blast
  show ?thesis using f(1,3,4,5) i c by blast
qed

text \<open>
  The common type of kilowatts and watts in \<^verbatim>\<open>int64_t\<close> is watts, where two kilowatts
  are 2000 watts; with a \<^verbatim>\<open>double\<close> count, half a kilosecond is 500 seconds in the
  common type with seconds in \<^verbatim>\<open>int64_t\<close>.
\<close>

theorem common_type_lossless_witness:
  "common_type (watt (Integral Int64) kilo) (watt (Integral Int64) one)
     = Some (watt (Integral Int64) (Ratio 1 1)) \<and>
   unit_cast exact_fp (watt (Integral Int64) (Ratio 1 1))
     \<lparr>ty = watt (Integral Int64) kilo, m_val = Int_val Int64 2\<rparr>
     = Inr \<lparr>ty = watt (Integral Int64) (Ratio 1 1), m_val = Int_val Int64 2000\<rparr> \<and>
   physical exact_fp \<lparr>ty = watt (Integral Int64) (Ratio 1 1), m_val = Int_val Int64 2000\<rparr>
     = physical exact_fp \<lparr>ty = watt (Integral Int64) kilo, m_val = Int_val Int64 2\<rparr> \<and>
   common_type (second (Floating Double) kilo) (second (Integral Int64) one)
     = Some (second (Floating Double) (Ratio 1 1)) \<and>
   unit_cast exact_fp (second (Floating Double) (Ratio 1 1))
     \<lparr>ty = second (Floating Double) kilo, m_val = Fp_val Double (1 / 2)\<rparr>
     = Inr \<lparr>ty = second (Floating Double) (Ratio 1 1), m_val = Fp_val Double 500\<rparr>"
proof -
  have g: "detail_gcd 1000 1 = Some 1" "detail_gcd 1 1 = Some 1"
    using detail_gcd_nonneg [of 1000 1] detail_gcd_nonneg [of 1 1]
    by (simp_all add: in_range_def lowest_def)
  have c1: "common_type (watt (Integral Int64) kilo) (watt (Integral Int64) one)
      = Some (watt (Integral Int64) (Ratio 1 1))"
    by (simp add: common_type_def common_scale_def unit_defs g intmax_def rep_defs)
  have c2: "common_type (second (Floating Double) kilo) (second (Integral Int64) one)
      = Some (second (Floating Double) (Ratio 1 1))"
    by (simp add: common_type_def common_scale_def unit_defs g intmax_def rep_defs)
  have r: "ratio_divide (Ratio 1 1) (Ratio 1000 1) = Some (Ratio 1 1000)"
    by (simp add: ratio_defs)
  show ?thesis
    using c1 c2
      common_type_lossless_when_representable [OF _ _ _ c1,
        of "\<lparr>ty = watt (Integral Int64) kilo, m_val = Int_val Int64 2\<rparr>" "Ratio 1 1000" exact_fp]
      common_type_lossless_when_representable [OF _ _ _ c2,
        of "\<lparr>ty = second (Floating Double) kilo, m_val = Fp_val Double (1 / 2)\<rparr>"
           "Ratio 1 1000" exact_fp]
    by (simp add: unit_defs rep_defs count_def exact_fp_def positive_scale_def r)
qed

text \<open>
  The claim as stated fails where the product does not fit the common representation:
  100 kiloseconds in \<^verbatim>\<open>int16_t\<close> are cast to the common type with seconds in
  \<^verbatim>\<open>int16_t\<close> as \<open>-31072\<close>, which changes the physical value. It fails where the
  common denominator does not fit \<^verbatim>\<open>intmax_t\<close>: scales \<open>1/4000000000\<close> and
  \<open>1/4000000001\<close> have no common type. And it fails where the integer factor does
  not fit: the common type of scales \<open>2^62\<close> and \<open>1/2^62\<close> exists, but the cast of the
  first to it is rejected.
\<close>

theorem common_type_cast_wraps_counterexample:
  "common_type (second (Integral Int16) kilo) (second (Integral Int16) one)
     = Some (second (Integral Int16) (Ratio 1 1)) \<and>
   unit_cast exact_fp (second (Integral Int16) (Ratio 1 1))
     \<lparr>ty = second (Integral Int16) kilo, m_val = Int_val Int16 100\<rparr>
     = Inr \<lparr>ty = second (Integral Int16) (Ratio 1 1), m_val = Int_val Int16 (- 31072)\<rparr> \<and>
   physical exact_fp \<lparr>ty = second (Integral Int16) (Ratio 1 1), m_val = Int_val Int16 (- 31072)\<rparr>
     = - 31072 \<and>
   physical exact_fp \<lparr>ty = second (Integral Int16) kilo, m_val = Int_val Int16 100\<rparr> = 100000 \<and>
   common_type (second (Integral Int64) (Ratio 1 4000000000))
     (second (Integral Int64) (Ratio 1 4000000001)) = None \<and>
   common_type (second (Integral Int64) (Ratio 4611686018427387904 1))
     (second (Integral Int64) (Ratio 1 4611686018427387904))
     = Some (second (Integral Int64) (Ratio 1 4611686018427387904)) \<and>
   unit_cast exact_fp (second (Integral Int64) (Ratio 1 4611686018427387904))
     \<lparr>ty = second (Integral Int64) (Ratio 4611686018427387904 1), m_val = Int_val Int64 0\<rparr>
     = Inl Ill_formed"
proof -
  have g: "detail_gcd 1000 1 = Some 1" "detail_gcd 1 1 = Some 1"
    "detail_gcd 4000000000 4000000001 = Some 1"
    "detail_gcd 4611686018427387904 1 = Some 1"
    "detail_gcd 1 4611686018427387904 = Some 1"
    using detail_gcd_nonneg [of 1000 1] detail_gcd_nonneg [of 1 1]
      detail_gcd_nonneg [of 4000000000 4000000001]
      detail_gcd_nonneg [of 4611686018427387904 1]
      detail_gcd_nonneg [of 1 4611686018427387904]
      gcd_add_mult [of 4000000000 1 "1 :: int"]
    by (simp_all add: in_range_def lowest_def)
  show ?thesis
    by (simp add: common_type_def common_scale_def unit_defs g intmax_def rep_defs ratio_defs
        cast_defs physical_def scale_value_def)
qed

section \<open>Addition and comparison\<close>

lemma convert_to_result:
  assumes "convert_to fp r v = Inr x"
  shows "type_of x = r" and "\<And>r' n. x = Int_val r' n \<Longrightarrow> in_range r' n"
  using assms
  by (cases r; cases v; auto simp: convert_in_range split: option.splits if_splits)+

text \<open>What a cast returns has the target type and a count of its representation.\<close>

lemma unit_cast_result:
  assumes "unit_cast fp T a = Inr a'"
  shows "ty a' = T" and "type_of (count a') = rep T"
    and "\<And>r n. count a' = Int_val r n \<Longrightarrow> in_range r n"
proof -
  obtain q x where x: "convert_to fp (rep T) q = Inr x" and a': "a' = \<lparr>ty = T, m_val = x\<rparr>"
    using assms
    by (auto simp: unit_cast_def raw_ctor_def bind_res_def
        split: if_splits option.splits sum.splits)
  show "ty a' = T" using a' by simp
  show "type_of (count a') = rep T" using a' convert_to_result(1) [OF x] by (simp add: count_def)
  show "\<And>r n. count a' = Int_val r n \<Longrightarrow> in_range r n"
    using a' convert_to_result(2) [OF x] by (simp add: count_def)
qed

lemma operator_plus_eq:
  assumes "common_type (ty a) (ty b) = Some T"
    and "unit_cast fp T a = Inr a'" "unit_cast fp T b = Inr b'"
  shows "operator_plus fp a b = bind_res (arith fp Add (count a') (count b')) (raw_ctor fp T)"
  using assms by (simp add: operator_plus_def)

lemma add_floating:
  assumes "rep T = Floating K"
  shows "bind_res (arith fp Add (Fp_val K x) (Fp_val K y)) (raw_ctor fp T)
           = Inr \<lparr>ty = T, m_val = Fp_val K (fp_add fp K x y)\<rparr>"
  using assms by (simp add: raw_ctor_def raw_ctor_available_def fp_wider_def)

lemma add_integral:
  assumes "rep T = Integral r" "in_range r x" "in_range r y" "in_range r (x + y)"
  shows "bind_res (arith fp Add (Int_val r x) (Int_val r y)) (raw_ctor fp T)
           = Inr \<lparr>ty = T, m_val = Int_val r (x + y)\<rparr>"
proof -
  have "int_arith (arith_type r r) Add x y = Inr (x + y)"
    using int_arith_exact [of Add "arith_type r r" x y] assms(2-4)
    by (simp add: in_range_promote)
  then show ?thesis
    using assms(1,4) by (simp add: raw_ctor_def raw_ctor_available_def in_range_convert_id)
qed

text \<open>
  C3 (amended). Let \<open>a\<close> and \<open>b\<close> be quantities of one tag with positive scales whose
  common type \<open>T\<close> is well-formed. Where \<open>unit_cast\<close> to \<open>T\<close> returns \<open>a'\<close> for
  \<open>a\<close> and \<open>b'\<close> for \<open>b\<close>: with floating counts, \<open>a + b\<close> is the quantity of type
  \<open>T\<close> whose count is the sum of the two counts in that floating type; with integral
  counts whose sum is representable in the common representation, \<open>a + b\<close> is the
  quantity of type \<open>T\<close> whose count is that sum. For integral representations, where
  the two ratios of the common scale to the operand scales are well-formed with
  denominators \<open>ka\<close> and \<open>kb\<close>, and both counts times these factors and the sum of
  the two products are representable in the common representation, \<open>a + b\<close> is the
  quantity of type \<open>T\<close> with that sum as count, and its physical value is the exact sum
  of the physical values. In particular \<^verbatim>\<open>watt(500) + kilowatt(2) == watt(2500)\<close>.
\<close>

theorem operator_plus_exact_when_representable:
  assumes "tag (ty a) = tag (ty b)"
    and "positive_scale (scale (ty a))" and "positive_scale (scale (ty b))"
    and "common_type (ty a) (ty b) = Some T"
  shows "(unit_cast fp T a = Inr a' \<and> unit_cast fp T b = Inr b' \<longrightarrow>
            (\<forall>K x y. count a' = Fp_val K x \<and> count b' = Fp_val K y \<longrightarrow>
               operator_plus fp a b = Inr \<lparr>ty = T, m_val = Fp_val K (fp_add fp K x y)\<rparr>) \<and>
            (\<forall>r x y. count a' = Int_val r x \<and> count b' = Int_val r y \<and> in_range r (x + y) \<longrightarrow>
               operator_plus fp a b = Inr \<lparr>ty = T, m_val = Int_val r (x + y)\<rparr>)) \<and>
         (\<forall>r ra rb ca cb Ra Rb.
            rep T = Integral r \<and> rep (ty a) = Integral ra \<and> rep (ty b) = Integral rb \<and>
            count a = Int_val ra ca \<and> count b = Int_val rb cb \<and>
            ratio_divide (scale T) (scale (ty a)) = Some Ra \<and>
            ratio_divide (scale T) (scale (ty b)) = Some Rb \<and>
            in_range r (ca * den Ra) \<and> in_range r (cb * den Rb) \<and>
            in_range r (ca * den Ra + cb * den Rb) \<longrightarrow>
            operator_plus fp a b
              = Inr \<lparr>ty = T, m_val = Int_val r (ca * den Ra + cb * den Rb)\<rparr> \<and>
            physical fp \<lparr>ty = T, m_val = Int_val r (ca * den Ra + cb * den Rb)\<rparr>
              = physical fp a + physical fp b) \<and>
         operator_plus exact_fp \<lparr>ty = watt (Integral Int64) one, m_val = Int_val Int64 500\<rparr>
             \<lparr>ty = watt (Integral Int64) kilo, m_val = Int_val Int64 2\<rparr>
           = Inr \<lparr>ty = watt (Integral Int64) (Ratio 1 1), m_val = Int_val Int64 2500\<rparr> \<and>
         operator_eq exact_fp
             \<lparr>ty = watt (Integral Int64) (Ratio 1 1), m_val = Int_val Int64 2500\<rparr>
             \<lparr>ty = watt (Integral Int64) one, m_val = Int_val Int64 2500\<rparr>
           = Inr True"
proof -
  have p1: "operator_plus fp a b = Inr \<lparr>ty = T, m_val = Fp_val K (fp_add fp K x y)\<rparr>"
    if "unit_cast fp T a = Inr a'" "unit_cast fp T b = Inr b'"
      "count a' = Fp_val K x" "count b' = Fp_val K y" for K x y
  proof -
    have "rep T = Floating K" using unit_cast_result(2) [OF that(1)] that(3) by simp
    then show ?thesis
      using operator_plus_eq [OF assms(4) that(1,2)] that(3,4) by (simp only: add_floating)
  qed
  have p2: "operator_plus fp a b = Inr \<lparr>ty = T, m_val = Int_val r (x + y)\<rparr>"
    if "unit_cast fp T a = Inr a'" "unit_cast fp T b = Inr b'"
      "count a' = Int_val r x" "count b' = Int_val r y" "in_range r (x + y)" for r x y
  proof -
    have "rep T = Integral r" using unit_cast_result(2) [OF that(1)] that(3) by simp
    moreover have "in_range r x" "in_range r y"
      using unit_cast_result(3) [OF that(1) that(3)] unit_cast_result(3) [OF that(2) that(4)]
      by simp_all
    ultimately show ?thesis
      using operator_plus_eq [OF assms(4) that(1,2)] that(3,4,5) by (simp only: add_integral)
  qed
  have p3: "operator_plus fp a b
        = Inr \<lparr>ty = T, m_val = Int_val r (ca * den Ra + cb * den Rb)\<rparr> \<and>
      physical fp \<lparr>ty = T, m_val = Int_val r (ca * den Ra + cb * den Rb)\<rparr>
        = physical fp a + physical fp b"
    if "rep T = Integral r" "rep (ty a) = Integral ra" "rep (ty b) = Integral rb"
      "count a = Int_val ra ca" "count b = Int_val rb cb"
      "ratio_divide (scale T) (scale (ty a)) = Some Ra"
      "ratio_divide (scale T) (scale (ty b)) = Some Rb"
      "in_range r (ca * den Ra)" "in_range r (cb * den Rb)"
      "in_range r (ca * den Ra + cb * den Rb)" for r ra rb ca cb Ra Rb
  proof -
    note xa = cast_to_common [OF assms(2,3,4) _ that(6), simplified]
    note xb = cast_to_common [OF assms(2,3,4) _ that(7), simplified]
    have ua: "unit_cast fp T a = Inr \<lparr>ty = T, m_val = Int_val r (ca * den Ra)\<rparr>"
      using that(1,2,4,8) by (rule xa(5))
    have ub: "unit_cast fp T b = Inr \<lparr>ty = T, m_val = Int_val r (cb * den Rb)\<rparr>"
      using that(1,3,5,9) by (rule xb(5))
    have "operator_plus fp a b
        = bind_res (arith fp Add (Int_val r (ca * den Ra)) (Int_val r (cb * den Rb)))
            (raw_ctor fp T)"
      using operator_plus_eq [OF assms(4) ua ub] by (simp add: count_def)
    then have plus: "operator_plus fp a b
        = Inr \<lparr>ty = T, m_val = Int_val r (ca * den Ra + cb * den Rb)\<rparr>"
      using that(1,8,9,10) by (simp only: add_integral)
    have "physical fp \<lparr>ty = T, m_val = Int_val r (ca * den Ra + cb * den Rb)\<rparr>
        = physical fp \<lparr>ty = T, m_val = Int_val r (ca * den Ra)\<rparr>
          + physical fp \<lparr>ty = T, m_val = Int_val r (cb * den Rb)\<rparr>"
      by (simp add: physical_def distrib_right)
    then have "physical fp \<lparr>ty = T, m_val = Int_val r (ca * den Ra + cb * den Rb)\<rparr>
        = physical fp a + physical fp b"
      using xa(6) [OF that(1,4)] xb(6) [OF that(1,5)] by simp
    then show ?thesis using plus by simp
  qed
  have g: "detail_gcd 1000 1 = Some 1" "detail_gcd 1 1000 = Some 1" "detail_gcd 1 1 = Some 1"
    using detail_gcd_nonneg [of 1000 1] detail_gcd_nonneg [of 1 1000] detail_gcd_nonneg [of 1 1]
    by (simp_all add: in_range_def lowest_def)
  have e1: "operator_plus exact_fp \<lparr>ty = watt (Integral Int64) one, m_val = Int_val Int64 500\<rparr>
             \<lparr>ty = watt (Integral Int64) kilo, m_val = Int_val Int64 2\<rparr>
           = Inr \<lparr>ty = watt (Integral Int64) (Ratio 1 1), m_val = Int_val Int64 2500\<rparr>"
    by (simp add: operator_plus_def common_type_def common_scale_def unit_defs g intmax_def
        rep_defs ratio_defs cast_defs)
  have e2: "operator_eq exact_fp
             \<lparr>ty = watt (Integral Int64) (Ratio 1 1), m_val = Int_val Int64 2500\<rparr>
             \<lparr>ty = watt (Integral Int64) one, m_val = Int_val Int64 2500\<rparr>
           = Inr True"
    by (simp add: operator_eq_def common_type_def common_scale_def unit_defs g intmax_def
        rep_defs ratio_defs cast_defs)
  show ?thesis using p1 p2 p3 e1 e2 by blast
qed

text \<open>
  Half a kilosecond in \<^verbatim>\<open>double\<close> plus 500 seconds in \<^verbatim>\<open>int64_t\<close> are 1000 seconds in
  \<^verbatim>\<open>double\<close>; one kilosecond plus one second, both in \<^verbatim>\<open>int64_t\<close>, are 1001 seconds.
\<close>

theorem operator_plus_exact_witness:
  "operator_plus exact_fp \<lparr>ty = second (Floating Double) kilo, m_val = Fp_val Double (1 / 2)\<rparr>
       \<lparr>ty = second (Integral Int64) one, m_val = Int_val Int64 500\<rparr>
     = Inr \<lparr>ty = second (Floating Double) (Ratio 1 1), m_val = Fp_val Double 1000\<rparr> \<and>
   operator_plus exact_fp \<lparr>ty = second (Integral Int64) kilo, m_val = Int_val Int64 1\<rparr>
       \<lparr>ty = second (Integral Int64) one, m_val = Int_val Int64 1\<rparr>
     = Inr \<lparr>ty = second (Integral Int64) (Ratio 1 1), m_val = Int_val Int64 1001\<rparr> \<and>
   physical exact_fp \<lparr>ty = second (Integral Int64) (Ratio 1 1), m_val = Int_val Int64 1001\<rparr>
     = physical exact_fp \<lparr>ty = second (Integral Int64) kilo, m_val = Int_val Int64 1\<rparr>
       + physical exact_fp \<lparr>ty = second (Integral Int64) one, m_val = Int_val Int64 1\<rparr>"
proof -
  let ?a = "\<lparr>ty = second (Floating Double) kilo, m_val = Fp_val Double (1 / 2 :: rat)\<rparr>"
  let ?b = "\<lparr>ty = second (Integral Int64) one, m_val = Int_val Int64 500 :: rat number\<rparr>"
  let ?T = "second (Floating Double) (Ratio 1 1)"
  let ?c = "\<lparr>ty = second (Integral Int64) kilo, m_val = Int_val Int64 1 :: rat number\<rparr>"
  let ?d = "\<lparr>ty = second (Integral Int64) one, m_val = Int_val Int64 1 :: rat number\<rparr>"
  let ?U = "second (Integral Int64) (Ratio 1 1)"
  have g: "detail_gcd 1000 1 = Some 1" "detail_gcd 1 1 = Some 1"
    using detail_gcd_nonneg [of 1000 1] detail_gcd_nonneg [of 1 1]
    by (simp_all add: in_range_def lowest_def)
  have c1: "common_type (ty ?a) (ty ?b) = Some ?T"
    by (simp add: common_type_def common_scale_def unit_defs g intmax_def rep_defs)
  have c2: "common_type (ty ?c) (ty ?d) = Some ?U"
    by (simp add: common_type_def common_scale_def unit_defs g intmax_def rep_defs)
  have ua: "unit_cast exact_fp ?T ?a = Inr \<lparr>ty = ?T, m_val = Fp_val Double 500\<rparr>"
    and ub: "unit_cast exact_fp ?T ?b = Inr \<lparr>ty = ?T, m_val = Fp_val Double 500\<rparr>"
    by (simp_all add: unit_defs rep_defs ratio_defs cast_defs)
  have r: "ratio_divide (Ratio 1 1) (Ratio 1000 1) = Some (Ratio 1 1000)"
    "ratio_divide (Ratio 1 1) (Ratio 1 1) = Some (Ratio 1 1)"
    by (simp_all add: ratio_defs)
  show ?thesis
    using ua ub
      operator_plus_exact_when_representable [OF _ _ _ c1,
        of exact_fp "\<lparr>ty = ?T, m_val = Fp_val Double 500\<rparr>" "\<lparr>ty = ?T, m_val = Fp_val Double 500\<rparr>"]
      operator_plus_exact_when_representable [OF _ _ _ c2, of exact_fp]
    by (simp add: unit_defs rep_defs count_def exact_fp_def positive_scale_def r)
qed

text \<open>
  The claim as stated fails where the sum does not fit: 30000 s + 30000 s in \<^verbatim>\<open>int16_t\<close>
  is computed as 60000 in \<^verbatim>\<open>int\<close> and stored as \<open>-5536\<close>; in \<^verbatim>\<open>int64_t\<close> the largest
  count plus one overflows. It fails where there is no common type: scales
  \<open>1/4000000000\<close> and \<open>1/4000000001\<close>.
\<close>

theorem operator_plus_wraps_counterexample:
  "operator_plus exact_fp \<lparr>ty = second (Integral Int16) one, m_val = Int_val Int16 30000\<rparr>
       \<lparr>ty = second (Integral Int16) one, m_val = Int_val Int16 30000\<rparr>
     = Inr \<lparr>ty = second (Integral Int16) one, m_val = Int_val Int16 (- 5536)\<rparr> \<and>
   physical exact_fp \<lparr>ty = second (Integral Int16) one, m_val = Int_val Int16 (- 5536)\<rparr>
     = - 5536 \<and>
   physical exact_fp \<lparr>ty = second (Integral Int16) one, m_val = Int_val Int16 30000\<rparr>
     + physical exact_fp \<lparr>ty = second (Integral Int16) one, m_val = Int_val Int16 30000\<rparr>
     = 60000 \<and>
   operator_plus exact_fp
       \<lparr>ty = second (Integral Int64) one, m_val = Int_val Int64 9223372036854775807\<rparr>
       \<lparr>ty = second (Integral Int64) one, m_val = Int_val Int64 1\<rparr>
     = Inl Signed_overflow \<and>
   operator_plus exact_fp
       \<lparr>ty = second (Integral Int64) (Ratio 1 4000000000), m_val = Int_val Int64 0\<rparr>
       \<lparr>ty = second (Integral Int64) (Ratio 1 4000000001), m_val = Int_val Int64 0\<rparr>
     = Inl Ill_formed"
proof -
  have g: "detail_gcd 1 1 = Some 1" "detail_gcd 4000000000 4000000001 = Some 1"
    using detail_gcd_nonneg [of 1 1] detail_gcd_nonneg [of 4000000000 4000000001]
      gcd_add_mult [of 4000000000 1 "1 :: int"]
    by (simp_all add: in_range_def lowest_def)
  show ?thesis
    by (simp add: operator_plus_def common_type_def common_scale_def unit_defs g intmax_def
        rep_defs ratio_defs cast_defs physical_def scale_value_def)
qed

lemma scaled_compare:
  fixes s :: rat and x y :: int
  assumes "0 < s"
  shows "(x = y) = (of_int x * s = of_int y * s)"
    and "three_way x y = three_way (of_int x * s) (of_int y * s)"
  using assms by (simp_all add: three_way_def)

text \<open>
  C4 (amended). Let \<open>a\<close> and \<open>b\<close> be quantities of one tag with integral
  representations and positive scales, such that their common type and the two ratios of
  the common scale to the operand scales are well-formed, with denominators \<open>ka\<close> and
  \<open>kb\<close>, and both counts times these factors are representable in the common
  representation. Then \<open>a == b\<close> holds exactly when the physical values are equal as
  rationals, and \<open>a <=> b\<close> orders them as their physical values.
\<close>

theorem comparison_exact_when_representable:
  assumes "tag (ty a) = tag (ty b)"
    and "positive_scale (scale (ty a))" and "positive_scale (scale (ty b))"
    and "rep (ty a) = Integral ra" and "rep (ty b) = Integral rb"
    and "count a = Int_val ra ca" and "count b = Int_val rb cb"
    and "common_type (ty a) (ty b) = Some T" and "rep T = Integral r"
    and "ratio_divide (scale T) (scale (ty a)) = Some Ra"
    and "ratio_divide (scale T) (scale (ty b)) = Some Rb"
    and "in_range r (ca * den Ra)" and "in_range r (cb * den Rb)"
  shows "operator_eq fp a b = Inr (physical fp a = physical fp b) \<and>
         operator_spaceship fp a b = Inr (three_way (physical fp a) (physical fp b))"
proof -
  note xa = cast_to_common [OF assms(2,3,8) _ assms(10), simplified]
  note xb = cast_to_common [OF assms(2,3,8) _ assms(11), simplified]
  have ua: "unit_cast fp T a = Inr \<lparr>ty = T, m_val = Int_val r (ca * den Ra)\<rparr>"
    using assms(9,4,6,12) by (rule xa(5))
  have ub: "unit_cast fp T b = Inr \<lparr>ty = T, m_val = Int_val r (cb * den Rb)\<rparr>"
    using assms(9,5,7,13) by (rule xb(5))
  have sT: "0 < scale_value (scale T)"
    using common_type_facts(6) [OF assms(2,3,8)] by (rule scale_value_positive)
  have pa: "physical fp a = of_int (ca * den Ra) * scale_value (scale T)"
    using xa(6) [OF assms(9,6), of fp] by (simp add: physical_def)
  have pb: "physical fp b = of_int (cb * den Rb) * scale_value (scale T)"
    using xb(6) [OF assms(9,7), of fp] by (simp add: physical_def)
  have cv: "convert (arith_type r r) (ca * den Ra) = ca * den Ra"
    "convert (arith_type r r) (cb * den Rb) = cb * den Rb"
    using assms(12,13) by (simp_all add: in_range_promote in_range_convert_id)
  have "operator_eq fp a b = Inr (ca * den Ra = cb * den Rb)"
    by (simp add: operator_eq_def assms(8) ua ub count_def cv)
  moreover have "operator_spaceship fp a b = Inr (three_way (ca * den Ra) (cb * den Rb))"
    by (simp add: operator_spaceship_def assms(8) ua ub count_def cv)
  ultimately show ?thesis
    unfolding pa pb using scaled_compare [OF sT, of "ca * den Ra" "cb * den Rb"] by simp
qed

text \<open>\<^verbatim>\<open>second<int16_t, std::mega>(5) == second<int64_t>(5'000'000)\<close>, as the test program asserts.\<close>

theorem comparison_exact_witness:
  "physical exact_fp \<lparr>ty = second (Integral Int16) mega, m_val = Int_val Int16 5\<rparr> = 5000000 \<and>
   physical exact_fp \<lparr>ty = second (Integral Int64) one, m_val = Int_val Int64 5000000\<rparr>
     = 5000000 \<and>
   operator_eq exact_fp \<lparr>ty = second (Integral Int16) mega, m_val = Int_val Int16 5\<rparr>
       \<lparr>ty = second (Integral Int64) one, m_val = Int_val Int64 5000000\<rparr> = Inr True \<and>
   operator_spaceship exact_fp \<lparr>ty = second (Integral Int16) mega, m_val = Int_val Int16 5\<rparr>
       \<lparr>ty = second (Integral Int64) one, m_val = Int_val Int64 5000000\<rparr> = Inr Equal"
proof -
  let ?a = "\<lparr>ty = second (Integral Int16) mega, m_val = Int_val Int16 5 :: rat number\<rparr>"
  let ?b = "\<lparr>ty = second (Integral Int64) one, m_val = Int_val Int64 5000000 :: rat number\<rparr>"
  let ?T = "second (Integral Int64) (Ratio 1 1)"
  have g: "detail_gcd 1000000 1 = Some 1" "detail_gcd 1 1 = Some 1"
    using detail_gcd_nonneg [of 1000000 1] detail_gcd_nonneg [of 1 1]
    by (simp_all add: in_range_def lowest_def)
  have c: "common_type (ty ?a) (ty ?b) = Some ?T"
    by (simp add: common_type_def common_scale_def unit_defs g intmax_def rep_defs)
  have ra: "ratio_divide (scale ?T) (scale (ty ?a)) = Some (Ratio 1 1000000)"
    and rb: "ratio_divide (scale ?T) (scale (ty ?b)) = Some (Ratio 1 1)"
    by (simp_all add: unit_defs ratio_defs)
  have p: "physical exact_fp ?a = 5000000" "physical exact_fp ?b = 5000000"
    by (simp_all add: physical_def scale_value_def unit_defs)
  show ?thesis
    using p comparison_exact_when_representable [OF _ _ _ _ _ _ _ c _ ra rb, of Int16 Int64 5 5000000 Int64 exact_fp]
    by (simp add: unit_defs rep_defs count_def positive_scale_def three_way_def)
qed

text \<open>
  The claim as stated fails where a converted count does not fit: with \<^verbatim>\<open>int16_t\<close>
  counts, 100 kiloseconds compare equal to \<open>-31072\<close> seconds. It fails where there is
  no common type, and where the common representation is unsigned and a count negative:
  \<open>-1\<close> second in \<^verbatim>\<open>int64_t\<close> equals \<open>2^64 - 1\<close> seconds in \<^verbatim>\<open>uint64_t\<close>.
\<close>

theorem comparison_wraps_counterexample:
  "operator_eq exact_fp \<lparr>ty = second (Integral Int16) kilo, m_val = Int_val Int16 100\<rparr>
       \<lparr>ty = second (Integral Int16) one, m_val = Int_val Int16 (- 31072)\<rparr> = Inr True \<and>
   operator_spaceship exact_fp \<lparr>ty = second (Integral Int16) kilo, m_val = Int_val Int16 100\<rparr>
       \<lparr>ty = second (Integral Int16) one, m_val = Int_val Int16 (- 31072)\<rparr> = Inr Equal \<and>
   physical exact_fp \<lparr>ty = second (Integral Int16) kilo, m_val = Int_val Int16 100\<rparr>
     = 100000 \<and>
   physical exact_fp \<lparr>ty = second (Integral Int16) one, m_val = Int_val Int16 (- 31072)\<rparr>
     = - 31072 \<and>
   operator_eq exact_fp
       \<lparr>ty = second (Integral Int64) (Ratio 1 4000000000), m_val = Int_val Int64 0\<rparr>
       \<lparr>ty = second (Integral Int64) (Ratio 1 4000000001), m_val = Int_val Int64 0\<rparr>
     = Inl Ill_formed \<and>
   operator_eq exact_fp
       \<lparr>ty = second (Integral Int64) one, m_val = Int_val Int64 (- 1)\<rparr>
       \<lparr>ty = second (Integral UInt64) one, m_val = Int_val UInt64 18446744073709551615\<rparr>
     = Inr True"
proof -
  have g: "detail_gcd 1 1 = Some 1" "detail_gcd 4000000000 4000000001 = Some 1"
    "detail_gcd 1000 1 = Some 1"
    using detail_gcd_nonneg [of 1 1] detail_gcd_nonneg [of 4000000000 4000000001]
      detail_gcd_nonneg [of 1000 1] gcd_add_mult [of 4000000000 1 "1 :: int"]
    by (simp_all add: in_range_def lowest_def)
  show ?thesis
    by (simp add: operator_eq_def operator_spaceship_def common_type_def common_scale_def
        unit_defs g intmax_def rep_defs ratio_defs cast_defs physical_def scale_value_def
        three_way_def)
qed

section \<open>The converting constructor\<close>

lemma den_one_iff_integer:
  assumes "positive_scale A" "positive_scale C" "ratio_divide A C = Some Q"
  shows "(den Q = 1) = (scale_value A / scale_value C \<in> \<int>)"
proof
  assume "den Q = 1"
  then have "scale_value A / scale_value C = of_int (num Q)"
    using ratio_divide_Some(6) [OF assms] by simp
  then show "scale_value A / scale_value C \<in> \<int>" by simp
next
  assume "scale_value A / scale_value C \<in> \<int>"
  then obtain z :: int where z: "scale_value A / scale_value C = of_int z"
    by (auto elim: Ints_cases)
  have d: "0 < den Q" by (rule ratio_divide_Some(4) [OF assms])
  have "(of_int (num Q) :: rat) / of_int (den Q) = of_int z"
    using ratio_divide_Some(6) [OF assms] z by simp
  then have "(of_int (num Q) :: rat) = of_int (z * den Q)" using d by (simp add: field_simps)
  then have "num Q = z * den Q" by (simp only: of_int_eq_iff)
  then have dn: "den Q dvd num Q" by simp
  have "coprime (num Q) (den Q)" by (rule ratio_divide_Some(5) [OF assms])
  then have "is_unit (den Q)" using dn dvd_refl by (rule coprime_common_divisor)
  then show "den Q = 1" using d by simp
qed

text \<open>
  A value of one integer type and a value of another of the same sign are both
  representable in the common type of the two.
\<close>

lemma in_range_common:
  assumes "in_range r x" "in_range r2 c" "x < 0 \<longleftrightarrow> c < 0"
    and "common_type_t (Integral r) (Integral r2) = Integral CT"
  shows "in_range CT x" and "in_range CT c"
proof -
  have "in_range CT x \<and> in_range CT c"
    using assms by (cases r; cases r2) (auto simp: rep_defs)
  then show "in_range CT x" "in_range CT c" by blast+
qed

lemma converting_ctor_integral:
  assumes "tag T = tag (ty u)"
    and "positive_scale (scale T)" "positive_scale (scale (ty u))"
    and "ratio_divide (scale (ty u)) (scale T) = Some Q" "den Q = 1"
    and "rep T = Integral r" "rep (ty u) = Integral r2" "count u = Int_val r2 c"
    and "in_range r2 c" "in_range r (c * num Q)"
  shows "converting_ctor fp T u = Inr \<lparr>ty = T, m_val = Int_val r (c * num Q)\<rparr>"
proof -
  obtain R where R: "ratio_divide (scale T) (scale (ty u)) = Some R"
    and nd: "num R = den Q" "den R = num Q"
    using ratio_divide_flip [OF assms(3,2,4)] by blast
  have k: "0 < num Q" by (rule ratio_divide_Some(3) [OF assms(3,2,4)])
  obtain CT where CT: "common_type_t (rep T) (rep (ty u)) = Integral CT"
    using assms(6,7) by (cases "r = r2") (simp_all add: common_type_t_def)
  have sg: "c * num Q < 0 \<longleftrightarrow> c < 0" using k by (simp add: mult_less_0_iff)
  have CT': "common_type_t (Integral r) (Integral r2) = Integral CT"
    using CT assms(6,7) by simp
  note rg = in_range_common [OF assms(10,9) sg CT']
  have e: "in_range (arith_type CT Int64) (c * den R)"
    using rg(1) nd by (simp add: in_range_intmax)
  have "unit_cast fp T u = Inr \<lparr>ty = T, m_val = Int_val r (c * num Q)\<rparr>"
    using unit_cast_integral [OF assms(1,2,3) R assms(6,7,8) CT rg(2) e, of fp]
      nd assms(5,10)
    by (simp add: in_range_convert_id)
  moreover have "converting_ctor_available T (ty u)"
    using assms(1,4,5,7)
    by (simp add: converting_ctor_available_def narrowing_guard_def)
  ultimately show ?thesis
    using assms(6,10) by (simp add: converting_ctor_def count_def in_range_convert_id)
qed

text \<open>
  C5 (amended). For a quantity type \<open>T\<close> and a quantity \<open>u\<close> of the same tag, both
  scales positive, such that source scale over target scale is a well-formed
  \<^verbatim>\<open>std::ratio\<close> \<open>Q\<close>: the converting constructor is available exactly when the target
  representation is floating-point, or \<open>Q\<close> has denominator 1 and the source
  representation is not floating-point; \<open>Q\<close> is the scale ratio in lowest terms and has
  denominator 1 exactly when that ratio is an integer; where the constructor is not
  available the construction is rejected; and where it is available with integral
  representations and the source count times the integer \<open>Q\<close> is representable in the
  target representation, the constructed count is exactly that product.
\<close>

theorem converting_ctor_guard_and_count:
  assumes "tag T = tag (ty u)" and "positive_scale (scale T)"
    and "positive_scale (scale (ty u))" and "well_typed u"
    and "ratio_divide (scale (ty u)) (scale T) = Some Q"
  shows "(converting_ctor_available T (ty u) \<longleftrightarrow>
            treat_as_floating_point (rep T) \<or>
            (den Q = 1 \<and> \<not> treat_as_floating_point (rep (ty u)))) \<and>
         coprime (num Q) (den Q) \<and> 0 < den Q \<and>
         (of_int (num Q) :: rat) / of_int (den Q)
            = scale_value (scale (ty u)) / scale_value (scale T) \<and>
         (den Q = 1 \<longleftrightarrow> scale_value (scale (ty u)) / scale_value (scale T) \<in> \<int>) \<and>
         (\<not> converting_ctor_available T (ty u) \<longrightarrow> converting_ctor fp T u = Inl Ill_formed) \<and>
         (\<forall>r r2 c.
            converting_ctor_available T (ty u) \<and> rep T = Integral r \<and>
            rep (ty u) = Integral r2 \<and> count u = Int_val r2 c \<and> in_range r (c * num Q) \<longrightarrow>
            (of_int (num Q) :: rat) = scale_value (scale (ty u)) / scale_value (scale T) \<and>
            converting_ctor fp T u = Inr \<lparr>ty = T, m_val = Int_val r (c * num Q)\<rparr>)"
proof -
  note f = ratio_divide_Some [OF assms(3,2,5)]
  have g: "converting_ctor_available T (ty u) \<longleftrightarrow>
            treat_as_floating_point (rep T) \<or>
            (den Q = 1 \<and> \<not> treat_as_floating_point (rep (ty u)))"
    using assms(1,5) by (simp add: converting_ctor_available_def narrowing_guard_def)
  have i: "den Q = 1 \<longleftrightarrow> scale_value (scale (ty u)) / scale_value (scale T) \<in> \<int>"
    by (rule den_one_iff_integer [OF assms(3,2,5)])
  have n: "\<not> converting_ctor_available T (ty u) \<longrightarrow> converting_ctor fp T u = Inl Ill_formed"
    by (simp add: converting_ctor_def)
  have v: "(of_int (num Q) :: rat) = scale_value (scale (ty u)) / scale_value (scale T) \<and>
      converting_ctor fp T u = Inr \<lparr>ty = T, m_val = Int_val r (c * num Q)\<rparr>"
    if "converting_ctor_available T (ty u)" "rep T = Integral r" "rep (ty u) = Integral r2"
      "count u = Int_val r2 c" "in_range r (c * num Q)" for r r2 c
  proof -
    have d: "den Q = 1" using g that(1,2) by simp
    have "in_range r2 c" using assms(4) that(4) by (simp add: well_typed_def count_def)
    then have "converting_ctor fp T u = Inr \<lparr>ty = T, m_val = Int_val r (c * num Q)\<rparr>"
      using converting_ctor_integral [OF assms(1,2,3,5) d that(2,3,4)] that(5) by simp
    moreover have "(of_int (num Q) :: rat) = scale_value (scale (ty u)) / scale_value (scale T)"
      using f(6) d by simp
    ultimately show ?thesis by simp
  qed
  show ?thesis using g f(5,4,6) i n v by blast
qed

text \<open>
  A quantity in watts can be constructed from two kilowatts and holds 2000; one in
  kilowatts cannot be constructed from watts, unless its count is floating.
\<close>

theorem converting_ctor_witness:
  "converting_ctor_available (watt (Integral Int64) one) (watt (Integral Int64) kilo) \<and>
   converting_ctor exact_fp (watt (Integral Int64) one)
     \<lparr>ty = watt (Integral Int64) kilo, m_val = Int_val Int64 2\<rparr>
     = Inr \<lparr>ty = watt (Integral Int64) one, m_val = Int_val Int64 2000\<rparr> \<and>
   \<not> converting_ctor_available (watt (Integral Int64) kilo) (watt (Integral Int64) one) \<and>
   converting_ctor exact_fp (watt (Integral Int64) kilo)
     \<lparr>ty = watt (Integral Int64) one, m_val = Int_val Int64 2000\<rparr>
     = Inl Ill_formed \<and>
   converting_ctor_available (watt (Floating Double) kilo) (watt (Integral Int64) one)"
proof -
  let ?u = "\<lparr>ty = watt (Integral Int64) kilo, m_val = Int_val Int64 2 :: rat number\<rparr>"
  let ?v = "\<lparr>ty = watt (Integral Int64) one, m_val = Int_val Int64 2000 :: rat number\<rparr>"
  have q1: "ratio_divide (scale (ty ?u)) (scale (watt (Integral Int64) one)) = Some (Ratio 1000 1)"
    and q2: "ratio_divide (scale (ty ?v)) (scale (watt (Integral Int64) kilo))
      = Some (Ratio 1 1000)"
    and q3: "ratio_divide (scale (ty ?v)) (scale (watt (Floating Double) kilo))
      = Some (Ratio 1 1000)"
    by (simp_all add: unit_defs ratio_defs)
  show ?thesis
    using converting_ctor_guard_and_count [OF _ _ _ _ q1, of exact_fp]
      converting_ctor_guard_and_count [OF _ _ _ _ q2, of exact_fp]
      converting_ctor_guard_and_count [OF _ _ _ _ q3, of exact_fp]
    by (simp add: unit_defs rep_defs count_def positive_scale_def well_typed_def)
qed

text \<open>
  The claim as stated fails for a narrower target representation: the constructor of
  seconds in \<^verbatim>\<open>int16_t\<close> accepts 70000 seconds in \<^verbatim>\<open>int64_t\<close>, the ratio is 1, and the
  constructed count is 4464. It fails where the scale ratio does not fit \<^verbatim>\<open>intmax_t\<close>:
  exaseconds over attoseconds is the integer \<open>10^36\<close>, yet there is no constructor of
  attoseconds from exaseconds, and with a \<^verbatim>\<open>double\<close> target the guard holds but the
  construction is rejected. And the product is computed in \<^verbatim>\<open>intmax_t\<close>: seconds from
  \<open>10^16\<close> kiloseconds overflow.
\<close>

theorem converting_ctor_narrows_counterexample:
  "converting_ctor_available (second (Integral Int16) one) (second (Integral Int64) one) \<and>
   ratio_divide one one = Some (Ratio 1 1) \<and>
   converting_ctor exact_fp (second (Integral Int16) one)
     \<lparr>ty = second (Integral Int64) one, m_val = Int_val Int64 70000\<rparr>
     = Inr \<lparr>ty = second (Integral Int16) one, m_val = Int_val Int16 4464\<rparr> \<and>
   scale_value exa / scale_value atto = 10 ^ 36 \<and>
   \<not> converting_ctor_available (second (Integral Int64) atto) (second (Integral Int64) exa) \<and>
   converting_ctor exact_fp (second (Integral Int64) atto)
     \<lparr>ty = second (Integral Int64) exa, m_val = Int_val Int64 0\<rparr>
     = Inl Ill_formed \<and>
   converting_ctor_available (second (Floating Double) atto) (second (Integral Int64) exa) \<and>
   converting_ctor exact_fp (second (Floating Double) atto)
     \<lparr>ty = second (Integral Int64) exa, m_val = Int_val Int64 0\<rparr>
     = Inl Ill_formed \<and>
   converting_ctor exact_fp (second (Integral Int64) one)
     \<lparr>ty = second (Integral Int64) kilo, m_val = Int_val Int64 10000000000000000\<rparr>
     = Inl Signed_overflow"
  by (simp add: converting_ctor_def converting_ctor_available_def narrowing_guard_def
      unit_defs rep_defs ratio_defs cast_defs scale_value_def)

section \<open>Compound assignment\<close>

lemma bind_res_no_return:
  assumes "\<And>x. f x \<noteq> Inr r"
  shows "bind_res m f \<noteq> Inr r"
  by (cases m) (simp_all add: assms)

lemma end_of_body_no_return: "end_of_body s \<noteq> Inr r"
  by (simp add: end_of_body_def)

text \<open>
  C8 (the code departs from the claim). The claim says that every compound assignment
  updates the count and returns a reference to the updated quantity. No body has a
  return statement, so no call returns normally, whatever the operands; for example
  \<^verbatim>\<open>second<int64_t> s(3); s += second<int64_t>(2);\<close> adds the counts and then reaches
  the end of the function.
\<close>

theorem compound_assignment_no_return:
  "operator_plus_assign fp this u \<noteq> Inr r \<and>
   operator_minus_assign fp this u \<noteq> Inr r \<and>
   operator_times_assign fp this v \<noteq> Inr r \<and>
   operator_divide_assign fp this v \<noteq> Inr r \<and>
   operator_mod_assign fp this u \<noteq> Inr r \<and>
   operator_mod_assign_scalar fp this v \<noteq> Inr r \<and>
   operator_plus_assign exact_fp \<lparr>ty = second (Integral Int64) one, m_val = Int_val Int64 3\<rparr>
       \<lparr>ty = second (Integral Int64) one, m_val = Int_val Int64 2\<rparr>
     = Inl Flows_off_end"
proof (intro conjI)
  show "operator_plus_assign fp this u \<noteq> Inr r"
    unfolding operator_plus_assign_def assign_op_def
    by (intro bind_res_no_return end_of_body_no_return)
  show "operator_minus_assign fp this u \<noteq> Inr r"
    unfolding operator_minus_assign_def assign_op_def
    by (intro bind_res_no_return end_of_body_no_return)
  show "operator_times_assign fp this v \<noteq> Inr r"
    unfolding operator_times_assign_def assign_op_def
    by (intro bind_res_no_return end_of_body_no_return)
  show "operator_divide_assign fp this v \<noteq> Inr r"
    unfolding operator_divide_assign_def assign_op_def
    by (intro bind_res_no_return end_of_body_no_return)
  show "operator_mod_assign fp this u \<noteq> Inr r"
    unfolding operator_mod_assign_def assign_op_def
    by (intro bind_res_no_return end_of_body_no_return)
  show "operator_mod_assign_scalar fp this v \<noteq> Inr r"
    unfolding operator_mod_assign_scalar_def assign_op_def
    by (intro bind_res_no_return end_of_body_no_return)
  show "operator_plus_assign exact_fp
          \<lparr>ty = second (Integral Int64) one, m_val = Int_val Int64 3\<rparr>
          \<lparr>ty = second (Integral Int64) one, m_val = Int_val Int64 2\<rparr> = Inl Flows_off_end"
    by (simp add: operator_plus_assign_def assign_op_def as_operand_def int_arith_def rep_defs
        end_of_body_def second_def)
qed

section \<open>The duration bridge\<close>

lemma unit_cast_same_type:
  assumes "positive_scale (scale (ty u))" and "well_typed u"
    and "\<not> treat_as_floating_point (rep (ty u))"
  shows "unit_cast fp (ty u) u = Inr u"
proof -
  obtain r c where c: "m_val u = Int_val r c" "rep (ty u) = Integral r" "in_range r c"
    using assms(2,3) by (cases "m_val u") (auto simp: well_typed_def)
  have "unit_cast fp (ty u) u
      = Inr \<lparr>ty = ty u, m_val = Int_val r (convert r ((c * den (Ratio 1 1)) sdiv num (Ratio 1 1)))\<rparr>"
    using c in_range_intmax [of r c]
    by (intro unit_cast_integral [OF refl assms(1,1) ratio_divide_self [OF assms(1)]])
      (simp_all add: count_def)
  then show ?thesis using c by (simp add: in_range_convert_id)
qed

lemma operator_eq_refl:
  assumes "positive_scale (scale (ty u))" and "well_typed u"
    and "\<not> treat_as_floating_point (rep (ty u))"
  shows "operator_eq fp u u = Inr True"
proof -
  obtain r c where c: "m_val u = Int_val r c"
    using assms(2,3) by (cases "m_val u") (auto simp: well_typed_def)
  show ?thesis
    by (simp add: operator_eq_def common_type_def unit_cast_same_type [OF assms] count_def c)
qed

text \<open>
  C9. For a quantity of a duration-compatible tag, with an integral representation and a
  positive scale: converting it to the duration type of the same representation and
  period gives a duration with the same count, constructing a quantity of the original
  type from that duration gives the original quantity back, and the two compare equal.
\<close>

theorem duration_round_trip:
  assumes "is_duration_type (tag (ty u))" and "positive_scale (scale (ty u))"
    and "well_typed u" and "\<not> treat_as_floating_point (rep (ty u))"
  shows "to_duration fp \<lparr>d_rep = rep (ty u), period = scale (ty u)\<rparr> u
           = Inr \<lparr>d_ty = \<lparr>d_rep = rep (ty u), period = scale (ty u)\<rparr>, d_count = count u\<rparr> \<and>
         from_duration fp (ty u)
             \<lparr>d_ty = \<lparr>d_rep = rep (ty u), period = scale (ty u)\<rparr>, d_count = count u\<rparr>
           = Inr u \<and>
         bind_res (to_duration fp \<lparr>d_rep = rep (ty u), period = scale (ty u)\<rparr> u)
             (from_duration fp (ty u)) = Inr u \<and>
         operator_eq fp u u = Inr True"
proof -
  let ?D = "\<lparr>d_rep = rep (ty u), period = scale (ty u)\<rparr>"
  obtain r c where c: "m_val u = Int_val r c" "rep (ty u) = Integral r" "in_range r c"
    using assms(3,4) by (cases "m_val u") (auto simp: well_typed_def)
  have T: "\<lparr>tag = tag (ty u), rep = Integral r, scale = scale (ty u)\<rparr> = ty u"
    by (simp add: c(2) [symmetric])
  have td: "to_duration fp ?D u = Inr \<lparr>d_ty = ?D, d_count = count u\<rparr>"
    using assms(1) c
    by (simp add: to_duration_def T unit_cast_same_type [OF assms(2,3,4)] in_range_convert_id
        count_def)
  have fd: "from_duration fp (ty u) \<lparr>d_ty = ?D, d_count = count u\<rparr> = Inr u"
    using assms(1) c
    by (simp add: from_duration_def from_duration_available_def narrowing_guard_def
        duration_cast_def Let_def ratio_divide_self [OF assms(2)] in_range_convert_id count_def)
  show ?thesis
    using td fd operator_eq_refl [OF assms(2,3,4)] by simp
qed

text \<open>\<^verbatim>\<open>second<int64_t>(5)\<close> survives the round trip.\<close>

theorem duration_round_trip_witness:
  "to_duration exact_fp \<lparr>d_rep = Integral Int64, period = one\<rparr>
       \<lparr>ty = second (Integral Int64) one, m_val = Int_val Int64 5\<rparr>
     = Inr \<lparr>d_ty = \<lparr>d_rep = Integral Int64, period = one\<rparr>, d_count = Int_val Int64 5\<rparr> \<and>
   from_duration exact_fp (second (Integral Int64) one)
       \<lparr>d_ty = \<lparr>d_rep = Integral Int64, period = one\<rparr>, d_count = Int_val Int64 5\<rparr>
     = Inr \<lparr>ty = second (Integral Int64) one, m_val = Int_val Int64 5\<rparr> \<and>
   operator_eq exact_fp \<lparr>ty = second (Integral Int64) one, m_val = Int_val Int64 5\<rparr>
       \<lparr>ty = second (Integral Int64) one, m_val = Int_val Int64 5\<rparr> = Inr True"
proof -
  let ?u = "\<lparr>ty = second (Integral Int64) one, m_val = Int_val Int64 5 :: rat number\<rparr>"
  have h1: "is_duration_type (tag (ty ?u))" by (simp add: second_def second_t_def)
  have h2: "positive_scale (scale (ty ?u))" by (simp add: unit_defs positive_scale_def)
  have h3: "well_typed ?u" by (simp add: second_def well_typed_def in_range_def lowest_def)
  have h4: "\<not> treat_as_floating_point (rep (ty ?u))" by (simp add: second_def)
  show ?thesis
    using duration_round_trip [OF h1 h2 h3 h4, of exact_fp]
    by (simp add: second_def count_def)
qed

section \<open>Products and quotients\<close>

lemma well_typed_type_of: "well_typed u \<Longrightarrow> type_of (count u) = rep (ty u)"
  by (cases "m_val u") (simp_all add: well_typed_def count_def)

lemma well_typed_in_range: "well_typed u \<Longrightarrow> count u = Int_val r c \<Longrightarrow> in_range r c"
  by (simp add: well_typed_def count_def)

lemma common_type_t_commute: "common_type_t r1 r2 = common_type_t r2 r1"
proof -
  have "fp_wider a b = fp_wider b a" for a b
    by (cases a; cases b) (simp_all add: fp_wider_def)
  then show ?thesis
    by (cases r1; cases r2) (auto simp: common_type_t_def arith_type_commute)
qed

lemma common_floating_arith:
  "common_type_t r1 r2 = Floating K \<Longrightarrow> arith_rep r1 r2 = Floating K"
  by (cases r1; cases r2) (auto simp: common_type_t_def fp_wider_def split: if_splits)

lemma common_integral_arith:
  assumes "common_type_t (Integral r1) (Integral r2) = Integral r" "in_range r x"
  shows "in_range (arith_type r1 r2) x"
  using assms in_range_promote [of r1 x]
  by (cases "r1 = r2") (simp_all add: common_type_t_def)

lemma SU_MUL_lookup:
  assumes "SU_MUL A B C t = Some t'"
  shows "mul_type t' A B = Some C" and "mul_type t' B A = Some C"
    and "div_type t' C A = Some B" and "div_type t' C B = Some A"
  using assms by (auto simp: SU_MUL_def mul_type_def div_type_def split: if_splits)

lemma ratio_multiply_value:
  assumes "positive_scale A" "positive_scale B" "ratio_multiply A B = Some S"
  shows "scale_value S = scale_value A * scale_value B"
  using ratio_multiply_Some(4,5) [OF assms] by (simp add: scale_value_num_den)

lemma ratio_divide_value:
  assumes "positive_scale A" "positive_scale B" "ratio_divide A B = Some S"
  shows "scale_value S = scale_value A / scale_value B"
  using ratio_divide_Some(6,7) [OF assms] by (simp add: scale_value_num_den)

text \<open>The product of two counts, stored in the common type of the representations.\<close>

lemma product_integral:
  assumes "well_typed a" "well_typed b"
    and "common_type_t (rep (ty a)) (rep (ty b)) = Integral r"
    and "count a = Int_val ra ca" "count b = Int_val rb cb"
    and "in_range r (ca * cb)"
  shows "bind_res (arith fp Mul (count a) (count b)) (convert_to fp (Integral r))
           = Inr (Int_val r (ca * cb))"
proof -
  have t: "rep (ty a) = Integral ra" "rep (ty b) = Integral rb"
    using well_typed_type_of [OF assms(1)] well_typed_type_of [OF assms(2)] assms(4,5)
    by simp_all
  have "in_range (arith_type ra rb) (ca * cb)"
    using assms(3,6) t by (intro common_integral_arith [of ra rb r]) simp_all
  moreover have "is_signed (arith_type ra rb) \<Longrightarrow>
      in_range (arith_type ra rb) ca \<and> in_range (arith_type ra rb) cb"
    using well_typed_in_range [OF assms(1,4)] well_typed_in_range [OF assms(2,5)]
      in_range_signed_arith [of ra rb ca] in_range_signed_arith [of rb ra cb]
    by (simp add: arith_type_commute)
  ultimately have "int_arith (arith_type ra rb) Mul ca cb = Inr (ca * cb)"
    using int_arith_exact [of Mul "arith_type ra rb" ca cb] by simp
  then show ?thesis using assms(4,5,6) by (simp add: in_range_convert_id)
qed

lemma operator_mul_floating:
  assumes "mul_type t (tag (ty a)) (tag (ty b)) = Some C" "C \<noteq> Void"
    and "ratio_multiply (scale (ty a)) (scale (ty b)) = Some S"
    and "well_typed a" "well_typed b"
    and "common_type_t (rep (ty a)) (rep (ty b)) = Floating K"
  shows "operator_mul fp t a b =
           Inr (Quantity \<lparr>ty = \<lparr>tag = C, rep = Floating K, scale = S\<rparr>,
                  m_val = Fp_val K (fp_mul fp K (as_fp fp K (count a)) (as_fp fp K (count b)))\<rparr>)"
proof -
  have "arith_rep (type_of (count a)) (type_of (count b)) = Floating K"
    using assms(4-6) by (simp add: well_typed_type_of common_floating_arith)
  then show ?thesis
    using assms(1,2,3,6)
    by (simp add: operator_mul_def arith_fp raw_ctor_def raw_ctor_available_def)
qed

lemma operator_mul_integral:
  assumes "mul_type t (tag (ty a)) (tag (ty b)) = Some C" "C \<noteq> Void"
    and "ratio_multiply (scale (ty a)) (scale (ty b)) = Some S"
    and "well_typed a" "well_typed b"
    and "common_type_t (rep (ty a)) (rep (ty b)) = Integral r"
    and "count a = Int_val ra ca" "count b = Int_val rb cb"
    and "in_range r (ca * cb)"
  shows "operator_mul fp t a b =
           Inr (Quantity \<lparr>ty = \<lparr>tag = C, rep = Integral r, scale = S\<rparr>,
                  m_val = Int_val r (ca * cb)\<rparr>)"
proof -
  note p = product_integral [OF assms(4-9), of fp]
  have "operator_mul fp t a b =
      bind_res (bind_res (arith fp Mul (count a) (count b)) (convert_to fp (Integral r)))
        (\<lambda>v. bind_res (raw_ctor fp \<lparr>tag = C, rep = Integral r, scale = S\<rparr> v)
                (\<lambda>u. Inr (Quantity u)))"
    using assms(1,2,3,6) by (simp add: operator_mul_def bind_res_def split: sum.splits)
  then show ?thesis
    using assms(9) by (simp add: p raw_ctor_def raw_ctor_available_def in_range_convert_id)
qed

lemma operator_div_floating:
  assumes "div_type t (tag (ty c)) (tag (ty a)) = Some B" "B \<noteq> Void"
    and "ratio_divide (scale (ty c)) (scale (ty a)) = Some S"
    and "well_typed c" "well_typed a"
    and "common_type_t (rep (ty c)) (rep (ty a)) = Floating K"
  shows "operator_div fp t c a =
           Inr (Quantity \<lparr>ty = \<lparr>tag = B, rep = Floating K, scale = S\<rparr>,
                  m_val = Fp_val K (fp_div fp K (as_fp fp K (count c)) (as_fp fp K (count a)))\<rparr>)"
proof -
  have "arith_rep (type_of (count c)) (type_of (count a)) = Floating K"
    using assms(4-6) by (simp add: well_typed_type_of common_floating_arith)
  then show ?thesis
    using assms(1,2,3,6)
    by (simp add: operator_div_def arith_fp raw_ctor_def raw_ctor_available_def)
qed

lemma operator_div_integral:
  assumes "div_type t (tag (ty c)) (tag (ty a)) = Some B" "B \<noteq> Void"
    and "ratio_divide (scale (ty c)) (scale (ty a)) = Some S"
    and "well_typed c" "well_typed a"
    and "common_type_t (rep (ty c)) (rep (ty a)) = Integral r"
    and "count c = Int_val rc cc" "count a = Int_val ra ca"
    and "ca \<noteq> 0" "in_range r cc" "in_range r ca" "in_range r (cc sdiv ca)"
  shows "operator_div fp t c a =
           Inr (Quantity \<lparr>ty = \<lparr>tag = B, rep = Integral r, scale = S\<rparr>,
                  m_val = Int_val r (cc sdiv ca)\<rparr>)"
proof -
  have t: "rep (ty c) = Integral rc" "rep (ty a) = Integral ra"
    using well_typed_type_of [OF assms(4)] well_typed_type_of [OF assms(5)] assms(7,8)
    by simp_all
  have ct: "common_type_t (Integral rc) (Integral ra) = Integral r" using assms(6) t by simp
  have "int_arith (arith_type rc ra) Div cc ca = Inr (cc sdiv ca)"
    using assms(9-12) by (intro int_arith_div common_integral_arith [OF ct]) simp_all
  then show ?thesis
    using assms(1,2,3,6,7,8,12)
    by (simp add: operator_div_def raw_ctor_def raw_ctor_available_def in_range_convert_id)
qed

lemma example_ops_declared: "SU_MUL second_t watt_t joule_t header_ops = Some example_ops"
  by (simp add: example_ops_def SU_MUL_def header_ops_def unit_defs)

lemmas ops_defs = example_ops_def test_ops_def SU_MUL_def SU_INV_def SU_DIV_def header_ops_def
  mul_type_def div_type_def

text \<open>
  C6 (amended). After one declaration \<^verbatim>\<open>SU_MUL(A, B, C)\<close> with \<open>A\<close>, \<open>B\<close> and \<open>C\<close>
  other than \<^verbatim>\<open>void\<close> the four relations \<open>A * B = C\<close>, \<open>B * A = C\<close>, \<open>C / A = B\<close> and
  \<open>C / B = A\<close> exist. Let \<open>a\<close>, \<open>b\<close> and \<open>c\<close> have the tags \<open>A\<close>, \<open>B\<close> and \<open>C\<close>
  and positive scales. Where the product of the scales of \<open>a\<close> and \<open>b\<close> is a
  well-formed \<^verbatim>\<open>std::ratio\<close> \<open>S\<close>, \<open>a * b\<close> and \<open>b * a\<close> are quantities of tag \<open>C\<close>,
  scale \<open>S\<close> and the common type of the two representations: if that is floating,
  their count is the product of the counts in its arithmetic; if it is integral and the
  product of the counts is representable in it, their count is that product and their
  physical value is the product of the physical values. Where the scale of \<open>c\<close> over
  the scale of \<open>a\<close> is a well-formed \<^verbatim>\<open>std::ratio\<close>, \<open>c / a\<close> is a quantity of tag
  \<open>B\<close> with that scale: if the common type of the representations is floating, its
  count is the quotient of the counts in its arithmetic; if it is integral, the divisor
  is not zero and both counts and their truncated quotient are representable in it, its
  count is that quotient. Likewise \<open>c / b\<close> is a quantity of tag \<open>A\<close>.
\<close>

theorem declared_product_relation:
  assumes "SU_MUL A B C t = Some t'"
    and "A \<noteq> Void" and "B \<noteq> Void" and "C \<noteq> Void"
    and "tag (ty a) = A" and "tag (ty b) = B" and "tag (ty c) = C"
    and "positive_scale (scale (ty a))" and "positive_scale (scale (ty b))"
    and "positive_scale (scale (ty c))"
    and "well_typed a" and "well_typed b" and "well_typed c"
  shows "mul_type t' A B = Some C \<and> mul_type t' B A = Some C \<and>
         div_type t' C A = Some B \<and> div_type t' C B = Some A \<and>
         (ratio_multiply (scale (ty a)) (scale (ty b)) = Some S \<longrightarrow>
            scale_value S = scale_value (scale (ty a)) * scale_value (scale (ty b)) \<and>
            (\<forall>K. common_type_t (rep (ty a)) (rep (ty b)) = Floating K \<longrightarrow>
               operator_mul fp t' a b =
                 Inr (Quantity \<lparr>ty = \<lparr>tag = C, rep = Floating K, scale = S\<rparr>,
                   m_val = Fp_val K
                     (fp_mul fp K (as_fp fp K (count a)) (as_fp fp K (count b)))\<rparr>) \<and>
               operator_mul fp t' b a =
                 Inr (Quantity \<lparr>ty = \<lparr>tag = C, rep = Floating K, scale = S\<rparr>,
                   m_val = Fp_val K
                     (fp_mul fp K (as_fp fp K (count b)) (as_fp fp K (count a)))\<rparr>)) \<and>
            (\<forall>r ra rb ca cb.
               common_type_t (rep (ty a)) (rep (ty b)) = Integral r \<and>
               count a = Int_val ra ca \<and> count b = Int_val rb cb \<and> in_range r (ca * cb) \<longrightarrow>
               operator_mul fp t' a b =
                 Inr (Quantity \<lparr>ty = \<lparr>tag = C, rep = Integral r, scale = S\<rparr>,
                                m_val = Int_val r (ca * cb)\<rparr>) \<and>
               operator_mul fp t' b a =
                 Inr (Quantity \<lparr>ty = \<lparr>tag = C, rep = Integral r, scale = S\<rparr>,
                                m_val = Int_val r (ca * cb)\<rparr>) \<and>
               physical fp \<lparr>ty = \<lparr>tag = C, rep = Integral r, scale = S\<rparr>,
                            m_val = Int_val r (ca * cb)\<rparr>
                 = physical fp a * physical fp b)) \<and>
         (ratio_divide (scale (ty c)) (scale (ty a)) = Some Sa \<longrightarrow>
            scale_value Sa = scale_value (scale (ty c)) / scale_value (scale (ty a)) \<and>
            (\<forall>K. common_type_t (rep (ty c)) (rep (ty a)) = Floating K \<longrightarrow>
               operator_div fp t' c a =
                 Inr (Quantity \<lparr>ty = \<lparr>tag = B, rep = Floating K, scale = Sa\<rparr>,
                   m_val = Fp_val K
                     (fp_div fp K (as_fp fp K (count c)) (as_fp fp K (count a)))\<rparr>)) \<and>
            (\<forall>r rc ra cc ca.
               common_type_t (rep (ty c)) (rep (ty a)) = Integral r \<and>
               count c = Int_val rc cc \<and> count a = Int_val ra ca \<and> ca \<noteq> 0 \<and>
               in_range r cc \<and> in_range r ca \<and> in_range r (cc sdiv ca) \<longrightarrow>
               operator_div fp t' c a =
                 Inr (Quantity \<lparr>ty = \<lparr>tag = B, rep = Integral r, scale = Sa\<rparr>,
                                m_val = Int_val r (cc sdiv ca)\<rparr>))) \<and>
         (ratio_divide (scale (ty c)) (scale (ty b)) = Some Sb \<longrightarrow>
            scale_value Sb = scale_value (scale (ty c)) / scale_value (scale (ty b)) \<and>
            (\<forall>K. common_type_t (rep (ty c)) (rep (ty b)) = Floating K \<longrightarrow>
               operator_div fp t' c b =
                 Inr (Quantity \<lparr>ty = \<lparr>tag = A, rep = Floating K, scale = Sb\<rparr>,
                   m_val = Fp_val K
                     (fp_div fp K (as_fp fp K (count c)) (as_fp fp K (count b)))\<rparr>)) \<and>
            (\<forall>r rc rb cc cb.
               common_type_t (rep (ty c)) (rep (ty b)) = Integral r \<and>
               count c = Int_val rc cc \<and> count b = Int_val rb cb \<and> cb \<noteq> 0 \<and>
               in_range r cc \<and> in_range r cb \<and> in_range r (cc sdiv cb) \<longrightarrow>
               operator_div fp t' c b =
                 Inr (Quantity \<lparr>ty = \<lparr>tag = A, rep = Integral r, scale = Sb\<rparr>,
                                m_val = Int_val r (cc sdiv cb)\<rparr>)))"
proof -
  note l = SU_MUL_lookup [OF assms(1)]
  have ab: "mul_type t' (tag (ty a)) (tag (ty b)) = Some C"
    and ba: "mul_type t' (tag (ty b)) (tag (ty a)) = Some C"
    and ca: "div_type t' (tag (ty c)) (tag (ty a)) = Some B"
    and cb: "div_type t' (tag (ty c)) (tag (ty b)) = Some A"
    using l assms(5-7) by simp_all
  have m: "scale_value S = scale_value (scale (ty a)) * scale_value (scale (ty b)) \<and>
      (\<forall>K. common_type_t (rep (ty a)) (rep (ty b)) = Floating K \<longrightarrow>
         operator_mul fp t' a b =
           Inr (Quantity \<lparr>ty = \<lparr>tag = C, rep = Floating K, scale = S\<rparr>,
             m_val = Fp_val K (fp_mul fp K (as_fp fp K (count a)) (as_fp fp K (count b)))\<rparr>) \<and>
         operator_mul fp t' b a =
           Inr (Quantity \<lparr>ty = \<lparr>tag = C, rep = Floating K, scale = S\<rparr>,
             m_val = Fp_val K (fp_mul fp K (as_fp fp K (count b)) (as_fp fp K (count a)))\<rparr>)) \<and>
      (\<forall>r ra rb ca cb.
         common_type_t (rep (ty a)) (rep (ty b)) = Integral r \<and>
         count a = Int_val ra ca \<and> count b = Int_val rb cb \<and> in_range r (ca * cb) \<longrightarrow>
         operator_mul fp t' a b =
           Inr (Quantity \<lparr>ty = \<lparr>tag = C, rep = Integral r, scale = S\<rparr>,
                          m_val = Int_val r (ca * cb)\<rparr>) \<and>
         operator_mul fp t' b a =
           Inr (Quantity \<lparr>ty = \<lparr>tag = C, rep = Integral r, scale = S\<rparr>,
                          m_val = Int_val r (ca * cb)\<rparr>) \<and>
         physical fp \<lparr>ty = \<lparr>tag = C, rep = Integral r, scale = S\<rparr>,
                      m_val = Int_val r (ca * cb)\<rparr>
           = physical fp a * physical fp b)"
    if S: "ratio_multiply (scale (ty a)) (scale (ty b)) = Some S"
  proof -
    have S': "ratio_multiply (scale (ty b)) (scale (ty a)) = Some S"
      using S by (simp add: ratio_multiply_commute)
    have v: "scale_value S = scale_value (scale (ty a)) * scale_value (scale (ty b))"
      by (rule ratio_multiply_value [OF assms(8,9) S])
    have f: "operator_mul fp t' a b =
           Inr (Quantity \<lparr>ty = \<lparr>tag = C, rep = Floating K, scale = S\<rparr>,
             m_val = Fp_val K (fp_mul fp K (as_fp fp K (count a)) (as_fp fp K (count b)))\<rparr>) \<and>
         operator_mul fp t' b a =
           Inr (Quantity \<lparr>ty = \<lparr>tag = C, rep = Floating K, scale = S\<rparr>,
             m_val = Fp_val K (fp_mul fp K (as_fp fp K (count b)) (as_fp fp K (count a)))\<rparr>)"
      if "common_type_t (rep (ty a)) (rep (ty b)) = Floating K" for K
      using operator_mul_floating [OF ab assms(4) S assms(11,12) that, of fp]
        operator_mul_floating [OF ba assms(4) S' assms(12,11), of K fp] that
      by (simp add: common_type_t_commute)
    have i: "operator_mul fp t' a b =
           Inr (Quantity \<lparr>ty = \<lparr>tag = C, rep = Integral r, scale = S\<rparr>,
                          m_val = Int_val r (ca * cb)\<rparr>) \<and>
         operator_mul fp t' b a =
           Inr (Quantity \<lparr>ty = \<lparr>tag = C, rep = Integral r, scale = S\<rparr>,
                          m_val = Int_val r (ca * cb)\<rparr>) \<and>
         physical fp \<lparr>ty = \<lparr>tag = C, rep = Integral r, scale = S\<rparr>,
                      m_val = Int_val r (ca * cb)\<rparr>
           = physical fp a * physical fp b"
      if "common_type_t (rep (ty a)) (rep (ty b)) = Integral r"
        "count a = Int_val ra ca" "count b = Int_val rb cb" "in_range r (ca * cb)"
      for r ra rb ca cb
    proof -
      have r': "common_type_t (rep (ty b)) (rep (ty a)) = Integral r"
        using that(1) by (simp add: common_type_t_commute)
      have r'': "in_range r (cb * ca)" using that(4) by (simp add: mult.commute)
      have "physical fp \<lparr>ty = \<lparr>tag = C, rep = Integral r, scale = S\<rparr>,
                      m_val = Int_val r (ca * cb)\<rparr> = physical fp a * physical fp b"
        using that(2,3) by (simp add: physical_def count_def v)
      then show ?thesis
        using operator_mul_integral [OF ab assms(4) S assms(11,12) that, of fp]
          operator_mul_integral [OF ba assms(4) S' assms(12,11) r' that(3,2) r'', of fp]
        by (simp add: mult.commute)
    qed
    show ?thesis using v f i by blast
  qed
  have d1: "scale_value Sa = scale_value (scale (ty c)) / scale_value (scale (ty a)) \<and>
      (\<forall>K. common_type_t (rep (ty c)) (rep (ty a)) = Floating K \<longrightarrow>
         operator_div fp t' c a =
           Inr (Quantity \<lparr>ty = \<lparr>tag = B, rep = Floating K, scale = Sa\<rparr>,
             m_val = Fp_val K (fp_div fp K (as_fp fp K (count c)) (as_fp fp K (count a)))\<rparr>)) \<and>
      (\<forall>r rc ra cc ca.
         common_type_t (rep (ty c)) (rep (ty a)) = Integral r \<and>
         count c = Int_val rc cc \<and> count a = Int_val ra ca \<and> ca \<noteq> 0 \<and>
         in_range r cc \<and> in_range r ca \<and> in_range r (cc sdiv ca) \<longrightarrow>
         operator_div fp t' c a =
           Inr (Quantity \<lparr>ty = \<lparr>tag = B, rep = Integral r, scale = Sa\<rparr>,
                          m_val = Int_val r (cc sdiv ca)\<rparr>))"
    if S: "ratio_divide (scale (ty c)) (scale (ty a)) = Some Sa"
    using ratio_divide_value [OF assms(10,8) S]
      operator_div_floating [OF ca assms(3) S assms(13,11), of _ fp]
      operator_div_integral [OF ca assms(3) S assms(13,11), of _ _ _ _ _ fp]
    by blast
  have d2: "scale_value Sb = scale_value (scale (ty c)) / scale_value (scale (ty b)) \<and>
      (\<forall>K. common_type_t (rep (ty c)) (rep (ty b)) = Floating K \<longrightarrow>
         operator_div fp t' c b =
           Inr (Quantity \<lparr>ty = \<lparr>tag = A, rep = Floating K, scale = Sb\<rparr>,
             m_val = Fp_val K (fp_div fp K (as_fp fp K (count c)) (as_fp fp K (count b)))\<rparr>)) \<and>
      (\<forall>r rc rb cc cb.
         common_type_t (rep (ty c)) (rep (ty b)) = Integral r \<and>
         count c = Int_val rc cc \<and> count b = Int_val rb cb \<and> cb \<noteq> 0 \<and>
         in_range r cc \<and> in_range r cb \<and> in_range r (cc sdiv cb) \<longrightarrow>
         operator_div fp t' c b =
           Inr (Quantity \<lparr>ty = \<lparr>tag = A, rep = Integral r, scale = Sb\<rparr>,
                          m_val = Int_val r (cc sdiv cb)\<rparr>))"
    if S: "ratio_divide (scale (ty c)) (scale (ty b)) = Some Sb"
    using ratio_divide_value [OF assms(10,9) S]
      operator_div_floating [OF cb assms(2) S assms(13,12), of _ fp]
      operator_div_integral [OF cb assms(2) S assms(13,12), of _ _ _ _ _ fp]
    by blast
  show ?thesis using l m d1 d2 by blast
qed

text \<open>
  Three kiloseconds times two milliwatts are six joules, in either order, and 6000 joules
  divide into 2000 milliwatts and 3000 seconds; with a \<^verbatim>\<open>double\<close> count, four seconds
  times 2.5 watts are ten joules, which divide back into 2.5 watts.
\<close>

theorem declared_product_relation_witness:
  "SU_MUL second_t watt_t joule_t header_ops = Some example_ops \<and>
   operator_mul exact_fp example_ops
       \<lparr>ty = second (Integral Int64) kilo, m_val = Int_val Int64 3\<rparr>
       \<lparr>ty = watt (Integral Int64) milli, m_val = Int_val Int64 2\<rparr>
     = Inr (Quantity \<lparr>ty = joule (Integral Int64) (Ratio 1 1), m_val = Int_val Int64 6\<rparr>) \<and>
   operator_mul exact_fp example_ops
       \<lparr>ty = watt (Integral Int64) milli, m_val = Int_val Int64 2\<rparr>
       \<lparr>ty = second (Integral Int64) kilo, m_val = Int_val Int64 3\<rparr>
     = Inr (Quantity \<lparr>ty = joule (Integral Int64) (Ratio 1 1), m_val = Int_val Int64 6\<rparr>) \<and>
   physical exact_fp \<lparr>ty = joule (Integral Int64) (Ratio 1 1), m_val = Int_val Int64 6\<rparr>
     = physical exact_fp \<lparr>ty = second (Integral Int64) kilo, m_val = Int_val Int64 3\<rparr>
       * physical exact_fp \<lparr>ty = watt (Integral Int64) milli, m_val = Int_val Int64 2\<rparr> \<and>
   operator_div exact_fp example_ops
       \<lparr>ty = joule (Integral Int64) one, m_val = Int_val Int64 6000\<rparr>
       \<lparr>ty = second (Integral Int64) kilo, m_val = Int_val Int64 3\<rparr>
     = Inr (Quantity \<lparr>ty = watt (Integral Int64) (Ratio 1 1000), m_val = Int_val Int64 2000\<rparr>) \<and>
   operator_div exact_fp example_ops
       \<lparr>ty = joule (Integral Int64) one, m_val = Int_val Int64 6000\<rparr>
       \<lparr>ty = watt (Integral Int64) milli, m_val = Int_val Int64 2\<rparr>
     = Inr (Quantity \<lparr>ty = second (Integral Int64) (Ratio 1000 1), m_val = Int_val Int64 3000\<rparr>) \<and>
   operator_mul exact_fp example_ops
       \<lparr>ty = second (Integral Int64) one, m_val = Int_val Int64 4\<rparr>
       \<lparr>ty = watt (Floating Double) one, m_val = Fp_val Double (5 / 2)\<rparr>
     = Inr (Quantity \<lparr>ty = joule (Floating Double) (Ratio 1 1), m_val = Fp_val Double 10\<rparr>) \<and>
   operator_div exact_fp example_ops
       \<lparr>ty = joule (Floating Double) one, m_val = Fp_val Double 10\<rparr>
       \<lparr>ty = second (Integral Int64) one, m_val = Int_val Int64 4\<rparr>
     = Inr (Quantity \<lparr>ty = watt (Floating Double) (Ratio 1 1), m_val = Fp_val Double (5 / 2)\<rparr>)"
proof -
  let ?a = "\<lparr>ty = second (Integral Int64) kilo, m_val = Int_val Int64 3 :: rat number\<rparr>"
  let ?b = "\<lparr>ty = watt (Integral Int64) milli, m_val = Int_val Int64 2 :: rat number\<rparr>"
  let ?c = "\<lparr>ty = joule (Integral Int64) one, m_val = Int_val Int64 6000 :: rat number\<rparr>"
  let ?d = "\<lparr>ty = second (Integral Int64) one, m_val = Int_val Int64 4 :: rat number\<rparr>"
  let ?e = "\<lparr>ty = watt (Floating Double) one, m_val = Fp_val Double (5 / 2 :: rat)\<rparr>"
  let ?f = "\<lparr>ty = joule (Floating Double) one, m_val = Fp_val Double (10 :: rat)\<rparr>"
  have t: "second_t \<noteq> Void" "watt_t \<noteq> Void" "joule_t \<noteq> Void"
    by (simp_all add: unit_defs)
  have g: "tag (ty ?a) = second_t" "tag (ty ?b) = watt_t" "tag (ty ?c) = joule_t"
    and g': "tag (ty ?d) = second_t" "tag (ty ?e) = watt_t" "tag (ty ?f) = joule_t"
    by (simp_all add: second_def watt_def joule_def)
  have w: "well_typed ?a" "well_typed ?b" "well_typed ?c"
    and w': "well_typed ?d" "well_typed ?e" "well_typed ?f"
    by (simp_all add: well_typed_def unit_defs rep_defs)
  have p: "positive_scale (scale (ty ?a))" "positive_scale (scale (ty ?b))"
    "positive_scale (scale (ty ?c))"
    and p': "positive_scale (scale (ty ?d))" "positive_scale (scale (ty ?e))"
    "positive_scale (scale (ty ?f))"
    by (simp_all add: unit_defs positive_scale_def)
  have r: "ratio_multiply (scale (ty ?a)) (scale (ty ?b)) = Some (Ratio 1 1)"
    "ratio_divide (scale (ty ?c)) (scale (ty ?a)) = Some (Ratio 1 1000)"
    "ratio_divide (scale (ty ?c)) (scale (ty ?b)) = Some (Ratio 1000 1)"
    and r': "ratio_multiply (scale (ty ?d)) (scale (ty ?e)) = Some (Ratio 1 1)"
    "ratio_divide (scale (ty ?f)) (scale (ty ?d)) = Some (Ratio 1 1)"
    by (simp_all add: unit_defs ratio_defs)
  note i1 = declared_product_relation [OF example_ops_declared t(1,2,3) g p w, of
      "Ratio 1 1" exact_fp "Ratio 1 1000" "Ratio 1000 1"]
  note i2 = declared_product_relation [OF example_ops_declared t(1,2,3) g' p' w', of
      "Ratio 1 1" exact_fp "Ratio 1 1" "Ratio 1 1"]
  have "operator_mul exact_fp example_ops ?a ?b
       = Inr (Quantity \<lparr>ty = joule (Integral Int64) (Ratio 1 1), m_val = Int_val Int64 6\<rparr>) \<and>
     operator_mul exact_fp example_ops ?b ?a
       = Inr (Quantity \<lparr>ty = joule (Integral Int64) (Ratio 1 1), m_val = Int_val Int64 6\<rparr>) \<and>
     physical exact_fp \<lparr>ty = joule (Integral Int64) (Ratio 1 1), m_val = Int_val Int64 6\<rparr>
       = physical exact_fp ?a * physical exact_fp ?b \<and>
     operator_div exact_fp example_ops ?c ?a
       = Inr (Quantity \<lparr>ty = watt (Integral Int64) (Ratio 1 1000),
                        m_val = Int_val Int64 2000\<rparr>) \<and>
     operator_div exact_fp example_ops ?c ?b
       = Inr (Quantity \<lparr>ty = second (Integral Int64) (Ratio 1000 1),
                        m_val = Int_val Int64 3000\<rparr>)"
    using i1 r by (simp add: second_def watt_def joule_def count_def rep_defs)
  moreover have "operator_mul exact_fp example_ops ?d ?e
       = Inr (Quantity \<lparr>ty = joule (Floating Double) (Ratio 1 1), m_val = Fp_val Double 10\<rparr>) \<and>
     operator_div exact_fp example_ops ?f ?d
       = Inr (Quantity \<lparr>ty = watt (Floating Double) (Ratio 1 1),
                        m_val = Fp_val Double (5 / 2)\<rparr>)"
    using i2 r' by (simp add: second_def watt_def joule_def count_def rep_defs exact_fp_def)
  ultimately show ?thesis using example_ops_declared by simp
qed

text \<open>
  The claim as stated fails where the product of the counts does not fit the promoted
  representation: with \<^verbatim>\<open>int16_t\<close> counts, 300 s times 300 W is 24464 J. It fails where
  the product of the scales does not fit \<^verbatim>\<open>intmax_t\<close>: exaseconds times exawatts. The
  quotient of the counts is converted to the promoted representation: \<open>-32768\<close> J by
  \<open>-1\<close> s in \<^verbatim>\<open>int16_t\<close> is \<open>-32768\<close> W; in \<^verbatim>\<open>int64_t\<close> the least count by \<open>-1\<close>
  overflows, and a zero divisor is undefined. In an unsigned promoted representation a
  negative count is not kept: \<open>-1\<close> J in \<^verbatim>\<open>int32_t\<close> by 2 s in \<^verbatim>\<open>uint32_t\<close> is
  2147483647 W. And a declared product that is \<^verbatim>\<open>void\<close> is a plain number.
\<close>

theorem product_wraps_counterexample:
  "operator_mul exact_fp example_ops
       \<lparr>ty = second (Integral Int16) one, m_val = Int_val Int16 300\<rparr>
       \<lparr>ty = watt (Integral Int16) one, m_val = Int_val Int16 300\<rparr>
     = Inr (Quantity \<lparr>ty = joule (Integral Int16) (Ratio 1 1), m_val = Int_val Int16 24464\<rparr>) \<and>
   physical exact_fp \<lparr>ty = joule (Integral Int16) (Ratio 1 1), m_val = Int_val Int16 24464\<rparr>
     = 24464 \<and>
   physical exact_fp \<lparr>ty = second (Integral Int16) one, m_val = Int_val Int16 300\<rparr>
     * physical exact_fp \<lparr>ty = watt (Integral Int16) one, m_val = Int_val Int16 300\<rparr>
     = 90000 \<and>
   operator_mul exact_fp example_ops
       \<lparr>ty = second (Integral Int64) exa, m_val = Int_val Int64 1\<rparr>
       \<lparr>ty = watt (Integral Int64) exa, m_val = Int_val Int64 1\<rparr>
     = Inl Ill_formed \<and>
   operator_div exact_fp example_ops
       \<lparr>ty = joule (Integral Int16) one, m_val = Int_val Int16 (- 32768)\<rparr>
       \<lparr>ty = second (Integral Int16) one, m_val = Int_val Int16 (- 1)\<rparr>
     = Inr (Quantity \<lparr>ty = watt (Integral Int16) (Ratio 1 1),
                      m_val = Int_val Int16 (- 32768)\<rparr>) \<and>
   (- 32768) sdiv (- 1) = (32768 :: int) \<and>
   operator_div exact_fp example_ops
       \<lparr>ty = joule (Integral Int64) one, m_val = Int_val Int64 (- 9223372036854775808)\<rparr>
       \<lparr>ty = second (Integral Int64) one, m_val = Int_val Int64 (- 1)\<rparr>
     = Inl Signed_overflow \<and>
   operator_div exact_fp example_ops
       \<lparr>ty = joule (Integral Int64) one, m_val = Int_val Int64 6\<rparr>
       \<lparr>ty = second (Integral Int64) one, m_val = Int_val Int64 0\<rparr>
     = Inl Division_by_zero \<and>
   operator_div exact_fp example_ops
       \<lparr>ty = joule (Integral Int32) one, m_val = Int_val Int32 (- 1)\<rparr>
       \<lparr>ty = second (Integral UInt32) one, m_val = Int_val UInt32 2\<rparr>
     = Inr (Quantity \<lparr>ty = watt (Integral UInt32) (Ratio 1 1),
                      m_val = Int_val UInt32 2147483647\<rparr>) \<and>
   (- 1) sdiv 2 = (0 :: int) \<and>
   SU_INV second_t hz_t header_ops \<noteq> None \<and>
   operator_mul exact_fp (the (SU_INV second_t hz_t header_ops))
       \<lparr>ty = second (Integral Int64) one, m_val = Int_val Int64 3\<rparr>
       \<lparr>ty = hz (Integral Int64) one, m_val = Int_val Int64 2\<rparr>
     = Inr (Plain (Int_val Int64 6))"
  by (simp add: operator_mul_def operator_div_def ops_defs unit_defs rep_defs ratio_defs
      cast_defs physical_def scale_value_def signed_divide_int_def)

section \<open>Dimensionless results\<close>

lemma arith_type_result:
  assumes "common_type_t (Integral ra) (Integral rb) = Integral r"
  shows "arith_type r (arith_type Int64 rb) = arith_type r Int64"
  using assms
  by (cases ra; cases rb) (auto simp: common_type_t_def arith_type_def promote_def)

lemma intmax_operand:
  assumes "common_type_t (Integral ra) (Integral rb) = Integral r"
    and "in_range Int64 x" "in_range r x"
  shows "in_range (arith_type Int64 ra) x"
  using assms by (cases ra; cases rb) (auto simp: rep_defs split: if_splits)

lemma intmax_operand_right:
  assumes "common_type_t (Integral ra) (Integral rb) = Integral r"
    and "in_range Int64 y" "in_range (arith_type r Int64) y"
  shows "in_range (arith_type Int64 rb) y"
  using assms by (cases ra; cases rb) (auto simp: rep_defs split: if_splits)

lemma in_range_intmax_signed:
  "in_range ra c \<Longrightarrow> is_signed (arith_type Int64 ra) \<Longrightarrow> in_range (arith_type Int64 ra) c"
  by (cases ra) (auto simp: rep_defs)

lemma representable_in_range:
  "0 < n \<Longrightarrow> representable n \<Longrightarrow> in_range (arith_type Int64 ra) n"
  by (cases ra) (auto simp: rep_defs representable_def intmax_max_def)

text \<open>A scale factor times a count, as the built-in multiplication computes it.\<close>

lemma factor_times_count:
  assumes "0 < k" "representable k" "in_range ra c"
    and "in_range (arith_type Int64 ra) (k * c)"
  shows "arith fp Mul (Int_val Int64 k) (Int_val ra c)
           = Inr (Int_val (arith_type Int64 ra) (k * c))"
proof -
  have "int_arith (arith_type Int64 ra) Mul k c = Inr (k * c)"
    using int_arith_exact [of Mul "arith_type Int64 ra" k c] assms
      representable_in_range [of k ra] in_range_intmax_signed [of ra c]
    by simp
  then show ?thesis by simp
qed

lemma operator_mul_number_floating:
  assumes "mul_type t (tag (ty a)) (tag (ty b)) = Some Void"
    and "ratio_multiply (scale (ty a)) (scale (ty b)) = Some S"
    and "well_typed a" "well_typed b"
    and "common_type_t (rep (ty a)) (rep (ty b)) = Floating K"
  shows "operator_mul fp t a b =
           Inr (Plain (Fp_val K (fp_div fp K
             (fp_mul fp K
                (fp_mul fp K (as_fp fp K (count a)) (as_fp fp K (count b)))
                (fp_of_int fp K (num S)))
             (fp_of_int fp K (den S)))))"
proof -
  have "arith_rep (type_of (count a)) (type_of (count b)) = Floating K"
    using assms(3-5) by (simp add: well_typed_type_of common_floating_arith)
  then show ?thesis
    using assms(1,2,5) by (simp add: operator_mul_def arith_fp)
qed

lemma operator_mul_number_integral:
  assumes "mul_type t (tag (ty a)) (tag (ty b)) = Some Void"
    and "positive_scale (scale (ty a))" "positive_scale (scale (ty b))"
    and "ratio_multiply (scale (ty a)) (scale (ty b)) = Some S"
    and "well_typed a" "well_typed b"
    and "common_type_t (rep (ty a)) (rep (ty b)) = Integral r"
    and "count a = Int_val ra ca" "count b = Int_val rb cb"
    and "in_range r (ca * cb)"
    and "in_range (arith_type r Int64) (ca * cb * num S)"
    and "in_range r ((ca * cb * num S) sdiv den S)"
  shows "operator_mul fp t a b = Inr (Plain (Int_val r ((ca * cb * num S) sdiv den S)))"
proof -
  note f = ratio_multiply_Some [OF assms(2,3,4)]
  note p = product_integral [OF assms(5-10), of fp]
  note sc = scale_integer [OF f(1) f(6) f(2) f(7) assms(11), of fp]
  have "operator_mul fp t a b =
      bind_res (bind_res (arith fp Mul (count a) (count b)) (convert_to fp (Integral r)))
        (\<lambda>v. bind_res (bind_res (arith fp Mul v (Int_val Int64 (num S)))
                 (\<lambda>x. arith fp Div x (Int_val Int64 (den S))))
               (\<lambda>q. bind_res (convert_to fp (Integral r) q) (\<lambda>r. Inr (Plain r))))"
    using assms(1,4,7) by (simp add: operator_mul_def bind_res_def split: sum.splits)
  also have "\<dots> = bind_res (bind_res (arith fp Mul (Int_val r (ca * cb)) (Int_val Int64 (num S)))
                 (\<lambda>x. arith fp Div x (Int_val Int64 (den S))))
               (\<lambda>q. bind_res (convert_to fp (Integral r) q) (\<lambda>r. Inr (Plain r)))"
    by (simp only: p bind_res_Inr)
  also have "\<dots> = Inr (Plain (Int_val r ((ca * cb * num S) sdiv den S)))"
    using assms(12) by (simp only: sc) (simp add: in_range_convert_id)
  finally show ?thesis .
qed

lemma operator_div_number_floating:
  assumes "div_type t (tag (ty a)) (tag (ty b)) = Some Void"
    and "ratio_divide (scale (ty a)) (scale (ty b)) = Some Q"
    and "well_typed a" "well_typed b"
    and "common_type_t (rep (ty a)) (rep (ty b)) = Floating K"
    and "arith fp Mul (Int_val Int64 (num Q)) (count a) = Inr n"
    and "arith fp Mul (Int_val Int64 (den Q)) (count b) = Inr d"
  shows "operator_div fp t a b =
           Inr (Plain (Fp_val K (fp_div fp K (as_fp fp K n) (as_fp fp K d))))"
proof -
  have "type_of d = arith_rep (Integral Int64) (type_of (count b))"
    using assms(7) by (cases "count b") (auto simp: bind_res_def split: sum.splits)
  then have td: "type_of d = arith_rep (Integral Int64) (rep (ty b))"
    by (simp add: well_typed_type_of [OF assms(4)])
  have "arith_rep (Floating K) (arith_rep (Integral Int64) (rep (ty b))) = Floating K"
    using assms(5)
    by (cases "rep (ty a)"; cases "rep (ty b)")
      (auto simp: common_type_t_def fp_wider_def split: if_splits)
  then have "arith fp Div (Fp_val K (as_fp fp K n)) d
      = Inr (Fp_val K (fp_div fp K (as_fp fp K n) (as_fp fp K d)))"
    using td by (simp add: arith_fp)
  then show ?thesis
    using assms(1,2,5,6,7) by (simp add: operator_div_def)
qed

lemma operator_div_number_integral:
  assumes "div_type t (tag (ty a)) (tag (ty b)) = Some Void"
    and "positive_scale (scale (ty a))" "positive_scale (scale (ty b))"
    and "ratio_divide (scale (ty a)) (scale (ty b)) = Some Q"
    and "well_typed a" "well_typed b"
    and "common_type_t (rep (ty a)) (rep (ty b)) = Integral r"
    and "count a = Int_val ra ca" "count b = Int_val rb cb"
    and "in_range Int64 (num Q * ca)" "in_range r (num Q * ca)"
    and "in_range Int64 (den Q * cb)" "in_range (arith_type r Int64) (den Q * cb)"
    and "cb \<noteq> 0"
    and "in_range (arith_type r Int64) ((num Q * ca) sdiv (den Q * cb))"
  shows "operator_div fp t a b =
           Inr (Plain (Int_val (arith_type r Int64) ((num Q * ca) sdiv (den Q * cb))))"
proof -
  note f = ratio_divide_Some [OF assms(2,3,4)]
  have t: "rep (ty a) = Integral ra" "rep (ty b) = Integral rb"
    using well_typed_type_of [OF assms(5)] well_typed_type_of [OF assms(6)] assms(8,9)
    by simp_all
  have ct: "common_type_t (Integral ra) (Integral rb) = Integral r" using assms(7) t by simp
  have n: "arith fp Mul (Int_val Int64 (num Q)) (count a)
      = Inr (Int_val (arith_type Int64 ra) (num Q * ca))"
    unfolding assms(8)
    by (rule factor_times_count [OF f(3) f(8) well_typed_in_range [OF assms(5,8)]
          intmax_operand [OF ct assms(10,11)]])
  have d: "arith fp Mul (Int_val Int64 (den Q)) (count b)
      = Inr (Int_val (arith_type Int64 rb) (den Q * cb))"
    unfolding assms(9)
    by (rule factor_times_count [OF f(4) f(9) well_typed_in_range [OF assms(6,9)]
          intmax_operand_right [OF ct assms(12,13)]])
  have z: "den Q * cb \<noteq> 0" using f(4) assms(14) by simp
  have "int_arith (arith_type r Int64) Div (num Q * ca) (den Q * cb)
      = Inr ((num Q * ca) sdiv (den Q * cb))"
    using in_range_intmax [OF assms(11)] assms(13) z assms(15) by (rule int_arith_div)
  then have q: "arith fp Div (Int_val r (num Q * ca)) (Int_val (arith_type Int64 rb) (den Q * cb))
      = Inr (Int_val (arith_type r Int64) ((num Q * ca) sdiv (den Q * cb)))"
    by (simp add: arith_type_result [OF ct])
  have "operator_div fp t a b =
      bind_res (arith fp Mul (Int_val Int64 (num Q)) (count a)) (\<lambda>n.
      bind_res (convert_to fp (Integral r) n) (\<lambda>n'.
      bind_res (arith fp Mul (Int_val Int64 (den Q)) (count b)) (\<lambda>d.
      bind_res (arith fp Div n' d) (\<lambda>q. Inr (Plain q)))))"
    using assms(1,4,7) by (simp add: operator_div_def)
  also have "\<dots> = bind_res (arith fp Div (Int_val r (num Q * ca))
        (Int_val (arith_type Int64 rb) (den Q * cb))) (\<lambda>q. Inr (Plain q))"
    using assms(11) by (simp only: n d bind_res_Inr) (simp add: in_range_convert_id)
  finally show ?thesis by (simp only: q bind_res_Inr)
qed




section \<open>What guards the conversion engine\<close>

lemma unit_cast_well_formed_iff:
  assumes "tag To = tag From" "ratio_divide (scale To) (scale From) = Some R"
  shows "unit_cast_well_formed To From \<longleftrightarrow>
           treat_as_floating_point (rep To) \<or> \<not> treat_as_floating_point (rep From)"
  using assms
  by (cases "rep To"; cases "rep From")
    (auto simp: unit_cast_well_formed_def unit_cast_constraint_def raw_ctor_available_def
      common_type_t_def)

lemma int_arith_not_ill_formed: "int_arith E op a b \<noteq> Inl Ill_formed"
  by (simp add: int_arith_def Let_def)

text \<open>A cast that compiles does not end in a compile-time error.\<close>

lemma unit_cast_not_ill_formed:
  assumes "unit_cast_well_formed To (ty u)" "well_typed u"
  shows "unit_cast fp To u \<noteq> Inl Ill_formed"
proof (cases "rep To")
  case (Floating K)
  obtain R where R: "ratio_divide (scale To) (scale (ty u)) = Some R"
    using assms(1) by (auto simp: unit_cast_well_formed_def)
  have "\<exists>K'. common_type_t (Floating K) R2 = Floating K'" for R2
    by (cases R2; cases "Floating K = R2") (simp_all add: common_type_t_def)
  then obtain K' where "common_type_t (rep To) (rep (ty u)) = Floating K'"
    using Floating by auto
  then show ?thesis
    using unit_cast_floating [OF _ R Floating, of K' fp] assms(1)
    by (simp add: unit_cast_well_formed_def unit_cast_constraint_def)
next
  case (Integral r2)
  obtain R where R: "ratio_divide (scale To) (scale (ty u)) = Some R"
    using assms(1) by (auto simp: unit_cast_well_formed_def)
  obtain r1 where r1: "rep (ty u) = Integral r1"
    using assms(1) Integral
    by (cases "rep (ty u)")
      (auto simp: unit_cast_well_formed_def raw_ctor_available_def common_type_t_def)
  obtain c where c: "m_val u = Int_val r1 c"
    using assms(2) r1 by (cases "m_val u") (auto simp: well_typed_def)
  obtain CT where CT: "common_type_t (Integral r2) (Integral r1) = Integral CT"
    by (cases "r2 = r1") (simp_all add: common_type_t_def)
  show ?thesis
    using assms(1) R Integral r1 c CT int_arith_not_ill_formed
    by (auto simp: unit_cast_def count_def bind_res_def raw_ctor_def raw_ctor_available_def
        split: sum.splits)
qed

lemma sdiv_small:
  fixes x n :: int
  assumes "\<bar>x\<bar> < n"
  shows "x sdiv n = 0"
  using assms by (simp add: signed_divide_int_def)

lemma small_product_in_range:
  assumes "in_range CT c" "0 < k" "\<bar>c * k\<bar> < n" "representable n"
  shows "in_range (arith_type CT Int64) (c * k)"
proof -
  have b: "- 9223372036854775807 < c * k" "c * k < 9223372036854775807"
    using assms(3,4) by (simp_all add: representable_def intmax_max_def)
  have "0 \<le> c \<Longrightarrow> 0 \<le> c * k" using assms(2) by simp
  then show ?thesis
    using b assms(1) by (cases CT) (simp_all add: rep_defs)
qed

lemma unit_cast_truncates_to_zero:
  assumes "tag To = tag (ty u)"
    and "positive_scale (scale To)" "positive_scale (scale (ty u))"
    and "ratio_divide (scale To) (scale (ty u)) = Some R"
    and "rep To = Integral r2" "rep (ty u) = Integral r1" "count u = Int_val r1 c"
    and "common_type_t (rep To) (rep (ty u)) = Integral CT"
    and "in_range CT c" "\<bar>c * den R\<bar> < num R"
  shows "unit_cast fp To u = Inr \<lparr>ty = To, m_val = Int_val r2 0\<rparr>"
proof -
  note f = ratio_divide_Some [OF assms(2-4)]
  have "in_range (arith_type CT Int64) (c * den R)"
    using assms(9) f(4) assms(10) f(8) by (rule small_product_in_range)
  then show ?thesis
    using unit_cast_integral [OF assms(1-9), of fp] sdiv_small [OF assms(10)] by simp
qed

lemma narrowing_guard_iff:
  assumes "positive_scale Scale" "positive_scale Scale2" "ratio_divide Scale Scale2 = Some R"
  shows "narrowing_guard Rep Scale Rep2 Scale2 \<longleftrightarrow>
           treat_as_floating_point Rep \<or> (num R = 1 \<and> \<not> treat_as_floating_point Rep2)"
proof -
  obtain Q where "ratio_divide Scale2 Scale = Some Q" "den Q = num R"
    using ratio_divide_flip [OF assms] by blast
  then show ?thesis by (simp add: narrowing_guard_def)
qed

text \<open>
  C10 (amended). Let \<open>u\<close> be a quantity and \<open>To\<close> a target type of the same tag, both
  scales positive, such that target scale over source scale is a well-formed
  \<^verbatim>\<open>std::ratio\<close> \<open>R\<close>. The requires-clause of \<open>unit_cast\<close> holds. The cast compiles
  exactly when the target representation is floating or the source representation is
  not; otherwise, and only then, it is rejected. The narrowing guard holds exactly when
  the target representation is floating, or \<open>R\<close> has numerator 1 (source scale over
  target scale has denominator 1) and the source representation is not floating; it is
  the guard of the converting constructor and of the constructor from a duration, and
  where it fails both constructions are rejected. For integral representations, where
  the count is representable in their common type and the count times \<open>den R\<close> is
  smaller in magnitude than \<open>num R\<close>, the cast returns a zero count.
\<close>

theorem unit_cast_has_no_narrowing_guard:
  assumes "tag To = tag (ty u)" and "positive_scale (scale To)"
    and "positive_scale (scale (ty u))" and "well_typed u"
    and "ratio_divide (scale To) (scale (ty u)) = Some R"
  shows "unit_cast_constraint To (ty u) \<and>
         (unit_cast_well_formed To (ty u) \<longleftrightarrow>
            treat_as_floating_point (rep To) \<or> \<not> treat_as_floating_point (rep (ty u))) \<and>
         (unit_cast fp To u = Inl Ill_formed \<longleftrightarrow>
            \<not> treat_as_floating_point (rep To) \<and> treat_as_floating_point (rep (ty u))) \<and>
         (narrowing_guard (rep To) (scale To) (rep (ty u)) (scale (ty u)) \<longleftrightarrow>
            treat_as_floating_point (rep To) \<or>
            (num R = 1 \<and> \<not> treat_as_floating_point (rep (ty u)))) \<and>
         (converting_ctor_available To (ty u) \<longleftrightarrow>
            narrowing_guard (rep To) (scale To) (rep (ty u)) (scale (ty u))) \<and>
         (\<forall>D. from_duration_available To D \<longleftrightarrow>
            is_duration_type (tag To) \<and>
            narrowing_guard (rep To) (scale To) (d_rep D) (period D)) \<and>
         (\<not> narrowing_guard (rep To) (scale To) (rep (ty u)) (scale (ty u)) \<longrightarrow>
            converting_ctor fp To u = Inl Ill_formed \<and>
            from_duration fp To
                \<lparr>d_ty = \<lparr>d_rep = rep (ty u), period = scale (ty u)\<rparr>, d_count = count u\<rparr>
              = Inl Ill_formed) \<and>
         (\<forall>r1 r2 CT c.
            rep (ty u) = Integral r1 \<and> rep To = Integral r2 \<and> count u = Int_val r1 c \<and>
            common_type_t (rep To) (rep (ty u)) = Integral CT \<and>
            in_range CT c \<and> \<bar>c * den R\<bar> < num R \<longrightarrow>
            unit_cast fp To u = Inr \<lparr>ty = To, m_val = Int_val r2 0\<rparr>)"
proof -
  note wf = unit_cast_well_formed_iff [OF assms(1,5)]
  have c: "unit_cast_constraint To (ty u)"
    using assms(1) by (simp add: unit_cast_constraint_def)
  have i: "unit_cast fp To u = Inl Ill_formed \<longleftrightarrow>
      \<not> treat_as_floating_point (rep To) \<and> treat_as_floating_point (rep (ty u))"
    using wf unit_cast_not_ill_formed [OF _ assms(4), of To fp]
      unit_cast_floating_source [of u To fp]
    by blast
  note g = narrowing_guard_iff [OF assms(2,3,5)]
  have a: "converting_ctor_available To (ty u) \<longleftrightarrow>
      narrowing_guard (rep To) (scale To) (rep (ty u)) (scale (ty u))"
    using assms(1) by (simp add: converting_ctor_available_def)
  have d: "\<forall>D. from_duration_available To D \<longleftrightarrow>
      is_duration_type (tag To) \<and> narrowing_guard (rep To) (scale To) (d_rep D) (period D)"
    by (simp add: from_duration_available_def)
  have n: "\<not> narrowing_guard (rep To) (scale To) (rep (ty u)) (scale (ty u)) \<longrightarrow>
      converting_ctor fp To u = Inl Ill_formed \<and>
      from_duration fp To
          \<lparr>d_ty = \<lparr>d_rep = rep (ty u), period = scale (ty u)\<rparr>, d_count = count u\<rparr>
        = Inl Ill_formed"
    by (simp add: converting_ctor_def converting_ctor_available_def from_duration_def
        from_duration_available_def)
  have z: "\<forall>r1 r2 CT c.
      rep (ty u) = Integral r1 \<and> rep To = Integral r2 \<and> count u = Int_val r1 c \<and>
      common_type_t (rep To) (rep (ty u)) = Integral CT \<and>
      in_range CT c \<and> \<bar>c * den R\<bar> < num R \<longrightarrow>
      unit_cast fp To u = Inr \<lparr>ty = To, m_val = Int_val r2 0\<rparr>"
    using unit_cast_truncates_to_zero [OF assms(1,2,3,5), of _ _ _ _ fp] by blast
  show ?thesis using c wf i g a d n z by blast
qed

text \<open>
  999 W cannot be converted to kilowatts by the constructor, nor 999 s to kiloseconds by
  the constructor from a duration, and \<open>unit_cast\<close> makes them zero.
\<close>

theorem unit_cast_no_guard_witness:
  "unit_cast_well_formed (watt (Integral Int64) kilo) (watt (Integral Int64) one) \<and>
   \<not> converting_ctor_available (watt (Integral Int64) kilo) (watt (Integral Int64) one) \<and>
   converting_ctor exact_fp (watt (Integral Int64) kilo)
     \<lparr>ty = watt (Integral Int64) one, m_val = Int_val Int64 999\<rparr> = Inl Ill_formed \<and>
   unit_cast exact_fp (watt (Integral Int64) kilo)
     \<lparr>ty = watt (Integral Int64) one, m_val = Int_val Int64 999\<rparr>
     = Inr \<lparr>ty = watt (Integral Int64) kilo, m_val = Int_val Int64 0\<rparr> \<and>
   from_duration exact_fp (second (Integral Int64) kilo)
     \<lparr>d_ty = \<lparr>d_rep = Integral Int64, period = one\<rparr>, d_count = Int_val Int64 999\<rparr>
     = Inl Ill_formed \<and>
   unit_cast exact_fp (second (Integral Int64) kilo)
     \<lparr>ty = second (Integral Int64) one, m_val = Int_val Int64 999\<rparr>
     = Inr \<lparr>ty = second (Integral Int64) kilo, m_val = Int_val Int64 0\<rparr>"
proof -
  let ?u = "\<lparr>ty = watt (Integral Int64) one, m_val = Int_val Int64 999 :: rat number\<rparr>"
  let ?v = "\<lparr>ty = second (Integral Int64) one, m_val = Int_val Int64 999 :: rat number\<rparr>"
  have t: "tag (watt (Integral Int64) kilo) = tag (ty ?u)"
    "tag (second (Integral Int64) kilo) = tag (ty ?v)"
    by (simp_all add: watt_def second_def)
  have p: "positive_scale (scale (watt (Integral Int64) kilo))"
    "positive_scale (scale (ty ?u))"
    "positive_scale (scale (second (Integral Int64) kilo))"
    "positive_scale (scale (ty ?v))"
    by (simp_all add: unit_defs positive_scale_def)
  have w: "well_typed ?u" "well_typed ?v"
    by (simp_all add: well_typed_def unit_defs rep_defs)
  have r: "ratio_divide (scale (watt (Integral Int64) kilo)) (scale (ty ?u))
      = Some (Ratio 1000 1)"
    "ratio_divide (scale (second (Integral Int64) kilo)) (scale (ty ?v))
      = Some (Ratio 1000 1)"
    by (simp_all add: unit_defs ratio_defs)
  note i1 = unit_cast_has_no_narrowing_guard [OF t(1) p(1,2) w(1) r(1), of exact_fp]
  note i2 = unit_cast_has_no_narrowing_guard [OF t(2) p(3,4) w(2) r(2), of exact_fp]
  have "unit_cast_well_formed (watt (Integral Int64) kilo) (watt (Integral Int64) one) \<and>
      \<not> converting_ctor_available (watt (Integral Int64) kilo) (watt (Integral Int64) one) \<and>
      converting_ctor exact_fp (watt (Integral Int64) kilo) ?u = Inl Ill_formed \<and>
      unit_cast exact_fp (watt (Integral Int64) kilo) ?u
        = Inr \<lparr>ty = watt (Integral Int64) kilo, m_val = Int_val Int64 0\<rparr>"
    using i1 by (simp add: watt_def count_def rep_defs)
  moreover have "from_duration exact_fp (second (Integral Int64) kilo)
        \<lparr>d_ty = \<lparr>d_rep = Integral Int64, period = one\<rparr>, d_count = Int_val Int64 999\<rparr>
        = Inl Ill_formed \<and>
      unit_cast exact_fp (second (Integral Int64) kilo) ?v
        = Inr \<lparr>ty = second (Integral Int64) kilo, m_val = Int_val Int64 0\<rparr>"
    using i2 by (simp add: second_def count_def rep_defs one_def)
  ultimately show ?thesis by simp
qed

text \<open>
  The claim as stated fails for a floating source: casting watts in \<^verbatim>\<open>double\<close> to watts
  in \<^verbatim>\<open>int64_t\<close> satisfies the requires-clause, but the body would construct the
  integral quantity from a \<^verbatim>\<open>double\<close>, which the constructor's guard rejects. It fails
  where the scale ratio does not fit \<^verbatim>\<open>intmax_t\<close>: attoseconds cannot be cast to
  exaseconds. And the guard is not on the converting constructor only: kiloseconds
  cannot be constructed from a duration in seconds.
\<close>

theorem unit_cast_floating_source_counterexample:
  "unit_cast_constraint (watt (Integral Int64) one) (watt (Floating Double) one) \<and>
   \<not> unit_cast_well_formed (watt (Integral Int64) one) (watt (Floating Double) one) \<and>
   unit_cast exact_fp (watt (Integral Int64) one)
     \<lparr>ty = watt (Floating Double) one, m_val = Fp_val Double (5 / 2)\<rparr> = Inl Ill_formed \<and>
   unit_cast_constraint (second (Integral Int64) exa) (second (Integral Int64) atto) \<and>
   unit_cast exact_fp (second (Integral Int64) exa)
     \<lparr>ty = second (Integral Int64) atto, m_val = Int_val Int64 5\<rparr> = Inl Ill_formed \<and>
   is_duration_type (tag (second (Integral Int64) kilo)) \<and>
   \<not> from_duration_available (second (Integral Int64) kilo)
       \<lparr>d_rep = Integral Int64, period = one\<rparr> \<and>
   from_duration exact_fp (second (Integral Int64) kilo)
     \<lparr>d_ty = \<lparr>d_rep = Integral Int64, period = one\<rparr>, d_count = Int_val Int64 5000\<rparr>
     = Inl Ill_formed"
  by (simp add: from_duration_def from_duration_available_def narrowing_guard_def unit_defs
      rep_defs ratio_defs cast_defs)

end
